(* ===== verification/Prelude.thy ===== *)
theory Prelude
  imports Main "HOL-Library.Multiset" "HOL-Library.Word"
begin

text \<open>
  The prelude of the zdash development: the collections of facts its theories share,
  the type names they have in common, and the generic lemmas on lists, finite sets
  and maps that the component proofs rest on.

  Times and durations are integers counting nanoseconds, as \<open>time.Duration\<close> and
  the monotonic reading of \<open>time.Time\<close> do. Strings are lists of bytes
  (\<^typ>\<open>char\<close>), as Go's strings are.
\<close>

named_theorems gate_simps \<open>effect of the idle-gate operations on each field\<close>
named_theorems refresh_simps \<open>effect of the refresher operations on each field\<close>
named_theorems text_simps \<open>evaluation of the string routines\<close>

type_synonym duration = int
type_synonym instant = int

definition second :: duration where
  "second = 1000000000"

lemma second_pos [simp]: "0 < second" "0 \<le> second"
  by (simp_all add: second_def)

lemma later_bound: "x \<le> c + l \<Longrightarrow> 0 \<le> d \<Longrightarrow> x \<le> c + d + (l :: int)"
  by simp

section \<open>Finite sets with a counter\<close>

lemma card_insert_fresh: "finite A \<Longrightarrow> x \<notin> A \<Longrightarrow> int (card (insert x A)) = int (card A) + 1"
  by simp

lemma card_remove_member: "finite A \<Longrightarrow> x \<in> A \<Longrightarrow> int (card (A - {x})) = int (card A) - 1"
  by (metis One_nat_def Suc_diff_1 card_Diff_singleton card_gt_0_iff empty_iff int_Suc
      add_diff_cancel_right')

lemma card_zero_empty: "finite A \<Longrightarrow> int (card A) = 0 \<longleftrightarrow> A = {}"
  by simp

section \<open>Machine words read as counters\<close>

lemma of_nat_word64_inj:
  "of_nat a = (of_nat b :: 64 word) \<Longrightarrow> a < 2 ^ 64 \<Longrightarrow> b < 2 ^ 64 \<Longrightarrow> a = b"
proof -
  assume eq: "of_nat a = (of_nat b :: 64 word)" and a: "a < 2 ^ 64" and b: "b < 2 ^ 64"
  have A: "unat (of_nat a :: 64 word) = a"
    using a by (simp add: unsigned_of_nat take_bit_nat_eq_self)
  have B: "unat (of_nat b :: 64 word) = b"
    using b by (simp add: unsigned_of_nat take_bit_nat_eq_self)
  have "a = unat (of_nat b :: 64 word)" using A unfolding eq by (rule sym)
  then show "a = b" unfolding B .
qed

end
