(* ===== verification/IdleGate.thy ===== *)
theory IdleGate
  imports Prelude
begin

text \<open>
  The idle gate of \<open>idle.go\<close>: the record \<open>idleGate\<close>, one definition per method, and
  the gate run one call at a time. The methods' bodies run under \<open>g.mu\<close>, so each is a
  function from the gate's state to the gate's state; a method that is not one critical
  section (\<open>trySleep\<close>, \<open>endSession\<close>, \<open>connState\<close>) is given by its parts and by
  their composition. The interleavings of the parts are the subject of theory
  \<open>GateSteps\<close>.

  What the gate asks of the Go runtime is part of its state: the clock, the timers armed
  by \<open>time.AfterFunc\<close> (a timer is removed when it is stopped or when it fires), and the
  state \<open>world\<close> on which the callbacks \<open>wakeFn\<close> and \<open>sleepFn\<close> act.
  \<open>exited\<close> records the call of \<open>g.exit\<close>.
\<close>

section \<open>Constants and data\<close>

definition idleGrace :: duration where
  "idleGrace = 3 * second"

definition maxSessionCap :: duration where
  "maxSessionCap = 4 * 60 * second"

lemma idle_constants_pos [simp]: "0 \<le> idleGrace" "0 \<le> maxSessionCap"
  by (simp_all add: idleGrace_def maxSessionCap_def)

type_synonym conn = nat
type_synonym timer_id = nat

datatype timer_fn = TrySleepFn | EndSessionFn

datatype conn_state = StateNew | StateActive | StateIdle | StateHijacked | StateClosed

record 'w gate =
  conns :: int
  liveConns :: "conn set"
  sess :: "timer_id option"
  maxSession :: duration
  sleeping :: bool
  timer :: "timer_id option"
  awakeProcs :: int
  awakeGC :: int
  grace :: duration
  exitOnIdle :: bool
  clock :: instant
  armed :: "timer_id \<rightharpoonup> timer_fn \<times> instant"
  next_timer :: timer_id
  world :: 'w
  exited :: bool

definition newIdleGate :: "int \<Rightarrow> int \<Rightarrow> instant \<Rightarrow> 'w \<Rightarrow> 'w gate" where
  "newIdleGate procs gogc t w =
     \<lparr>conns = 0, liveConns = {}, sess = None, maxSession = maxSessionCap, sleeping = False,
      timer = None, awakeProcs = procs, awakeGC = gogc, grace = idleGrace, exitOnIdle = False,
      clock = t, armed = Map.empty, next_timer = 0, world = w, exited = False\<rparr>"

definition ExitOnIdle :: "('w, 'm) gate_scheme \<Rightarrow> ('w, 'm) gate_scheme" where
  "ExitOnIdle g = g\<lparr>exitOnIdle := True\<rparr>"

section \<open>Timers of the Go runtime\<close>

definition afterFunc ::
  "duration \<Rightarrow> timer_fn \<Rightarrow> ('w, 'm) gate_scheme \<Rightarrow> timer_id \<times> ('w, 'm) gate_scheme" where
  "afterFunc d f g =
     (next_timer g, g\<lparr>armed := (armed g)(next_timer g \<mapsto> (f, clock g + d)),
                      next_timer := Suc (next_timer g)\<rparr>)"

definition stopTimer :: "timer_id \<Rightarrow> ('w, 'm) gate_scheme \<Rightarrow> ('w, 'm) gate_scheme" where
  "stopTimer i g = g\<lparr>armed := (armed g)(i := None)\<rparr>"

section \<open>The methods\<close>

definition armSessionLocked :: "('w, 'm) gate_scheme \<Rightarrow> ('w, 'm) gate_scheme" where
  "armSessionLocked g =
     (if sess g = None \<and> \<not> sleeping g
      then let (i, g') = afterFunc (maxSession g) EndSessionFn g in g'\<lparr>sess := Some i\<rparr>
      else g)"

definition cancelTimer :: "('w, 'm) gate_scheme \<Rightarrow> ('w, 'm) gate_scheme" where
  "cancelTimer g =
     (case timer g of None \<Rightarrow> g | Some i \<Rightarrow> (stopTimer i g)\<lparr>timer := None\<rparr>)"

definition cancelSess :: "('w, 'm) gate_scheme \<Rightarrow> ('w, 'm) gate_scheme" where
  "cancelSess g =
     (case sess g of None \<Rightarrow> g | Some i \<Rightarrow> (stopTimer i g)\<lparr>sess := None\<rparr>)"

definition wake :: "('w \<Rightarrow> 'w) \<Rightarrow> ('w, 'm) gate_scheme \<Rightarrow> ('w, 'm) gate_scheme" where
  "wake wakeFn g =
     (let g1 = cancelTimer g in
      if \<not> sleeping g1 then armSessionLocked g1
      else let g2 = armSessionLocked (g1\<lparr>sleeping := False\<rparr>)
           in g2\<lparr>world := wakeFn (world g2)\<rparr>)"

definition scheduleSleep :: "('w, 'm) gate_scheme \<Rightarrow> ('w, 'm) gate_scheme" where
  "scheduleSleep g =
     (if sleeping g \<or> timer g \<noteq> None then g
      else let (i, g') = afterFunc (grace g) TrySleepFn g in g'\<lparr>timer := Some i\<rparr>)"

text \<open>
  \<open>trySleep\<close> reads the connection counter twice, the second time after \<open>sleepFn\<close>, and
  the counter can move in between: the two halves are separate definitions. The Boolean
  says whether the first half parked, so that the second one runs.
\<close>

definition trySleep_park ::
  "('w \<Rightarrow> 'w) \<Rightarrow> ('w, 'm) gate_scheme \<Rightarrow> ('w, 'm) gate_scheme \<times> bool" where
  "trySleep_park sleepFn g =
     (let g1 = cancelSess (g\<lparr>timer := None\<rparr>) in
      if sleeping g1 \<or> conns g1 \<noteq> 0 then (g1, False)
      else (let g2 = g1\<lparr>sleeping := True\<rparr> in (g2\<lparr>world := sleepFn (world g2)\<rparr>, True)))"

definition trySleep_exit :: "('w, 'm) gate_scheme \<Rightarrow> ('w, 'm) gate_scheme" where
  "trySleep_exit g = (if exitOnIdle g \<and> conns g = 0 then g\<lparr>exited := True\<rparr> else g)"

definition trySleep :: "('w \<Rightarrow> 'w) \<Rightarrow> ('w, 'm) gate_scheme \<Rightarrow> ('w, 'm) gate_scheme" where
  "trySleep sleepFn g =
     (let (g', parked) = trySleep_park sleepFn g in if parked then trySleep_exit g' else g')"

definition enterSleep :: "('w \<Rightarrow> 'w) \<Rightarrow> ('w, 'm) gate_scheme \<Rightarrow> ('w, 'm) gate_scheme" where
  "enterSleep sleepFn g =
     (let g1 = cancelSess (cancelTimer g) in
      if sleeping g1 then g1
      else let g2 = g1\<lparr>sleeping := True\<rparr> in g2\<lparr>world := sleepFn (world g2)\<rparr>)"

text \<open>
  \<open>endSession\<close> takes the mutex twice: first to forget the session timer and to move the
  live connections out of the map, and again, after the closes, to open a new window. The
  early return when there was no live connection skips the second section.
\<close>

definition endSession_begin ::
  "('w, 'm) gate_scheme \<Rightarrow> conn set \<times> ('w, 'm) gate_scheme" where
  "endSession_begin g = (liveConns g, g\<lparr>sess := None, liveConns := {}\<rparr>)"

definition endSession_end :: "('w, 'm) gate_scheme \<Rightarrow> ('w, 'm) gate_scheme" where
  "endSession_end g = armSessionLocked g"

definition endSession :: "('w, 'm) gate_scheme \<Rightarrow> conn set \<times> ('w, 'm) gate_scheme" where
  "endSession g =
     (let (cs, g') = endSession_begin g in
      if cs = {} then ({}, g') else (cs, endSession_end g'))"

definition connState ::
  "('w \<Rightarrow> 'w) \<Rightarrow> conn \<Rightarrow> conn_state \<Rightarrow> ('w, 'm) gate_scheme \<Rightarrow> ('w, 'm) gate_scheme" where
  "connState wakeFn c st g =
     (case st of
        StateNew \<Rightarrow>
          (let g1 = g\<lparr>conns := conns g + 1\<rparr>;
               g2 = (if conns g1 = 1 then wake wakeFn g1 else g1)
           in g2\<lparr>liveConns := insert c (liveConns g2)\<rparr>)
      | StateActive \<Rightarrow> g
      | StateIdle \<Rightarrow> g
      | _ \<Rightarrow>
          (let g1 = g\<lparr>conns := conns g - 1\<rparr>;
               g2 = (if conns g1 = 0 then scheduleSleep g1 else g1)
           in g2\<lparr>liveConns := liveConns g2 - {c}\<rparr>))"


section \<open>Effect of the methods on the fields\<close>

lemmas gate_defs =
  armSessionLocked_def cancelTimer_def cancelSess_def wake_def scheduleSleep_def
  trySleep_park_def trySleep_exit_def enterSleep_def endSession_begin_def endSession_end_def
  afterFunc_def stopTimer_def

definition without_opt :: "('k \<rightharpoonup> 'v) \<Rightarrow> 'k option \<Rightarrow> ('k \<rightharpoonup> 'v)" where
  "without_opt m k = (case k of None \<Rightarrow> m | Some i \<Rightarrow> m(i := None))"

lemma without_opt_simps [simp]:
  "without_opt m None = m" "without_opt m (Some i) = m(i := None)"
  by (simp_all add: without_opt_def)

lemma wake_fields [gate_simps]:
  "conns (wake f g) = conns g" "liveConns (wake f g) = liveConns g"
  "sleeping (wake f g) = False" "timer (wake f g) = None"
  "sess (wake f g) = (if sess g = None then Some (next_timer g) else sess g)"
  "armed (wake f g) =
     (if sess g = None
      then (without_opt (armed g) (timer g))
             (next_timer g \<mapsto> (EndSessionFn, clock g + maxSession g))
      else without_opt (armed g) (timer g))"
  "next_timer (wake f g) = (if sess g = None then Suc (next_timer g) else next_timer g)"
  "world (wake f g) = (if sleeping g then f (world g) else world g)"
  "grace (wake f g) = grace g" "maxSession (wake f g) = maxSession g"
  "clock (wake f g) = clock g" "exitOnIdle (wake f g) = exitOnIdle g"
  "exited (wake f g) = exited g"
  by (auto simp: gate_defs without_opt_def Let_def split: option.splits)

lemma scheduleSleep_fields [gate_simps]:
  "conns (scheduleSleep g) = conns g" "liveConns (scheduleSleep g) = liveConns g"
  "sleeping (scheduleSleep g) = sleeping g" "sess (scheduleSleep g) = sess g"
  "timer (scheduleSleep g) =
     (if sleeping g \<or> timer g \<noteq> None then timer g else Some (next_timer g))"
  "armed (scheduleSleep g) =
     (if sleeping g \<or> timer g \<noteq> None then armed g
      else (armed g)(next_timer g \<mapsto> (TrySleepFn, clock g + grace g)))"
  "next_timer (scheduleSleep g) =
     (if sleeping g \<or> timer g \<noteq> None then next_timer g else Suc (next_timer g))"
  "world (scheduleSleep g) = world g"
  "grace (scheduleSleep g) = grace g" "maxSession (scheduleSleep g) = maxSession g"
  "clock (scheduleSleep g) = clock g" "exitOnIdle (scheduleSleep g) = exitOnIdle g"
  "exited (scheduleSleep g) = exited g"
  by (simp_all add: gate_defs Let_def)

lemma trySleep_park_parked [gate_simps]:
  "snd (trySleep_park f g) \<longleftrightarrow> \<not> sleeping g \<and> conns g = 0"
  by (auto simp: gate_defs Let_def split: option.splits)

lemma trySleep_park_fields [gate_simps]:
  "conns (fst (trySleep_park f g)) = conns g"
  "liveConns (fst (trySleep_park f g)) = liveConns g"
  "sleeping (fst (trySleep_park f g)) \<longleftrightarrow> sleeping g \<or> conns g = 0"
  "timer (fst (trySleep_park f g)) = None" "sess (fst (trySleep_park f g)) = None"
  "armed (fst (trySleep_park f g)) = without_opt (armed g) (sess g)"
  "next_timer (fst (trySleep_park f g)) = next_timer g"
  "world (fst (trySleep_park f g)) =
     (if sleeping g \<or> conns g \<noteq> 0 then world g else f (world g))"
  "grace (fst (trySleep_park f g)) = grace g"
  "maxSession (fst (trySleep_park f g)) = maxSession g"
  "clock (fst (trySleep_park f g)) = clock g"
  "exitOnIdle (fst (trySleep_park f g)) = exitOnIdle g"
  "exited (fst (trySleep_park f g)) = exited g"
  by (auto simp: gate_defs without_opt_def Let_def split: option.splits)

lemma trySleep_exit_fields [gate_simps]:
  "conns (trySleep_exit g) = conns g" "liveConns (trySleep_exit g) = liveConns g"
  "sleeping (trySleep_exit g) = sleeping g" "timer (trySleep_exit g) = timer g"
  "sess (trySleep_exit g) = sess g" "armed (trySleep_exit g) = armed g"
  "next_timer (trySleep_exit g) = next_timer g" "world (trySleep_exit g) = world g"
  "grace (trySleep_exit g) = grace g" "maxSession (trySleep_exit g) = maxSession g"
  "clock (trySleep_exit g) = clock g" "exitOnIdle (trySleep_exit g) = exitOnIdle g"
  "exited (trySleep_exit g) \<longleftrightarrow> exited g \<or> exitOnIdle g \<and> conns g = 0"
  by (auto simp: gate_defs)

lemma enterSleep_fields [gate_simps]:
  "conns (enterSleep f g) = conns g" "liveConns (enterSleep f g) = liveConns g"
  "sleeping (enterSleep f g) = True" "timer (enterSleep f g) = None"
  "sess (enterSleep f g) = None"
  "armed (enterSleep f g) = without_opt (without_opt (armed g) (timer g)) (sess g)"
  "next_timer (enterSleep f g) = next_timer g"
  "world (enterSleep f g) = (if sleeping g then world g else f (world g))"
  "grace (enterSleep f g) = grace g" "maxSession (enterSleep f g) = maxSession g"
  "clock (enterSleep f g) = clock g" "exitOnIdle (enterSleep f g) = exitOnIdle g"
  "exited (enterSleep f g) = exited g"
  by (simp_all add: gate_defs without_opt_def Let_def split: option.splits)

lemma endSession_fields [gate_simps]:
  "fst (endSession_begin g) = liveConns g"
  "snd (endSession_begin g) = g\<lparr>sess := None, liveConns := {}\<rparr>"
  by (simp_all add: gate_defs)

lemma armSession_fields [gate_simps]:
  "conns (endSession_end g) = conns g" "liveConns (endSession_end g) = liveConns g"
  "sleeping (endSession_end g) = sleeping g" "timer (endSession_end g) = timer g"
  "sess (endSession_end g) =
     (if sess g = None \<and> \<not> sleeping g then Some (next_timer g) else sess g)"
  "armed (endSession_end g) =
     (if sess g = None \<and> \<not> sleeping g
      then (armed g)(next_timer g \<mapsto> (EndSessionFn, clock g + maxSession g)) else armed g)"
  "next_timer (endSession_end g) =
     (if sess g = None \<and> \<not> sleeping g then Suc (next_timer g) else next_timer g)"
  "world (endSession_end g) = world g"
  "grace (endSession_end g) = grace g" "maxSession (endSession_end g) = maxSession g"
  "clock (endSession_end g) = clock g" "exitOnIdle (endSession_end g) = exitOnIdle g"
  "exited (endSession_end g) = exited g"
  by (simp_all add: gate_defs Let_def)

lemma stopTimer_fields [gate_simps]:
  "stopTimer i g = g\<lparr>armed := (armed g)(i := None)\<rparr>"
  by (simp add: stopTimer_def)

end
