(* ===== verification/GateRuns.thy ===== *)
theory GateRuns
  imports IdleGate
begin

text \<open>
  The gate when its calls do not overlap: every \<open>connState\<close> call and every timer
  callback of \<open>idle.go\<close> runs to its end before the next one starts. Connections follow
  the protocol of \<open>http.Server\<close>: StateNew once, then StateActive and StateIdle, then
  StateClosed or StateHijacked. The record below adds the connections between StateNew
  and the closing report.

  A forced session end closes the connections of the map, and the server reports each
  of them closed; the model asks that these reports have arrived when the next session
  timer fires, four minutes later (the guard of \<open>EvSession\<close>).
\<close>

record 'w seq_gate = "'w gate" +
  openConns :: "conn set"






section \<open>The session cap\<close>

definition capped :: "('w, 'm) gate_scheme \<Rightarrow> bool" where
  "capped g = (case sess g of None \<Rightarrow> False
     | Some i \<Rightarrow> (case armed g i of None \<Rightarrow> False
        | Some (f, d) \<Rightarrow> f = EndSessionFn \<and> d \<le> clock g + maxSession g))"

definition parking :: "('w, 'm) gate_scheme \<Rightarrow> bool" where
  "parking g = (case timer g of None \<Rightarrow> False
     | Some i \<Rightarrow> (case armed g i of None \<Rightarrow> False
        | Some (f, d) \<Rightarrow> f = TrySleepFn \<and> d \<le> clock g + grace g))"

lemma capped_iff:
  "capped g \<longleftrightarrow>
     (\<exists>i d. sess g = Some i \<and> armed g i = Some (EndSessionFn, d) \<and> d \<le> clock g + maxSession g)"
  by (auto simp: capped_def split: option.splits)

lemma parking_iff:
  "parking g \<longleftrightarrow>
     (\<exists>i d. timer g = Some i \<and> armed g i = Some (TrySleepFn, d) \<and> d \<le> clock g + grace g)"
  by (auto simp: parking_def split: option.splits)








lemma openConns_fields [gate_simps]:
  "openConns (wake f s) = openConns s" "openConns (scheduleSleep s) = openConns s"
  "openConns (fst (trySleep_park f s)) = openConns s"
  "openConns (trySleep_exit s) = openConns s" "openConns (endSession_end s) = openConns s"
  by (auto simp: gate_defs Let_def split: option.splits)





lemma one_entry_eq [simp]: "[i \<mapsto> a] = [i \<mapsto> b] \<longleftrightarrow> a = b"
  by (metis fun_upd_same option.inject)

lemma two_entries_eq [simp]:
  "i \<noteq> j \<Longrightarrow> [i \<mapsto> a, j \<mapsto> b] = [i \<mapsto> c, j \<mapsto> d] \<longleftrightarrow> a = c \<and> b = d"
  by (auto simp: fun_eq_iff split: if_splits)

section \<open>Every event keeps the phases\<close>












lemma connState_ignored [simp]:
  "connState f c StateActive g = g" "connState f c StateIdle g = g"
  by (simp_all add: connState_def)





section \<open>Properties\<close>







end
