(* ===== verification/Listener.thy ===== *)
theory Listener
  imports GoConv
begin

text \<open>
  Where the listening socket comes from: \<open>Listen\<close> of \<open>listener.go\<close>, the systemd socket
  activation of \<open>listener_linux.go\<close> and the stub of \<open>listener_stub.go\<close>.

  The operating system is a record of what its calls would answer: \<open>net.FileListener\<close> on
  the passed descriptor and \<open>net.Listen\<close> on an address, each a listener or an error text.
  The descriptors that the program keeps referenced (\<open>passedFiles\<close>) and those it has
  closed are state.
\<close>

section \<open>The system and the descriptors\<close>

record 'l net_env =
  lenv :: "string \<Rightarrow> string"
  getpid :: int
  file_listener :: "nat \<Rightarrow> string + 'l"
  tcp_listener :: "string \<Rightarrow> string + 'l"

record fd_state =
  passedFiles :: "nat list"
  fds_closed :: "nat set"

definition socketActivationEnv :: string where
  "socketActivationEnv = ''SOCKET_ACTIVATION''"

datatype platform = Linux | OtherOS

section \<open>Socket activation\<close>

definition activatedBySystemd :: "'l net_env \<Rightarrow> bool" where
  "activatedBySystemd e =
     (case Atoi (lenv e ''LISTEN_FDS'') of
        None \<Rightarrow> False
      | Some fds \<Rightarrow>
          (if fds < 1 then False
           else case Atoi (lenv e ''LISTEN_PID'') of None \<Rightarrow> False | Some pid \<Rightarrow> pid = getpid e))"

definition adoptListener :: "'l net_env \<Rightarrow> nat \<Rightarrow> fd_state \<Rightarrow> 'l option \<times> fd_state" where
  "adoptListener e f s =
     (case file_listener e f of
        Inl err \<Rightarrow> (None, s\<lparr>fds_closed := insert f (fds_closed s)\<rparr>)
      | Inr ln \<Rightarrow> (Some ln, s\<lparr>passedFiles := passedFiles s @ [f]\<rparr>))"

definition systemdListener :: "platform \<Rightarrow> 'l net_env \<Rightarrow> fd_state \<Rightarrow> 'l option \<times> fd_state" where
  "systemdListener os e s =
     (case os of
        OtherOS \<Rightarrow> (None, s)
      | Linux \<Rightarrow>
          (if lenv e socketActivationEnv \<noteq> ''1'' then (None, s)
           else if \<not> activatedBySystemd e then (None, s)
           else adoptListener e 3 s))"

datatype listen_error = BindError string string \<comment> \<open>bind \<open>addr\<close>: cause\<close>

definition Listen ::
  "platform \<Rightarrow> 'l net_env \<Rightarrow> string \<Rightarrow> fd_state \<Rightarrow> (listen_error + 'l) \<times> fd_state" where
  "Listen os e addr s =
     (let (passed, s') = systemdListener os e s in
      case passed of
        Some ln \<Rightarrow> (Inr ln, s')
      | None \<Rightarrow>
          (case tcp_listener e addr of
             Inl err \<Rightarrow> (Inl (BindError addr err), s')
           | Inr ln \<Rightarrow> (Inr ln, s')))"

section \<open>Guarantees\<close>

text \<open>
  The conditions under which descriptor 3 is looked at: Linux, the opt-in, and the
  activation protocol's two variables, the second naming this very process.
\<close>

definition opted_in :: "platform \<Rightarrow> 'l net_env \<Rightarrow> bool" where
  "opted_in os e \<longleftrightarrow> os = Linux \<and> lenv e ''SOCKET_ACTIVATION'' = ''1'' \<and>
     (\<exists>n \<ge> 1. Atoi (lenv e ''LISTEN_FDS'') = Some n) \<and>
     Atoi (lenv e ''LISTEN_PID'') = Some (getpid e)"

lemma activated_iff:
  "activatedBySystemd e \<longleftrightarrow>
     (\<exists>n \<ge> 1. Atoi (lenv e ''LISTEN_FDS'') = Some n) \<and>
     Atoi (lenv e ''LISTEN_PID'') = Some (getpid e)"
  by (auto simp: activatedBySystemd_def split: option.split)

lemma systemdListener_opted:
  "systemdListener os e s = (if opted_in os e then adoptListener e 3 s else (None, s))"
  by (cases os) (auto simp: systemdListener_def opted_in_def activated_iff socketActivationEnv_def)

text \<open>
  Property C36: a stray environment cannot hijack a descriptor. Without the full opt-in
  (Linux, \<open>SOCKET_ACTIVATION=1\<close>, a positive \<open>LISTEN_FDS\<close> and the own \<open>LISTEN_PID\<close>),
  Listen binds the address it was given, whatever descriptor 3 is, and touches no
  descriptor; the error then names that address.
\<close>

theorem Listen_without_optin:
  assumes "\<not> opted_in os e"
  shows "Listen os e addr s =
    (case tcp_listener e addr of Inl err \<Rightarrow> Inl (BindError addr err) | Inr ln \<Rightarrow> Inr ln, s)"
  using assms by (simp add: Listen_def systemdListener_opted split: sum.split)

lemma Listen_without_optin_witness:
  "Listen Linux \<lparr>lenv = (\<lambda>v. if v = ''LISTEN_FDS'' then ''1'' else if v = ''LISTEN_PID'' then ''7''
       else []), getpid = 7, file_listener = (\<lambda>_. Inr ''stolen''), tcp_listener = (\<lambda>_. Inr ''own'')\<rparr>
     ''127.0.0.1:8080'' \<lparr>passedFiles = [], fds_closed = {}\<rparr> =
   (Inr ''own'', \<lparr>passedFiles = [], fds_closed = {}\<rparr>)"
  by (subst Listen_without_optin) (simp_all add: opted_in_def)

text \<open>
  Property C37: the passed descriptor is never leaked and never lost. With the opt-in,
  when descriptor 3 is a listening socket it is the listener, no address is bound, and the
  file stays referenced and open; when it is not, it is closed, not kept, and Listen falls
  back to binding the address.
\<close>

theorem Listen_opted_in:
  assumes "opted_in os e"
  shows "Listen os e addr s =
    (case file_listener e 3 of
       Inr ln \<Rightarrow> (Inr ln, s\<lparr>passedFiles := passedFiles s @ [3]\<rparr>)
     | Inl _ \<Rightarrow> (case tcp_listener e addr of Inl err \<Rightarrow> Inl (BindError addr err) | Inr ln \<Rightarrow> Inr ln,
                 s\<lparr>fds_closed := insert 3 (fds_closed s)\<rparr>))"
  using assms by (simp add: Listen_def systemdListener_opted adoptListener_def split: sum.split)

lemma Listen_opted_in_witness:
  "Listen Linux \<lparr>lenv = (\<lambda>v. if v = ''LISTEN_PID'' then ''7'' else ''1''), getpid = 7,
       file_listener = (\<lambda>_. Inl ''not a socket''), tcp_listener = (\<lambda>_. Inr ''own'')\<rparr>
     ''127.0.0.1:8080'' \<lparr>passedFiles = [], fds_closed = {}\<rparr> =
   (Inr ''own'', \<lparr>passedFiles = [], fds_closed = {3}\<rparr>)"
proof -
  have "Atoi ''7'' = Some 7" "Atoi ''1'' = Some 1"
    by (simp_all add: Atoi_def parse_nat_def digit_val_def)
  then show ?thesis by (subst Listen_opted_in) (auto simp: opted_in_def)
qed

end
