(* ===== verification/GateSteps.thy ===== *)
theory GateSteps
  imports IdleGate
begin

text \<open>
  The gate with its calls interleaved. The goroutines that enter \<open>idle.go\<close> are the
  accept loop of \<open>http.Server\<close> (which reports StateNew of one connection after another),
  one goroutine per connection that reports its end, and one goroutine per fired timer.
  A step of the model is one atomic piece of such a goroutine: an atomic addition to the
  connection counter, one critical section of \<open>g.mu\<close>, or one \<open>c.Close()\<close>. Between two
  pieces any other goroutine may run.

  \<open>trySleep\<close> holds the mutex from its first read of the counter to its second, while the
  counter moves; \<open>mu_held\<close> says that some goroutine is there. A fired timer cannot be
  stopped any more, as in Go: the callback is a task that waits for the mutex.

  The world of the callbacks makes steps of its own: background steps at any time and
  steps made on behalf of a request, which need a connection that is being served.
\<close>

section \<open>The interleaved gate\<close>

datatype accept_pc = AcceptIdle | AcceptWake conn | AcceptInsert conn

datatype task =
    SchedSleep conn \<comment> \<open>a closing report that counted down to zero, before scheduleSleep\<close>
  | DeleteConn conn \<comment> \<open>a closing report before it deletes the connection from the map\<close>
  | RunTrySleep \<comment> \<open>a fired grace timer, before trySleep takes the mutex\<close>
  | RunTrySleepExit \<comment> \<open>trySleep after sleepFn, holding the mutex\<close>
  | RunEndSession \<comment> \<open>a fired session timer, before endSession takes the mutex\<close>
  | RunCloses "conn set" \<comment> \<open>endSession with these connections left to close\<close>
  | RunRearm \<comment> \<open>endSession before its second critical section\<close>

record 'w gsys = "'w gate" +
  opened :: "conn set" \<comment> \<open>counted in, not yet counted out\<close>
  served :: "conn set" \<comment> \<open>StateNew has returned, the end is not yet reported\<close>
  seen :: "conn set" \<comment> \<open>every connection ever accepted\<close>
  forced :: "conn set" \<comment> \<open>connections on which endSession called Close\<close>
  accepting :: accept_pc
  tasks :: "task multiset"
  mu_held :: bool

datatype 'e gact =
    Accept conn | AcceptLock | Report conn | DoSched conn | DoDelete conn
  | Fire timer_id | DoTrySleep | DoTrySleepExit | DoEndSession
  | DoClose conn "conn set" | DoRearm | Elapse duration
  | Background 'e | Request conn 'e

definition swap_task :: "task \<Rightarrow> task multiset \<Rightarrow> 'w gsys \<Rightarrow> 'w gsys" where
  "swap_task t ts s = s\<lparr>tasks := tasks s - {#t#} + ts\<rparr>"

fun gate_exec ::
  "('w \<Rightarrow> 'w) \<Rightarrow> ('w \<Rightarrow> 'w) \<Rightarrow> ('e \<Rightarrow> 'w \<Rightarrow> 'w option) \<Rightarrow> ('e \<Rightarrow> 'w \<Rightarrow> 'w option) \<Rightarrow>
   'e gact \<Rightarrow> 'w gsys \<Rightarrow> 'w gsys option" where
  "gate_exec wk sl bg req (Accept c) s =
     (if accepting s = AcceptIdle \<and> c \<notin> seen s
      then Some (s\<lparr>conns := conns s + 1, opened := insert c (opened s), seen := insert c (seen s),
                   accepting := (if conns s + 1 = 1 then AcceptWake c else AcceptInsert c)\<rparr>)
      else None)"
| "gate_exec wk sl bg req AcceptLock s =
     (if mu_held s then None
      else case accepting s of
        AcceptIdle \<Rightarrow> None
      | AcceptWake c \<Rightarrow> Some ((wake wk s)\<lparr>accepting := AcceptInsert c\<rparr>)
      | AcceptInsert c \<Rightarrow>
          Some (s\<lparr>liveConns := insert c (liveConns s), served := insert c (served s),
                  accepting := AcceptIdle\<rparr>))"
| "gate_exec wk sl bg req (Report c) s =
     (if c \<in> served s
      then Some (s\<lparr>conns := conns s - 1, opened := opened s - {c}, served := served s - {c},
                   tasks := add_mset (if conns s - 1 = 0 then SchedSleep c else DeleteConn c)
                              (tasks s)\<rparr>)
      else None)"
| "gate_exec wk sl bg req (DoSched c) s =
     (if SchedSleep c \<in># tasks s \<and> \<not> mu_held s
      then Some (swap_task (SchedSleep c) {#DeleteConn c#} (scheduleSleep s)) else None)"
| "gate_exec wk sl bg req (DoDelete c) s =
     (if DeleteConn c \<in># tasks s \<and> \<not> mu_held s
      then Some (swap_task (DeleteConn c) {#} (s\<lparr>liveConns := liveConns s - {c}\<rparr>)) else None)"
| "gate_exec wk sl bg req (Fire i) s =
     (case armed s i of
        None \<Rightarrow> None
      | Some (f, d) \<Rightarrow>
          (if d \<le> clock s
           then Some ((stopTimer i s)\<lparr>tasks :=
                  add_mset (case f of TrySleepFn \<Rightarrow> RunTrySleep | EndSessionFn \<Rightarrow> RunEndSession)
                    (tasks s)\<rparr>)
           else None))"
| "gate_exec wk sl bg req DoTrySleep s =
     (if RunTrySleep \<in># tasks s \<and> \<not> mu_held s
      then (if snd (trySleep_park sl s)
            then Some ((swap_task RunTrySleep {#RunTrySleepExit#} (fst (trySleep_park sl s)))
                         \<lparr>mu_held := True\<rparr>)
            else Some (swap_task RunTrySleep {#} (fst (trySleep_park sl s))))
      else None)"
| "gate_exec wk sl bg req DoTrySleepExit s =
     (if RunTrySleepExit \<in># tasks s
      then Some ((swap_task RunTrySleepExit {#} (trySleep_exit s))\<lparr>mu_held := False\<rparr>) else None)"
| "gate_exec wk sl bg req DoEndSession s =
     (if RunEndSession \<in># tasks s \<and> \<not> mu_held s
      then (let cs = fst (endSession_begin s) in
            Some (swap_task RunEndSession (if cs = {} then {#} else {#RunCloses cs#})
                    (snd (endSession_begin s))))
      else None)"
| "gate_exec wk sl bg req (DoClose c cs) s =
     (if RunCloses cs \<in># tasks s \<and> c \<in> cs
      then Some (swap_task (RunCloses cs)
                   (if cs - {c} = {} then {#RunRearm#} else {#RunCloses (cs - {c})#})
                   (s\<lparr>forced := insert c (forced s)\<rparr>))
      else None)"
| "gate_exec wk sl bg req DoRearm s =
     (if RunRearm \<in># tasks s \<and> \<not> mu_held s
      then Some (swap_task RunRearm {#} (endSession_end s)) else None)"
| "gate_exec wk sl bg req (Elapse d) s =
     (if 0 \<le> d then Some (s\<lparr>clock := clock s + d\<rparr>) else None)"
| "gate_exec wk sl bg req (Background e) s =
     map_option (\<lambda>w. s\<lparr>world := w\<rparr>) (bg e (world s))"
| "gate_exec wk sl bg req (Request c e) s =
     (if c \<in> served s then map_option (\<lambda>w. s\<lparr>world := w\<rparr>) (req e (world s)) else None)"

text \<open>
  The start: \<open>newIdleGate\<close>, \<open>ExitOnIdle\<close> when the environment asks for it, and
  \<open>BootSleep\<close>, before the server accepts.
\<close>

definition gate_boot ::
  "('w \<Rightarrow> 'w) \<Rightarrow> int \<Rightarrow> int \<Rightarrow> instant \<Rightarrow> 'w \<Rightarrow> bool \<Rightarrow> 'w gsys" where
  "gate_boot sleepFn procs gogc t w ex =
     (let g = newIdleGate procs gogc t w;
          g' = enterSleep sleepFn (if ex then ExitOnIdle g else g)
      in gate.extend g' (gsys.fields {} {} {} {} AcceptIdle {#} False))"

fun gate_run where
  "gate_run wk sl bg req [] s = Some s"
| "gate_run wk sl bg req (a # as) s =
     (if exited s then None
      else case gate_exec wk sl bg req a s of
        None \<Rightarrow> None | Some t \<Rightarrow> gate_run wk sl bg req as t)"

inductive gate_reach for wk sl bg req s0 where
  reach_start: "gate_reach wk sl bg req s0 s0"
| reach_step: "gate_reach wk sl bg req s0 s \<Longrightarrow> \<not> exited s \<Longrightarrow>
     gate_exec wk sl bg req a s = Some t \<Longrightarrow> gate_reach wk sl bg req s0 t"

lemma gate_run_reach:
  "gate_run wk sl bg req as s = Some t \<Longrightarrow> gate_reach wk sl bg req s0 s \<Longrightarrow>
     gate_reach wk sl bg req s0 t"
  by (induction as arbitrary: s) (auto split: if_splits option.splits intro: reach_step)

lemmas run_defs =
  gate_boot_def newIdleGate_def ExitOnIdle_def gate_defs gate.defs gsys.defs swap_task_def
  idleGrace_def maxSessionCap_def Let_def


section \<open>A visit, run through the model\<close>

text \<open>
  One connection comes and goes: the gate wakes, serves, lingers for its grace and parks,
  and exits when it runs under EXIT_ON_IDLE. The run serves the witnesses below.
\<close>

abbreviation still :: "unit \<Rightarrow> nat \<Rightarrow> nat option" where
  "still \<equiv> (\<lambda>_ _. None)"

abbreviation visit_reach :: "nat gsys \<Rightarrow> bool" where
  "visit_reach \<equiv> gate_reach Suc Suc still still (gate_boot Suc 4 100 0 0 True)"

definition visit :: "unit gact list" where
  "visit = [Accept 1, AcceptLock, AcceptLock]"

definition visit_end :: "unit gact list" where
  "visit_end = visit @ [Report 1, DoSched 1, DoDelete 1]"

definition visit_exit :: "unit gact list" where
  "visit_exit = visit_end @ [Elapse (3 * second), Fire 1, DoTrySleep, DoTrySleepExit]"

lemma visit_reachable:
  "\<exists>s. visit_reach s \<and> served s = {1} \<and> armed s 0 = Some (EndSessionFn, maxSessionCap) \<and> clock s = 0"
  "\<exists>s. visit_reach s \<and> opened s = {} \<and> tasks s = {#} \<and> \<not> sleeping s"
  "\<exists>s. visit_reach s \<and> exited s"
proof -
  let ?s0 = "gate_boot Suc 4 100 0 0 True :: nat gsys"
  have "\<exists>s. gate_run Suc Suc still still visit ?s0 = Some s \<and> served s = {1} \<and>
      armed s 0 = Some (EndSessionFn, maxSessionCap) \<and> clock s = 0"
    by (auto simp: visit_def run_defs)
  then show "\<exists>s. visit_reach s \<and> served s = {1} \<and>
      armed s 0 = Some (EndSessionFn, maxSessionCap) \<and> clock s = 0"
    using gate_run_reach [OF _ reach_start] by blast
  have "\<exists>s. gate_run Suc Suc still still visit_end ?s0 = Some s \<and> opened s = {} \<and>
      tasks s = {#} \<and> \<not> sleeping s"
    by (auto simp: visit_end_def visit_def run_defs)
  then show "\<exists>s. visit_reach s \<and> opened s = {} \<and> tasks s = {#} \<and> \<not> sleeping s"
    using gate_run_reach [OF _ reach_start] by blast
  have "\<exists>s. gate_run Suc Suc still still visit_exit ?s0 = Some s \<and> exited s"
    by (auto simp: visit_exit_def visit_end_def visit_def run_defs)
  then show "\<exists>s. visit_reach s \<and> exited s"
    using gate_run_reach [OF _ reach_start] by blast
qed

end
