(* ===== verification/GateSafety.thy ===== *)
theory GateSafety
  imports GateSteps
begin

text \<open>
  What no interleaving can break. Each invariant below has one lemma that every step
  keeps it; the properties at the end read them off the reachable states.
\<close>

section \<open>Frames\<close>

lemma gsys_frame [gate_simps]:
  "opened (wake f s) = opened s" "opened (scheduleSleep s) = opened s"
  "opened (fst (trySleep_park f s)) = opened s" "opened (trySleep_exit s) = opened s"
  "opened (endSession_end s) = opened s" "served (wake f s) = served s"
  "served (scheduleSleep s) = served s" "served (fst (trySleep_park f s)) = served s"
  "served (trySleep_exit s) = served s" "served (endSession_end s) = served s"
  "seen (wake f s) = seen s" "seen (scheduleSleep s) = seen s"
  "seen (fst (trySleep_park f s)) = seen s" "seen (trySleep_exit s) = seen s"
  "seen (endSession_end s) = seen s" "forced (wake f s) = forced s"
  "forced (scheduleSleep s) = forced s" "forced (fst (trySleep_park f s)) = forced s"
  "forced (trySleep_exit s) = forced s" "forced (endSession_end s) = forced s"
  "accepting (wake f s) = accepting s" "accepting (scheduleSleep s) = accepting s"
  "accepting (fst (trySleep_park f s)) = accepting s"
  "accepting (trySleep_exit s) = accepting s" "accepting (endSession_end s) = accepting s"
  "tasks (wake f s) = tasks s" "tasks (scheduleSleep s) = tasks s"
  "tasks (fst (trySleep_park f s)) = tasks s" "tasks (trySleep_exit s) = tasks s"
  "tasks (endSession_end s) = tasks s" "mu_held (wake f s) = mu_held s"
  "mu_held (scheduleSleep s) = mu_held s" "mu_held (fst (trySleep_park f s)) = mu_held s"
  "mu_held (trySleep_exit s) = mu_held s" "mu_held (endSession_end s) = mu_held s"
  by (auto simp: gate_defs Let_def split: option.splits)

lemma swap_task_simps [gate_simps]:
  "gate.truncate (swap_task t ts s) = gate.truncate s"
  "opened (swap_task t ts s) = opened s" "served (swap_task t ts s) = served s"
  "seen (swap_task t ts s) = seen s" "forced (swap_task t ts s) = forced s"
  "accepting (swap_task t ts s) = accepting s" "mu_held (swap_task t ts s) = mu_held s"
  "tasks (swap_task t ts s) = tasks s - {#t#} + ts"
  "conns (swap_task t ts s) = conns s" "liveConns (swap_task t ts s) = liveConns s"
  "sess (swap_task t ts s) = sess s" "maxSession (swap_task t ts s) = maxSession s"
  "sleeping (swap_task t ts s) = sleeping s" "timer (swap_task t ts s) = timer s"
  "grace (swap_task t ts s) = grace s" "exitOnIdle (swap_task t ts s) = exitOnIdle s"
  "clock (swap_task t ts s) = clock s" "armed (swap_task t ts s) = armed s"
  "next_timer (swap_task t ts s) = next_timer s" "world (swap_task t ts s) = world s"
  "exited (swap_task t ts s) = exited s"
  by (simp_all add: swap_task_def gate.defs)

lemma gate_exec_cases:
  assumes "gate_exec wk sl bg req a s = Some t"
  obtains
    (accept) c where "a = Accept c" "accepting s = AcceptIdle" "c \<notin> seen s"
      "t = s\<lparr>conns := conns s + 1, opened := insert c (opened s), seen := insert c (seen s),
             accepting := (if conns s + 1 = 1 then AcceptWake c else AcceptInsert c)\<rparr>"
  | (wake) c where "a = AcceptLock" "accepting s = AcceptWake c" "\<not> mu_held s"
      "t = (wake wk s)\<lparr>accepting := AcceptInsert c\<rparr>"
  | (insert) c where "a = AcceptLock" "accepting s = AcceptInsert c" "\<not> mu_held s"
      "t = s\<lparr>liveConns := insert c (liveConns s), served := insert c (served s),
             accepting := AcceptIdle\<rparr>"
  | (report) c where "a = Report c" "c \<in> served s"
      "t = s\<lparr>conns := conns s - 1, opened := opened s - {c}, served := served s - {c},
             tasks := add_mset (if conns s - 1 = 0 then SchedSleep c else DeleteConn c) (tasks s)\<rparr>"
  | (sched) c where "a = DoSched c" "SchedSleep c \<in># tasks s" "\<not> mu_held s"
      "t = swap_task (SchedSleep c) {#DeleteConn c#} (scheduleSleep s)"
  | (delete) c where "a = DoDelete c" "DeleteConn c \<in># tasks s" "\<not> mu_held s"
      "t = swap_task (DeleteConn c) {#} (s\<lparr>liveConns := liveConns s - {c}\<rparr>)"
  | (fire) i f d where "a = Fire i" "armed s i = Some (f, d)" "d \<le> clock s"
      "t = s\<lparr>armed := (armed s)(i := None), tasks :=
             add_mset (case f of TrySleepFn \<Rightarrow> RunTrySleep | EndSessionFn \<Rightarrow> RunEndSession) (tasks s)\<rparr>"
  | (park) "a = DoTrySleep" "RunTrySleep \<in># tasks s" "\<not> mu_held s" "\<not> sleeping s" "conns s = 0"
      "t = (swap_task RunTrySleep {#RunTrySleepExit#} (fst (trySleep_park sl s)))\<lparr>mu_held := True\<rparr>"
  | (nopark) "a = DoTrySleep" "RunTrySleep \<in># tasks s" "\<not> mu_held s" "sleeping s \<or> conns s \<noteq> 0"
      "t = swap_task RunTrySleep {#} (fst (trySleep_park sl s))"
  | (exit) "a = DoTrySleepExit" "RunTrySleepExit \<in># tasks s"
      "t = (swap_task RunTrySleepExit {#} (trySleep_exit s))\<lparr>mu_held := False\<rparr>"
  | (ends) "a = DoEndSession" "RunEndSession \<in># tasks s" "\<not> mu_held s"
      "t = swap_task RunEndSession (if liveConns s = {} then {#} else {#RunCloses (liveConns s)#})
             (s\<lparr>sess := None, liveConns := {}\<rparr>)"
  | (close) c cs where "a = DoClose c cs" "RunCloses cs \<in># tasks s" "c \<in> cs"
      "t = swap_task (RunCloses cs)
             (if cs - {c} = {} then {#RunRearm#} else {#RunCloses (cs - {c})#})
             (s\<lparr>forced := insert c (forced s)\<rparr>)"
  | (rearm) "a = DoRearm" "RunRearm \<in># tasks s" "\<not> mu_held s"
      "t = swap_task RunRearm {#} (endSession_end s)"
  | (elapse) d where "a = Elapse d" "0 \<le> d" "t = s\<lparr>clock := clock s + d\<rparr>"
  | (background) e w where "a = Background e" "bg e (world s) = Some w" "t = s\<lparr>world := w\<rparr>"
  | (request) c e w where "a = Request c e" "c \<in> served s" "req e (world s) = Some w"
      "t = s\<lparr>world := w\<rparr>"
proof (cases a)
  case (Accept c)
  show ?thesis
    by (rule accept [OF Accept]) (use assms Accept in \<open>simp_all split: if_splits\<close>)
next
  case AcceptLock
  show ?thesis
  proof (cases "accepting s")
    case AcceptIdle
    with assms AcceptLock show ?thesis by (simp split: if_splits)
  next
    case (AcceptWake c)
    show ?thesis
      by (rule wake [OF AcceptLock AcceptWake])
        (use assms AcceptLock AcceptWake in \<open>simp_all split: if_splits\<close>)
  next
    case (AcceptInsert c)
    show ?thesis
      by (rule insert [OF AcceptLock AcceptInsert])
        (use assms AcceptLock AcceptInsert in \<open>simp_all split: if_splits\<close>)
  qed
next
  case (Report c)
  show ?thesis
    by (rule report [OF Report]) (use assms Report in \<open>simp_all split: if_splits\<close>)
next
  case (DoSched c)
  show ?thesis
    by (rule sched [OF DoSched]) (use assms DoSched in \<open>simp_all split: if_splits\<close>)
next
  case (DoDelete c)
  show ?thesis
    by (rule delete [OF DoDelete]) (use assms DoDelete in \<open>simp_all split: if_splits\<close>)
next
  case (Fire i)
  with assms obtain f d where fd: "armed s i = Some (f, d)" "d \<le> clock s"
    by (auto split: option.splits if_splits)
  show ?thesis
    by (rule fire [OF Fire fd]) (use assms Fire fd in \<open>simp add: gate_simps\<close>)
next
  case DoTrySleep
  show ?thesis
  proof (cases "\<not> sleeping s \<and> conns s = 0")
    case True
    then show ?thesis
      by (intro park [OF DoTrySleep])
        (use assms DoTrySleep in \<open>simp_all add: gate_simps split: if_splits\<close>)
  next
    case False
    then show ?thesis
      by (intro nopark [OF DoTrySleep])
        (use assms DoTrySleep in \<open>auto simp: gate_simps split: if_splits\<close>)
  qed
next
  case DoTrySleepExit
  show ?thesis
    by (rule exit [OF DoTrySleepExit])
      (use assms DoTrySleepExit in \<open>simp_all split: if_splits\<close>)
next
  case DoEndSession
  show ?thesis
    by (rule ends [OF DoEndSession])
      (use assms DoEndSession in \<open>simp_all add: gate_simps Let_def split: if_splits\<close>)
next
  case (DoClose c cs)
  show ?thesis
    by (rule close [OF DoClose]) (use assms DoClose in \<open>simp_all split: if_splits\<close>)
next
  case DoRearm
  show ?thesis
    by (rule rearm [OF DoRearm]) (use assms DoRearm in \<open>simp_all split: if_splits\<close>)
next
  case (Elapse d)
  show ?thesis
    by (rule elapse [OF Elapse]) (use assms Elapse in \<open>simp_all split: if_splits\<close>)
next
  case (Background e)
  with assms obtain w where "bg e (world s) = Some w" "t = s\<lparr>world := w\<rparr>" by auto
  then show ?thesis by (rule background [OF Background])
next
  case (Request c e)
  with assms obtain w where "c \<in> served s" "req e (world s) = Some w" "t = s\<lparr>world := w\<rparr>"
    by (auto split: if_splits)
  then show ?thesis by (rule request [OF Request])
qed


section \<open>The counter and the accept loop\<close>

definition pending :: "accept_pc \<Rightarrow> conn set" where
  "pending pc = (case pc of AcceptIdle \<Rightarrow> {} | AcceptWake c \<Rightarrow> {c} | AcceptInsert c \<Rightarrow> {c})"

lemma pending_simps [simp]:
  "pending AcceptIdle = {}" "pending (AcceptWake c) = {c}" "pending (AcceptInsert c) = {c}"
  by (simp_all add: pending_def)

definition count_inv :: "'w gsys \<Rightarrow> bool" where
  "count_inv s \<longleftrightarrow> finite (opened s) \<and> conns s = int (card (opened s)) \<and>
     opened s = served s \<union> pending (accepting s) \<and> served s \<inter> pending (accepting s) = {} \<and>
     opened s \<subseteq> seen s"

lemma count_inv_zero: "count_inv s \<Longrightarrow> conns s = 0 \<longleftrightarrow> opened s = {}"
  unfolding count_inv_def by (metis card_zero_empty)

lemma count_step: "gate_exec wk sl bg req a s = Some t \<Longrightarrow> count_inv s \<Longrightarrow> count_inv t"
proof (erule gate_exec_cases)
  fix c assume c: "c \<in> served s" and inv: "count_inv s"
    and t: "t = s\<lparr>conns := conns s - 1, opened := opened s - {c}, served := served s - {c},
             tasks := add_mset (if conns s - 1 = 0 then SchedSleep c else DeleteConn c) (tasks s)\<rparr>"
  have "int (card (opened s - {c})) = int (card (opened s)) - 1"
    by (rule card_remove_member) (use c inv in \<open>auto simp: count_inv_def\<close>)
  then show "count_inv t" using c inv unfolding t by (auto simp: count_inv_def)
next
  fix c assume c: "c \<notin> seen s" and inv: "count_inv s" and idle: "accepting s = AcceptIdle"
    and t: "t = s\<lparr>conns := conns s + 1, opened := insert c (opened s), seen := insert c (seen s),
             accepting := (if conns s + 1 = 1 then AcceptWake c else AcceptInsert c)\<rparr>"
  have "int (card (insert c (opened s))) = int (card (opened s)) + 1"
    by (rule card_insert_fresh) (use c inv in \<open>auto simp: count_inv_def\<close>)
  then show "count_inv t" using c inv idle unfolding t by (auto simp: count_inv_def)
qed (auto simp: count_inv_def gate_simps)

section \<open>Sleep, the mutex and live connections\<close>

definition sleep_inv :: "'w gsys \<Rightarrow> bool" where
  "sleep_inv s \<longleftrightarrow>
     (sleeping s \<longrightarrow> served s = {} \<and> (\<forall>c. accepting s \<noteq> AcceptInsert c)) \<and>
     (mu_held s \<longrightarrow> sleeping s)"

lemma sleep_step:
  "gate_exec wk sl bg req a s = Some t \<Longrightarrow> count_inv s \<Longrightarrow> sleep_inv s \<Longrightarrow> sleep_inv t"
  by (erule gate_exec_cases) (auto simp: sleep_inv_def count_inv_def gate_simps)

section \<open>Timers\<close>

definition limit_of :: "timer_fn \<Rightarrow> duration" where
  "limit_of f = (case f of TrySleepFn \<Rightarrow> idleGrace | EndSessionFn \<Rightarrow> maxSessionCap)"

lemma limit_of_simps [simp]:
  "limit_of TrySleepFn = idleGrace" "limit_of EndSessionFn = maxSessionCap" "0 \<le> limit_of f"
  by (simp_all add: limit_of_def split: timer_fn.split)

definition timer_inv :: "'w gsys \<Rightarrow> bool" where
  "timer_inv s \<longleftrightarrow> grace s = idleGrace \<and> maxSession s = maxSessionCap \<and>
     (\<forall>i f d. armed s i = Some (f, d) \<longrightarrow> i < next_timer s \<and> d \<le> clock s + limit_of f) \<and>
     (\<forall>i. timer s = Some i \<longrightarrow> i < next_timer s \<and> (\<forall>d. armed s i \<noteq> Some (EndSessionFn, d))) \<and>
     (\<forall>i. sess s = Some i \<longrightarrow> i < next_timer s \<and> (\<forall>d. armed s i \<noteq> Some (TrySleepFn, d))) \<and>
     (\<forall>i. timer s = Some i \<longrightarrow> armed s i \<noteq> None \<or> RunTrySleep \<in># tasks s)"

lemma timer_step: "gate_exec wk sl bg req a s = Some t \<Longrightarrow> timer_inv s \<Longrightarrow> timer_inv t"
  by (erule gate_exec_cases)
    (auto simp: timer_inv_def gate_simps without_opt_def in_diff_count less_Suc_eq
      intro: later_bound split: option.splits timer_fn.splits)

section \<open>The way back to sleep\<close>

definition park_inv :: "'w gsys \<Rightarrow> bool" where
  "park_inv s \<longleftrightarrow> (opened s = {} \<longrightarrow> \<not> sleeping s \<longrightarrow>
     timer s \<noteq> None \<or> RunTrySleep \<in># tasks s \<or> (\<exists>c. SchedSleep c \<in># tasks s))"

lemma park_step:
  "gate_exec wk sl bg req a s = Some t \<Longrightarrow> count_inv s \<Longrightarrow> timer_inv s \<Longrightarrow> park_inv s \<Longrightarrow>
     park_inv t"
proof (erule gate_exec_cases)
  fix c assume inv: "count_inv s" and c: "c \<in> served s"
    and t: "t = s\<lparr>conns := conns s - 1, opened := opened s - {c}, served := served s - {c},
             tasks := add_mset (if conns s - 1 = 0 then SchedSleep c else DeleteConn c) (tasks s)\<rparr>"
  show "park_inv t"
  proof (cases "opened s = {c}")
    case True
    with inv show ?thesis unfolding t by (auto simp: park_inv_def count_inv_def)
  next
    case False
    with inv c show ?thesis unfolding t by (auto simp: park_inv_def count_inv_def)
  qed
qed (auto simp: park_inv_def count_inv_def timer_inv_def gate_simps in_diff_count
      split: timer_fn.splits)

section \<open>Before the first connection, and after the exit\<close>

definition boot_inv :: "'w gsys \<Rightarrow> bool" where
  "boot_inv s \<longleftrightarrow>
     (seen s = {} \<longrightarrow> tasks s = {#} \<and> armed s = Map.empty \<and> accepting s = AcceptIdle \<and>
                     sleeping s \<and> \<not> mu_held s \<and> timer s = None \<and> sess s = None) \<and>
     count (tasks s) RunTrySleepExit = (if mu_held s then 1 else 0)"

definition exit_inv :: "'w gsys \<Rightarrow> bool" where
  "exit_inv s \<longleftrightarrow> (exited s \<longrightarrow> seen s \<noteq> {} \<and> opened s = {} \<and> sleeping s \<and> exitOnIdle s)"

lemma boot_step:
  "gate_exec wk sl bg req a s = Some t \<Longrightarrow> count_inv s \<Longrightarrow> boot_inv s \<Longrightarrow> boot_inv t"
  by (erule gate_exec_cases)
    (auto simp: boot_inv_def count_inv_def gate_simps in_diff_count split: if_splits timer_fn.splits)

lemma boot_inv_exit_held: "boot_inv s \<Longrightarrow> RunTrySleepExit \<in># tasks s \<Longrightarrow> mu_held s"
  unfolding boot_inv_def by (metis not_in_iff)

lemma exit_step:
  "gate_exec wk sl bg req a s = Some t \<Longrightarrow> count_inv s \<Longrightarrow> sleep_inv s \<Longrightarrow> boot_inv s \<Longrightarrow>
     \<not> exited s \<Longrightarrow> exit_inv t"
  by (erule gate_exec_cases)
    (auto simp: exit_inv_def sleep_inv_def boot_inv_def count_inv_zero gate_simps
      simp flip: count_greater_zero_iff split: if_splits)

section \<open>Reachable states\<close>

definition gate_inv :: "'w gsys \<Rightarrow> bool" where
  "gate_inv s \<longleftrightarrow> count_inv s \<and> sleep_inv s \<and> timer_inv s \<and> park_inv s \<and> boot_inv s \<and> exit_inv s"

lemma gate_boot_inv: "gate_inv (gate_boot sl procs gogc t w ex)"
  by (simp add: gate_inv_def count_inv_def sleep_inv_def timer_inv_def park_inv_def boot_inv_def
      exit_inv_def gate_boot_def newIdleGate_def ExitOnIdle_def enterSleep_def cancelSess_def
      cancelTimer_def gate.defs gsys.defs Let_def)

lemma gate_step_inv:
  "gate_exec wk sl bg req a s = Some t \<Longrightarrow> \<not> exited s \<Longrightarrow> gate_inv s \<Longrightarrow> gate_inv t"
  unfolding gate_inv_def
  by (blast intro: count_step sleep_step timer_step park_step boot_step exit_step)

lemma gate_reach_inv:
  "gate_reach wk sl bg req (gate_boot sl procs gogc t w ex) s \<Longrightarrow> gate_inv s"
  by (induction rule: gate_reach.induct) (auto intro: gate_boot_inv gate_step_inv)


section \<open>What holds in every interleaving\<close>

text \<open>
  Property C4: a connection whose StateNew call has returned and whose end is not yet
  reported is never served by a sleeping process, however the accept loop, the closing
  reports and the timer callbacks interleave. In particular a connection accepted while
  trySleep runs is not lost: once its StateNew call returns the gate is awake.
\<close>

theorem served_connection_awake:
  assumes "gate_reach wk sl bg req (gate_boot sl procs gogc t w ex) s" and "c \<in> served s"
  shows "\<not> sleeping s \<and> \<not> mu_held s \<and> \<not> exited s"
  using gate_reach_inv [OF assms(1)] assms(2)
  by (auto simp: gate_inv_def sleep_inv_def exit_inv_def)

theorem served_connection_awake_witness:
  "\<exists>s. visit_reach s \<and> 1 \<in> served s \<and> \<not> sleeping s \<and> \<not> mu_held s \<and> \<not> exited s"
proof -
  obtain s where s: "visit_reach s" "served s = {1}" using visit_reachable(1) by blast
  then have "1 \<in> served s" by simp
  with s(1) show ?thesis using served_connection_awake [OF s(1)] by blast
qed

text \<open>
  Property C9: the process exits only when the environment asked for it, only out of deep
  sleep, only when no accepted connection is left that has not reported its end, and
  never before a first connection has been accepted: the park at boot is not terminal.
\<close>

theorem exit_only_when_idle:
  assumes "gate_reach wk sl bg req (gate_boot sl procs gogc t w ex) s" and "exited s"
  shows "exitOnIdle s \<and> sleeping s \<and> conns s = 0 \<and> opened s = {} \<and> seen s \<noteq> {}"
  using gate_reach_inv [OF assms(1)] assms(2)
  by (auto simp: gate_inv_def exit_inv_def count_inv_zero)

theorem exit_only_when_idle_witness:
  "\<exists>s. visit_reach s \<and> exited s \<and> exitOnIdle s \<and> sleeping s \<and> conns s = 0 \<and>
       opened s = {} \<and> seen s \<noteq> {}"
proof -
  obtain s where "visit_reach s" "exited s" using visit_reachable(3) by blast
  then show ?thesis using exit_only_when_idle [of Suc Suc still still 4 100 0 0 True s] by blast
qed

text \<open>
  Property C18: the process always finds its way back to sleep. When no connection is open
  and no goroutine is left inside the gate, the gate is asleep or its grace timer is armed
  and due within three seconds.
\<close>

theorem idle_gate_parks:
  assumes "gate_reach wk sl bg req (gate_boot sl procs gogc t w ex) s"
    and "opened s = {}" and "tasks s = {#}"
  shows "sleeping s \<or>
    (\<exists>i d. timer s = Some i \<and> armed s i = Some (TrySleepFn, d) \<and> d \<le> clock s + 3 * second)"
proof (rule disjCI)
  assume awake: "\<not> (\<exists>i d. timer s = Some i \<and> armed s i = Some (TrySleepFn, d) \<and>
      d \<le> clock s + 3 * second)"
  from gate_reach_inv [OF assms(1)] have inv: "park_inv s" "timer_inv s"
    by (auto simp: gate_inv_def)
  show "sleeping s"
  proof (rule ccontr)
    assume "\<not> sleeping s"
    with inv(1) assms(2,3) obtain i where i: "timer s = Some i" by (auto simp: park_inv_def)
    with inv(2) assms(3) obtain f d where d: "armed s i = Some (f, d)"
      by (fastforce simp: timer_inv_def)
    with inv(2) i have "f = TrySleepFn" by (cases f) (auto simp: timer_inv_def)
    with inv(2) d have "d \<le> clock s + 3 * second"
      by (auto simp: timer_inv_def idleGrace_def dest!: spec [of _ i] spec [of _ d])
    with awake i d \<open>f = TrySleepFn\<close> show False by blast
  qed
qed

theorem idle_gate_parks_witness:
  "\<exists>s. visit_reach s \<and> opened s = {} \<and> \<not> sleeping s \<and>
     (\<exists>i d. timer s = Some i \<and> armed s i = Some (TrySleepFn, d) \<and> d \<le> clock s + 3 * second)"
proof -
  obtain s where s: "visit_reach s" "opened s = {}" "tasks s = {#}" "\<not> sleeping s"
    using visit_reachable(2) by blast
  then show ?thesis using idle_gate_parks [OF s(1,2,3)] by blast
qed

text \<open>
  Every timer the gate has armed is bounded: a session timer by the four
  minutes of the cap, a grace timer by three seconds.
\<close>

theorem armed_timers_bounded:
  assumes "gate_reach wk sl bg req (gate_boot sl procs gogc t w ex) s"
    and "armed s i = Some (f, d)"
  shows "d \<le> clock s + (case f of TrySleepFn \<Rightarrow> 3 * second | EndSessionFn \<Rightarrow> 4 * 60 * second)"
proof -
  have "d \<le> clock s + limit_of f"
    using gate_reach_inv [OF assms(1)] assms(2) by (auto simp: gate_inv_def timer_inv_def)
  then show ?thesis by (cases f) (simp_all add: idleGrace_def maxSessionCap_def)
qed

theorem armed_timers_bounded_witness:
  "\<exists>s. visit_reach s \<and> armed s 0 = Some (EndSessionFn, maxSessionCap) \<and>
       maxSessionCap \<le> clock s + 4 * 60 * second"
proof -
  obtain s where s: "visit_reach s" "armed s 0 = Some (EndSessionFn, maxSessionCap)"
    using visit_reachable(1) by blast
  then show ?thesis using armed_timers_bounded [OF s] by auto
qed

end
