(* ===== verification/GateHooks.thy ===== *)
theory GateHooks
  imports GateSafety
begin

text \<open>
  The interface between the idle gate and the callbacks \<open>wakeFn\<close> and \<open>sleepFn\<close> that
  \<open>init\<close> plugs into it: what the gate promises its callbacks (they are called
  alternately, sleepFn first, and requests run only between wakeFn and sleepFn) and what
  the callbacks promise the gate. The provider of the interface is the refresher with the
  runtime profile (theory \<open>Session\<close>); a first interpretation on a log of the calls gives
  the order of the calls themselves.

  The last section shows two interleavings in which the gate loses its session cap.
\<close>

locale session_hooks =
  fixes wakeFn sleepFn :: "'w \<Rightarrow> 'w"
    and bg req :: "'e \<Rightarrow> 'w \<Rightarrow> 'w option"
    and fresh on off :: "'w \<Rightarrow> bool"
  assumes boot_off: "fresh w \<Longrightarrow> off (sleepFn w)"
    and wake_on: "off w \<Longrightarrow> on (wakeFn w)"
    and sleep_off: "on w \<Longrightarrow> off (sleepFn w)"
    and background_on: "on w \<Longrightarrow> bg e w = Some w' \<Longrightarrow> on w'"
    and background_off: "off w \<Longrightarrow> bg e w = Some w' \<Longrightarrow> off w'"
    and request_on: "on w \<Longrightarrow> req e w = Some w' \<Longrightarrow> on w'"
begin

definition in_step :: "'w gsys \<Rightarrow> bool" where
  "in_step s \<longleftrightarrow> (if sleeping s then off (world s) else on (world s))"

lemma in_step_exec:
  "gate_exec wakeFn sleepFn bg req a s = Some t \<Longrightarrow> sleep_inv s \<Longrightarrow> in_step s \<Longrightarrow> in_step t"
  by (erule gate_exec_cases)
    (auto simp: in_step_def gate_simps sleep_inv_def
      intro: wake_on sleep_off background_on background_off request_on split: if_splits)

lemma in_step_reach:
  assumes "gate_reach wakeFn sleepFn bg req (gate_boot sleepFn procs gogc t w ex) s"
    and fresh: "fresh w"
  shows "in_step s"
  using assms(1)
proof (induction rule: gate_reach.induct)
  case reach_start
  show ?case using boot_off [OF fresh]
    by (simp add: in_step_def gate_boot_def newIdleGate_def ExitOnIdle_def enterSleep_def
        cancelSess_def cancelTimer_def gate.defs gsys.defs Let_def)
next
  case (reach_step s a t)
  then show ?case
    using gate_reach_inv [OF reach_step.hyps(1)] by (auto simp: gate_inv_def intro: in_step_exec)
qed

lemma asleep_off:
  "gate_reach wakeFn sleepFn bg req (gate_boot sleepFn procs gogc t w ex) s \<Longrightarrow> fresh w \<Longrightarrow>
     sleeping s \<Longrightarrow> off (world s)"
  using in_step_reach by (fastforce simp: in_step_def)

lemma awake_on:
  "gate_reach wakeFn sleepFn bg req (gate_boot sleepFn procs gogc t w ex) s \<Longrightarrow> fresh w \<Longrightarrow>
     \<not> sleeping s \<Longrightarrow> on (world s)"
  using in_step_reach by (fastforce simp: in_step_def)

lemma served_on:
  "gate_reach wakeFn sleepFn bg req (gate_boot sleepFn procs gogc t w ex) s \<Longrightarrow> fresh w \<Longrightarrow>
     c \<in> served s \<Longrightarrow> on (world s)"
  using awake_on gate_reach_inv by (fastforce simp: gate_inv_def sleep_inv_def)

end

text \<open>
  Callbacks whose world rests until the first wakeFn: the world stays still as long as no
  connection has ever been accepted.
\<close>

locale quiet_hooks = session_hooks wakeFn sleepFn bg req fresh on off
  for wakeFn sleepFn :: "'w \<Rightarrow> 'w" and bg req :: "'e \<Rightarrow> 'w \<Rightarrow> 'w option"
    and fresh on off :: "'w \<Rightarrow> bool" +
  fixes still_w :: "'w \<Rightarrow> bool"
  assumes still_boot: "fresh w \<Longrightarrow> still_w (sleepFn w)"
    and still_background: "still_w w \<Longrightarrow> bg e w = Some w' \<Longrightarrow> still_w w'"
begin

definition dormant :: "'w gsys \<Rightarrow> bool" where
  "dormant s \<longleftrightarrow> sleeping s \<and> still_w (world s) \<and> accepting s = AcceptIdle \<and> served s = {} \<and>
     tasks s = {#} \<and> armed s = Map.empty"

lemma dormant_exec:
  "gate_exec wakeFn sleepFn bg req a s = Some t \<Longrightarrow> seen t = {} \<Longrightarrow> dormant s \<Longrightarrow> dormant t"
  by (erule gate_exec_cases) (auto simp: dormant_def intro: still_background)

lemma seen_exec: "gate_exec wakeFn sleepFn bg req a s = Some t \<Longrightarrow> seen t = {} \<Longrightarrow> seen s = {}"
  by (erule gate_exec_cases) (auto simp: gate_simps)

lemma unseen_still:
  assumes "gate_reach wakeFn sleepFn bg req (gate_boot sleepFn procs gogc t w ex) s"
    and fresh: "fresh w"
  shows "seen s = {} \<Longrightarrow> sleeping s \<and> still_w (world s)"
proof -
  have "seen s = {} \<longrightarrow> dormant s" using assms(1)
  proof (induction rule: gate_reach.induct)
    case reach_start
    show ?case using still_boot [OF fresh]
      by (simp add: dormant_def gate_boot_def newIdleGate_def ExitOnIdle_def enterSleep_def
          cancelSess_def cancelTimer_def gate.defs gsys.defs Let_def)
  next
    case (reach_step s a t)
    then show ?case using dormant_exec seen_exec by blast
  qed
  then show "seen s = {} \<Longrightarrow> sleeping s \<and> still_w (world s)" by (simp add: dormant_def)
qed

end

section \<open>The order of the calls\<close>

datatype hook = Wake | Sleep

fun alternating :: "hook list \<Rightarrow> bool" where
  "alternating [] = True"
| "alternating [h] = True"
| "alternating (h # k # hs) = (h \<noteq> k \<and> alternating (k # hs))"

text \<open>The log keeps the latest call first.\<close>

definition log_on :: "hook list \<Rightarrow> bool" where
  "log_on w \<longleftrightarrow> w \<noteq> [] \<and> hd w = Wake \<and> last w = Sleep \<and> alternating w"

definition log_off :: "hook list \<Rightarrow> bool" where
  "log_off w \<longleftrightarrow> w \<noteq> [] \<and> hd w = Sleep \<and> last w = Sleep \<and> alternating w"

interpretation calls: session_hooks "(#) Wake" "(#) Sleep" "\<lambda>_ _. None" "\<lambda>_ _. None"
  "\<lambda>w. w = []" log_on log_off
  by unfold_locales (auto simp: log_on_def log_off_def neq_Nil_conv)

text \<open>
  Property C19: in every interleaving the callbacks are called alternately, beginning with
  the sleepFn of the park at boot, and the last call is sleepFn exactly when the gate
  sleeps. So wakeFn never runs twice in a row, and no park is repeated.
\<close>

theorem callbacks_alternate:
  assumes "gate_reach ((#) Wake) ((#) Sleep) (\<lambda>_ _. None) (\<lambda>_ _. None)
     (gate_boot ((#) Sleep) procs gogc t [] ex) s"
  shows "alternating (world s) \<and> last (world s) = Sleep \<and>
    hd (world s) = (if sleeping s then Sleep else Wake)"
  using calls.asleep_off [OF assms] calls.awake_on [OF assms]
  by (auto simp: log_on_def log_off_def)

theorem callbacks_alternate_witness:
  "\<exists>s. gate_reach ((#) Wake) ((#) Sleep) (\<lambda>(_ :: unit) _. None) (\<lambda>_ _. None)
         (gate_boot ((#) Sleep) 4 100 0 [] True) s \<and>
       alternating (world s) \<and> world s \<noteq> [] \<and> hd (world s) = (if sleeping s then Sleep else Wake)"
proof -
  let ?s = "gate_boot ((#) Sleep) 4 100 0 [] True :: hook list gsys"
  have r: "gate_reach ((#) Wake) ((#) Sleep) (\<lambda>(_ :: unit) _. None) (\<lambda>_ _. None) ?s ?s"
    by (rule reach_start)
  moreover have "world ?s \<noteq> []" by (simp add: run_defs)
  ultimately show ?thesis using callbacks_alternate [OF r] by blast
qed

section \<open>Two ways to lose the session cap\<close>

definition late_grace :: "nat \<Rightarrow> 'e gact list" where
  "late_grace n =
     [Accept 1, AcceptLock, AcceptLock, Report 1, Accept 2, AcceptLock, AcceptLock,
      DoSched 1, DoDelete 1, Elapse (3 * second), Fire 1, DoTrySleep, Elapse (int n)]"

text \<open>
  Property C8: the cap of four minutes can be lost. Connection 1 ends and counts down to
  zero; before its report reaches scheduleSleep, connection 2 is accepted and its wake
  passes. scheduleSleep then arms the grace timer beside a live connection, and when it
  fires trySleep stops the session timer before it looks at the counter. Connection 2 is
  then served for any length of time with no timer armed and no goroutine pending that
  could arm one: the gate is awake and uncapped, which armSessionLocked's comment rules out.
\<close>

theorem session_cap_lost:
  "\<exists>s. gate_reach wk sl bg req (gate_boot sl procs gogc t w ex) s \<and>
     served s = {2} \<and> liveConns s = {2} \<and> \<not> sleeping s \<and> sess s = None \<and> timer s = None \<and>
     armed s = Map.empty \<and> tasks s = {#} \<and> accepting s = AcceptIdle \<and>
     clock s = t + 3 * second + int n"
proof -
  have "\<exists>s. gate_run wk sl bg req (late_grace n) (gate_boot sl procs gogc t w ex) = Some s \<and>
     served s = {2} \<and> liveConns s = {2} \<and> \<not> sleeping s \<and> sess s = None \<and> timer s = None \<and>
     armed s = Map.empty \<and> tasks s = {#} \<and> accepting s = AcceptIdle \<and>
     clock s = t + 3 * second + int n"
    by (auto simp: late_grace_def run_defs)
  then show ?thesis using gate_run_reach [OF _ reach_start] by blast
qed

definition missed_accept :: "nat \<Rightarrow> 'e gact list" where
  "missed_accept n =
     [Accept 1, AcceptLock, AcceptLock, Accept 2, Report 1, DoDelete 1, Elapse (240 * second),
      Fire 0, DoEndSession, AcceptLock, Elapse (int n)]"

text \<open>
  Property C17: the cap is lost a second way, by endSession's early return. Connection 2 is
  counted but not yet in the map when the only other connection leaves it and the session
  timer fires: endSession forgets its timer, finds no live connection and returns without
  opening a new window. Connection 2 is then recorded and served with no cap.
\<close>

theorem session_end_misses_accept:
  "\<exists>s. gate_reach wk sl bg req (gate_boot sl procs gogc t w ex) s \<and>
     served s = {2} \<and> liveConns s = {2} \<and> \<not> sleeping s \<and> sess s = None \<and> timer s = None \<and>
     armed s = Map.empty \<and> tasks s = {#} \<and> accepting s = AcceptIdle \<and>
     clock s = t + 240 * second + int n"
proof -
  have "\<exists>s. gate_run wk sl bg req (missed_accept n) (gate_boot sl procs gogc t w ex) = Some s \<and>
     served s = {2} \<and> liveConns s = {2} \<and> \<not> sleeping s \<and> sess s = None \<and> timer s = None \<and>
     armed s = Map.empty \<and> tasks s = {#} \<and> accepting s = AcceptIdle \<and>
     clock s = t + 240 * second + int n"
    by (auto simp: missed_accept_def run_defs)
  then show ?thesis using gate_run_reach [OF _ reach_start] by blast
qed

end
