(* ===== verification/GoJson.thy ===== *)
theory GoJson
  imports GoConv
begin

text \<open>
  The encoder of \<open>encoding/json\<close> on the values zdash marshals: null, Booleans, integers,
  other numbers by their text, strings, arrays and objects with a fixed order of members (struct fields, or map keys
  already sorted). Strings are escaped as \<open>json.Marshal\<close> does by default: control
  characters, the quotation mark, the backslash, the three HTML characters, the two Unicode
  line separators; a byte that does not start a valid UTF-8 sequence becomes the escape of
  the replacement character.
\<close>

section \<open>UTF-8\<close>

definition cont_in :: "nat \<Rightarrow> nat \<Rightarrow> char \<Rightarrow> bool" where
  "cont_in lo hi c \<longleftrightarrow> lo \<le> of_char c \<and> of_char c \<le> hi"

text \<open>The length of the valid UTF-8 sequence a string starts with, 0 if there is none.\<close>

fun rune_len :: "string \<Rightarrow> nat" where
  "rune_len [] = 0"
| "rune_len (c # cs) =
     (let b = of_char c :: nat; ok = cont_in 0x80 0xBF in
      if b < 0x80 then 1
      else case cs of
        [] \<Rightarrow> 0
      | d # ds \<Rightarrow>
          (if 0xC2 \<le> b \<and> b \<le> 0xDF then (if ok d then 2 else 0)
           else case ds of
             [] \<Rightarrow> 0
           | e # es \<Rightarrow>
               (if b = 0xE0 then (if cont_in 0xA0 0xBF d \<and> ok e then 3 else 0)
                else if b = 0xED then (if cont_in 0x80 0x9F d \<and> ok e then 3 else 0)
                else if 0xE1 \<le> b \<and> b \<le> 0xEF then (if ok d \<and> ok e then 3 else 0)
                else case es of
                  [] \<Rightarrow> 0
                | f # _ \<Rightarrow>
                    (if b = 0xF0 then (if cont_in 0x90 0xBF d \<and> ok e \<and> ok f then 4 else 0)
                     else if 0xF1 \<le> b \<and> b \<le> 0xF3 then (if ok d \<and> ok e \<and> ok f then 4 else 0)
                     else if b = 0xF4 then (if cont_in 0x80 0x8F d \<and> ok e \<and> ok f then 4 else 0)
                     else 0))))"

section \<open>Strings\<close>

definition hex_char :: "nat \<Rightarrow> char" where
  "hex_char d = (if d < 10 then char_of (48 + d) else char_of (87 + d))"

definition backslash :: char where
  "backslash = CHR 0x5C"

definition quote :: char where
  "quote = CHR 0x22"

definition unicode_escape :: "nat \<Rightarrow> string" where
  "unicode_escape b =
     backslash # ''u00'' @ [hex_char (b div 16), hex_char (b mod 16)]"

definition escape_ascii :: "char \<Rightarrow> string" where
  "escape_ascii c =
     (let b = of_char c :: nat in
      if c = quote \<or> c = backslash then [backslash, c]
      else if b = 8 then [backslash, CHR ''b'']
      else if b = 12 then [backslash, CHR ''f'']
      else if b = 10 then [backslash, CHR ''n'']
      else if b = 13 then [backslash, CHR ''r'']
      else if b = 9 then [backslash, CHR ''t'']
      else if b < 32 \<or> c = CHR ''<'' \<or> c = CHR ''>'' \<or> c = CHR ''&'' then unicode_escape b
      else [c])"

function escape :: "string \<Rightarrow> string" where
  "escape [] = []"
| "escape (c # cs) =
     (let n = rune_len (c # cs) in
      if n = 0 then backslash # ''ufffd'' @ escape cs
      else if n = 1 then escape_ascii c @ escape cs
      else if take n (c # cs) = [CHR 0xE2, CHR 0x80, CHR 0xA8]
        then backslash # ''u2028'' @ escape (drop n (c # cs))
      else if take n (c # cs) = [CHR 0xE2, CHR 0x80, CHR 0xA9]
        then backslash # ''u2029'' @ escape (drop n (c # cs))
      else take n (c # cs) @ escape (drop n (c # cs)))"
  by pat_completeness auto
termination
  by (relation "measure length") auto

declare escape.simps [simp del]

definition json_string :: "string \<Rightarrow> string" where
  "json_string s = [quote] @ escape s @ [quote]"

section \<open>Values\<close>

datatype json =
    JNull
  | JBool bool
  | JInt int
  | JNum string \<comment> \<open>a number by its text\<close>
  | JStr string
  | JArr "json list"
  | JObj "(string \<times> json) list"

fun encode :: "json \<Rightarrow> string"
  and encode_elems :: "json list \<Rightarrow> string list"
  and encode_members :: "(string \<times> json) list \<Rightarrow> string list" where
  "encode JNull = ''null''"
| "encode (JBool b) = (if b then ''true'' else ''false'')"
| "encode (JInt i) = Itoa i"
| "encode (JNum l) = l"
| "encode (JStr s) = json_string s"
| "encode (JArr xs) = ''['' @ Join (encode_elems xs) '','' @ '']''"
| "encode (JObj ms) = ''{'' @ Join (encode_members ms) '','' @ ''}''"
| "encode_elems [] = []"
| "encode_elems (x # xs) = encode x # encode_elems xs"
| "encode_members [] = []"
| "encode_members ((k, v) # ms) = (json_string k @ '':'' @ encode v) # encode_members ms"

definition json_uint :: "64 word \<Rightarrow> json" where
  "json_uint w = JInt (uint w)"

text \<open>\<open>omitempty\<close>: a member that is left out when its value is empty.\<close>

definition omit :: "bool \<Rightarrow> string \<Rightarrow> json \<Rightarrow> (string \<times> json) list" where
  "omit none k v = (if none then [] else [(k, v)])"

text \<open>A slice that may be nil, where the code marshals both: nil is written as null.\<close>

definition json_slice :: "('a \<Rightarrow> json) \<Rightarrow> 'a list option \<Rightarrow> json" where
  "json_slice f m = (case m of None \<Rightarrow> JNull | Some xs \<Rightarrow> JArr (map f xs))"

section \<open>Facts\<close>

definition plain_char :: "char \<Rightarrow> bool" where
  "plain_char c \<longleftrightarrow> 32 \<le> (of_char c :: nat) \<and> (of_char c :: nat) < 128 \<and>
     c \<notin> {quote, backslash, CHR ''<'', CHR ''>'', CHR ''&''}"

lemma escape_plain_char:
  "plain_char c \<Longrightarrow> escape (c # s) = c # escape s"
  by (subst escape.simps) (auto simp: plain_char_def escape_ascii_def Let_def)

lemma escape_plain: "\<forall>c \<in> set s. plain_char c \<Longrightarrow> escape s = s"
  by (induction s) (simp_all add: escape.simps(1) escape_plain_char)

end
