(* ===== verification/Refresher.thy ===== *)
theory Refresher
  imports GoJson
begin

text \<open>
  The session-scoped cache of \<open>refresher.go\<close>: the records \<open>refreshEntry\<close>, \<open>fetchCall\<close>
  and \<open>refresher\<close>, and one definition per critical section of \<open>r.mu\<close>. A producer is a
  function of the instant at which it reads the host; which instant that is, and what
  other goroutines do meanwhile, is left to theory \<open>RefresherSteps\<close>.

  Pointers and channels are numbers: a \<open>fetchCall\<close> lives in the store \<open>calls\<close>, a stop
  channel is open until its number is in \<open>chan_closed\<close>. The generation is a \<open>uint64\<close>.
\<close>

section \<open>Constants and data\<close>

definition zpoolTTL :: duration where "zpoolTTL = 6 * second"
definition arcTTL :: duration where "arcTTL = 6 * second"
definition sysinfoTTL :: duration where "sysinfoTTL = 6 * second"
definition smartTTL :: duration where "smartTTL = 60 * second"
definition refreshTick :: duration where "refreshTick = 5 * second"

type_synonym key = string
type_synonym body = string
type_synonym status = int
type_synonym producer = "instant \<Rightarrow> body \<times> status"

definition StatusOK :: status where "StatusOK = 200"
definition StatusNotFound :: status where "StatusNotFound = 404"
definition StatusMethodNotAllowed :: status where "StatusMethodNotAllowed = 405"
definition StatusInternalServerError :: status where "StatusInternalServerError = 500"
definition StatusServiceUnavailable :: status where "StatusServiceUnavailable = 503"

lemmas status_defs = StatusOK_def StatusNotFound_def StatusMethodNotAllowed_def
  StatusInternalServerError_def StatusServiceUnavailable_def

record refreshEntry =
  entry_body :: body
  entry_status :: status
  entry_fetched :: instant

record fetchCall =
  call_body :: body
  call_status :: status
  call_done :: bool

record refresher =
  ttls :: "(key \<times> duration) list"
  producers :: "key \<rightharpoonup> producer"
  tick :: duration
  entries :: "key \<rightharpoonup> refreshEntry"
  inflight :: "key \<rightharpoonup> nat"
  active :: bool
  gen :: "64 word"
  stop :: "nat option"
  chan_closed :: "nat set"
  next_chan :: nat
  calls :: "nat \<rightharpoonup> fetchCall"
  next_call :: nat

definition newRefresher :: "(key \<rightharpoonup> producer) \<Rightarrow> refresher" where
  "newRefresher ps =
     \<lparr>ttls = [(''zpool'', zpoolTTL), (''arc'', arcTTL), (''sysinfo'', sysinfoTTL),
              (''smart'', smartTTL)],
      producers = ps, tick = refreshTick, entries = Map.empty, inflight = Map.empty,
      active = False, gen = 0, stop = None, chan_closed = {}, next_chan = 0,
      calls = Map.empty, next_call = 0\<rparr>"

definition errBody :: "string \<Rightarrow> body" where
  "errBody msg = encode (JObj [(''error'', JStr msg)])"

section \<open>Starting and stopping a session\<close>

text \<open>The second component is the stop channel of the loop goroutine to start, if any.\<close>

definition setActive ::
  "bool \<Rightarrow> 'm refresher_scheme \<Rightarrow> 'm refresher_scheme \<times> nat option" where
  "setActive act r =
     (if act then
        (if active r then (r, None)
         else (r\<lparr>active := True, stop := Some (next_chan r), next_chan := Suc (next_chan r)\<rparr>,
               Some (next_chan r)))
      else
        (r\<lparr>active := False, gen := gen r + 1,
           chan_closed := (case stop r of None \<Rightarrow> chan_closed r
                           | Some ch \<Rightarrow> if ch \<in> chan_closed r then chan_closed r
                                        else insert ch (chan_closed r)),
           entries := Map.empty\<rparr>, None))"

section \<open>Reading through the cache\<close>

definition ttl_of :: "key \<Rightarrow> 'm refresher_scheme \<Rightarrow> duration" where
  "ttl_of k r = (case map_of (ttls r) k of None \<Rightarrow> 0 | Some d \<Rightarrow> d)"

text \<open>The keys that refreshAll refreshes: no entry, or one at least as old as its TTL.\<close>

definition refreshAll_keys :: "instant \<Rightarrow> 'm refresher_scheme \<Rightarrow> key list" where
  "refreshAll_keys now r =
     map fst (filter (\<lambda>(k, ttl). case entries r k of None \<Rightarrow> True
                        | Some e \<Rightarrow> now - entry_fetched e \<ge> ttl) (ttls r))"

definition stop_is_closed :: "'m refresher_scheme \<Rightarrow> bool" where
  "stop_is_closed r = (case stop r of None \<Rightarrow> False | Some ch \<Rightarrow> ch \<in> chan_closed r)"

text \<open>What the critical section of get decides: answer, join a call, or start one.\<close>

datatype get_step = AnswerNow body status | JoinCall nat | StartCall nat

definition get_locked ::
  "instant \<Rightarrow> key \<Rightarrow> 'm refresher_scheme \<Rightarrow> get_step \<times> 'm refresher_scheme" where
  "get_locked now k r =
     (let fresh = (case entries r k of None \<Rightarrow> None
                   | Some e \<Rightarrow> if now - entry_fetched e < ttl_of k r then Some e else None) in
      case fresh of
        Some e \<Rightarrow> (AnswerNow (entry_body e) (entry_status e), r)
      | None \<Rightarrow>
          (case inflight r k of
             Some c \<Rightarrow> (JoinCall c, r)
           | None \<Rightarrow>
               (if producers r k = None
                then (AnswerNow (errBody ''unknown endpoint'') StatusNotFound, r)
                else if stop_is_closed r
                then (AnswerNow (errBody ''session ended'') StatusServiceUnavailable, r)
                else (let c = next_call r in
                      (StartCall c,
                       r\<lparr>calls := (calls r)(c \<mapsto> \<lparr>call_body = [], call_status = 0,
                                                   call_done = False\<rparr>),
                         next_call := Suc c, inflight := (inflight r)(k \<mapsto> c)\<rparr>)))))"

text \<open>
  The fetch goroutine after the producer has returned: store under the generation guard,
  publish the result in the call, and the deferred clean-up, first the removal from
  \<open>inflight\<close>, then the close of the call's channel.
\<close>

definition fetch_store ::
  "64 word \<Rightarrow> key \<Rightarrow> body \<Rightarrow> status \<Rightarrow> instant \<Rightarrow> 'm refresher_scheme \<Rightarrow> 'm refresher_scheme" where
  "fetch_store g k b st now r =
     (if g = gen r
      then r\<lparr>entries := (entries r)(k \<mapsto> \<lparr>entry_body = b, entry_status = st,
                                          entry_fetched = now\<rparr>)\<rparr>
      else r)"

definition fetch_publish ::
  "nat \<Rightarrow> body \<Rightarrow> status \<Rightarrow> 'm refresher_scheme \<Rightarrow> 'm refresher_scheme" where
  "fetch_publish c b st r =
     r\<lparr>calls := (calls r)(c := map_option (\<lambda>fc. fc\<lparr>call_body := b, call_status := st\<rparr>) (calls r c))\<rparr>"

definition fetch_remove :: "key \<Rightarrow> 'm refresher_scheme \<Rightarrow> 'm refresher_scheme" where
  "fetch_remove k r = r\<lparr>inflight := (inflight r)(k := None)\<rparr>"

definition fetch_close :: "nat \<Rightarrow> 'm refresher_scheme \<Rightarrow> 'm refresher_scheme" where
  "fetch_close c r =
     r\<lparr>calls := (calls r)(c := map_option (\<lambda>fc. fc\<lparr>call_done := True\<rparr>) (calls r c))\<rparr>"

definition wait_cancelled :: "key \<Rightarrow> 'm refresher_scheme \<Rightarrow> body \<times> status" where
  "wait_cancelled k r =
     (case entries r k of
        Some e \<Rightarrow> (entry_body e, entry_status e)
      | None \<Rightarrow> (errBody ''timed out waiting for background refresh'', StatusServiceUnavailable))"

definition flush :: "'m refresher_scheme \<Rightarrow> 'm refresher_scheme" where
  "flush r = r\<lparr>entries := Map.empty\<rparr>"

section \<open>One caller alone\<close>

text \<open>
  \<open>get\<close> without other goroutines: the producer reads the host at \<open>later\<close> and the result
  is stored, published and returned. Joining a call is waiting for another goroutine, so
  a lone caller has no answer there.
\<close>

definition get_alone ::
  "instant \<Rightarrow> instant \<Rightarrow> key \<Rightarrow> refresher \<Rightarrow> (body \<times> status) option \<times> refresher" where
  "get_alone now later k r =
     (case get_locked now k r of
        (AnswerNow b st, r1) \<Rightarrow> (Some (b, st), r1)
      | (JoinCall c, r1) \<Rightarrow> (None, r1)
      | (StartCall c, r1) \<Rightarrow>
          (case producers r k of
             None \<Rightarrow> (None, r1)
           | Some p \<Rightarrow>
               (let (b, st) = p later;
                    r2 = fetch_publish c b st (fetch_store (gen r) k b st later r1)
                in (Some (b, st), fetch_close c (fetch_remove k r2)))))"

section \<open>Effect on the fields\<close>

lemmas get_defs = get_locked_def stop_is_closed_def Let_def

lemma setActive_on [refresh_simps]:
  "active r \<Longrightarrow> setActive True r = (r, None)"
  "\<not> active r \<Longrightarrow> setActive True r =
     (r\<lparr>active := True, stop := Some (next_chan r), next_chan := Suc (next_chan r)\<rparr>,
      Some (next_chan r))"
  by (simp_all add: setActive_def)

lemma setActive_off [refresh_simps]:
  "setActive False r =
     (r\<lparr>active := False, gen := gen r + 1,
        chan_closed := (case stop r of None \<Rightarrow> chan_closed r | Some ch \<Rightarrow> insert ch (chan_closed r)),
        entries := Map.empty\<rparr>, None)"
  by (auto simp: setActive_def insert_absorb split: option.splits)

lemma refreshAll_keys_iff:
  "k \<in> set (refreshAll_keys now r) \<longleftrightarrow>
     (\<exists>ttl. (k, ttl) \<in> set (ttls r) \<and>
        (\<forall>e. entries r k = Some e \<longrightarrow> ttl \<le> now - entry_fetched e))"
  by (force simp: refreshAll_keys_def split: option.splits)

lemma get_locked_cases:
  obtains
    (hit) e where "entries r k = Some e" "now - entry_fetched e < ttl_of k r"
      "get_locked now k r = (AnswerNow (entry_body e) (entry_status e), r)"
  | (join) c where "inflight r k = Some c" "get_locked now k r = (JoinCall c, r)"
  | (unknown) "producers r k = None" "inflight r k = None"
      "get_locked now k r = (AnswerNow (errBody ''unknown endpoint'') StatusNotFound, r)"
  | (ended) "stop_is_closed r" "inflight r k = None"
      "get_locked now k r = (AnswerNow (errBody ''session ended'') StatusServiceUnavailable, r)"
  | (start) p where "producers r k = Some p" "inflight r k = None" "\<not> stop_is_closed r"
      "\<And>e. entries r k = Some e \<Longrightarrow> ttl_of k r \<le> now - entry_fetched e"
      "get_locked now k r =
         (StartCall (next_call r),
          r\<lparr>calls := (calls r)(next_call r \<mapsto> \<lparr>call_body = [], call_status = 0, call_done = False\<rparr>),
            next_call := Suc (next_call r), inflight := (inflight r)(k \<mapsto> next_call r)\<rparr>)"
proof (cases "\<exists>e. entries r k = Some e \<and> now - entry_fetched e < ttl_of k r")
  case True
  then obtain e where "entries r k = Some e" "now - entry_fetched e < ttl_of k r" by blast
  then show ?thesis by (intro hit) (simp_all add: get_locked_def Let_def)
next
  case False
  then have stale: "(case entries r k of None \<Rightarrow> None
      | Some e \<Rightarrow> if now - entry_fetched e < ttl_of k r then Some e else None) = None"
    by (auto split: option.split)
  show ?thesis
  proof (cases "inflight r k")
    case (Some c)
    then show ?thesis by (intro join) (simp_all add: get_locked_def stale)
  next
    case None
    consider "producers r k = None" | p where "producers r k = Some p" "stop_is_closed r"
      | p where "producers r k = Some p" "\<not> stop_is_closed r" by fastforce
    then show ?thesis
    proof cases
      case 1
      with None show ?thesis by (intro unknown) (simp_all add: get_locked_def stale)
    next
      case 2
      with None show ?thesis by (intro ended) (simp_all add: get_locked_def stale)
    next
      case 3
      with None False show ?thesis
        by (intro start) (auto simp: get_locked_def stale Let_def)
    qed
  qed
qed

end
