(* ===== verification/RefresherSteps.thy ===== *)
theory RefresherSteps
  imports Refresher
begin

text \<open>
  The refresher with its goroutines interleaved: the loop of each session, the gets it
  spawns, the fetch goroutines and the callers that wait for them. A step is one critical
  section of \<open>r.mu\<close>, the return of a producer, or one select of a loop or of a waiter.

  Loops are named by their stop channel, fetches by their call, callers by a running
  number. \<open>ended\<close>, \<open>fetch_session\<close> and \<open>born\<close> are history: the number of sessions
  ended so far, that number when a fetch started, and the one its entry was stored under.
\<close>

section \<open>Goroutines\<close>

datatype fetch_pc =
    Running \<comment> \<open>the producer runs\<close>
  | Produced body status \<comment> \<open>it has returned, before the second critical section\<close>
  | Stored \<comment> \<open>stored or dropped, and published, before the deferred clean-up\<close>
  | Removed \<comment> \<open>out of inflight, before close(done)\<close>

record fetch =
  fetch_key :: key
  fetch_gen :: "64 word"
  fetch_session :: nat
  fetch_pc :: fetch_pc

datatype loop_pc =
    LoopRefresh \<comment> \<open>before refreshAll collects the stale keys\<close>
  | LoopRound "key list" "nat list" \<comment> \<open>keys to get, callers to wait for\<close>
  | LoopSelect \<comment> \<open>waiting for a tick or for the stop channel\<close>

record waiter =
  waiter_key :: key
  waiter_call :: nat
  waiter_background :: bool

record rsys = refresher +
  rclock :: instant
  fetches :: "nat \<rightharpoonup> fetch"
  waiters :: "nat \<rightharpoonup> waiter"
  answers :: "nat \<rightharpoonup> key \<times> body \<times> status"
  next_caller :: nat
  loops :: "nat \<rightharpoonup> loop_pc"
  ended :: nat
  born :: "key \<rightharpoonup> nat"

section \<open>Steps\<close>

text \<open>A caller enters get: what its critical section decides is what it goes on with.\<close>

definition call_get :: "bool \<Rightarrow> key \<Rightarrow> rsys \<Rightarrow> rsys" where
  "call_get bg k s =
     (let (o_step, s') = get_locked (rclock s) k s;
          n = next_caller s;
          s1 = s'\<lparr>next_caller := Suc n\<rparr>
      in case o_step of
           AnswerNow b st \<Rightarrow> s1\<lparr>answers := (answers s1)(n \<mapsto> (k, b, st))\<rparr>
         | JoinCall c \<Rightarrow>
             s1\<lparr>waiters := (waiters s1)(n \<mapsto>
                  \<lparr>waiter_key = k, waiter_call = c, waiter_background = bg\<rparr>)\<rparr>
         | StartCall c \<Rightarrow>
             s1\<lparr>waiters := (waiters s1)(n \<mapsto>
                  \<lparr>waiter_key = k, waiter_call = c, waiter_background = bg\<rparr>),
                fetches := (fetches s1)(c \<mapsto>
                  \<lparr>fetch_key = k, fetch_gen = gen s, fetch_session = ended s,
                   fetch_pc = Running\<rparr>)\<rparr>)"

datatype ract =
    RElapse duration
  | RProduce nat | RStore nat | RRemove nat | RClose nat
  | RDone nat | RCancel nat
  | RCollect nat | RSpawn nat key | RAwait nat | RTick nat | RStop nat

definition set_pc :: "nat \<Rightarrow> fetch \<Rightarrow> fetch_pc \<Rightarrow> rsys \<Rightarrow> rsys" where
  "set_pc c f pc s = s\<lparr>fetches := (fetches s)(c \<mapsto> f\<lparr>fetch_pc := pc\<rparr>)\<rparr>"

fun fetch_step :: "ract \<Rightarrow> nat \<Rightarrow> fetch \<Rightarrow> rsys \<Rightarrow> rsys option" where
  "fetch_step (RProduce _) c f s =
     (case (fetch_pc f, producers s (fetch_key f)) of
        (Running, Some p) \<Rightarrow> Some (set_pc c f (Produced (fst (p (rclock s))) (snd (p (rclock s)))) s)
      | _ \<Rightarrow> None)"
| "fetch_step (RStore _) c f s =
     (case fetch_pc f of
        Produced b st \<Rightarrow>
          (let s1 = fetch_store (fetch_gen f) (fetch_key f) b st (rclock s) s;
               s2 = (if fetch_gen f = gen s
                     then s1\<lparr>born := (born s)(fetch_key f \<mapsto> fetch_session f)\<rparr> else s1)
           in Some (set_pc c f Stored (fetch_publish c b st s2)))
      | _ \<Rightarrow> None)"
| "fetch_step (RRemove _) c f s =
     (case fetch_pc f of
        Stored \<Rightarrow> Some (set_pc c f Removed (fetch_remove (fetch_key f) s))
      | _ \<Rightarrow> None)"
| "fetch_step (RClose _) c f s =
     (case fetch_pc f of
        Removed \<Rightarrow> Some ((fetch_close c s)\<lparr>fetches := (fetches s)(c := None)\<rparr>)
      | _ \<Rightarrow> None)"
| "fetch_step _ c f s = None"

definition on_fetch :: "ract \<Rightarrow> nat \<Rightarrow> rsys \<Rightarrow> rsys option" where
  "on_fetch a c s = (case fetches s c of None \<Rightarrow> None | Some f \<Rightarrow> fetch_step a c f s)"

definition answer :: "nat \<Rightarrow> key \<Rightarrow> body \<times> status \<Rightarrow> rsys \<Rightarrow> rsys" where
  "answer n k r s =
     s\<lparr>waiters := (waiters s)(n := None), answers := (answers s)(n \<mapsto> (k, fst r, snd r))\<rparr>"

fun refresh_exec :: "ract \<Rightarrow> rsys \<Rightarrow> rsys option" where
  "refresh_exec (RElapse d) s = (if 0 \<le> d then Some (s\<lparr>rclock := rclock s + d\<rparr>) else None)"
| "refresh_exec (RProduce c) s = on_fetch (RProduce c) c s"
| "refresh_exec (RStore c) s = on_fetch (RStore c) c s"
| "refresh_exec (RRemove c) s = on_fetch (RRemove c) c s"
| "refresh_exec (RClose c) s = on_fetch (RClose c) c s"
| "refresh_exec (RDone n) s =
     (case waiters s n of None \<Rightarrow> None
      | Some w \<Rightarrow> (case calls s (waiter_call w) of None \<Rightarrow> None
         | Some fc \<Rightarrow>
             if call_done fc
             then Some (answer n (waiter_key w) (call_body fc, call_status fc) s) else None))"
| "refresh_exec (RCancel n) s =
     (case waiters s n of None \<Rightarrow> None
      | Some w \<Rightarrow> if waiter_background w then None
                  else Some (answer n (waiter_key w) (wait_cancelled (waiter_key w) s) s))"
| "refresh_exec (RCollect ch) s =
     (if loops s ch = Some LoopRefresh
      then Some (s\<lparr>loops := (loops s)(ch \<mapsto> LoopRound (refreshAll_keys (rclock s) s) [])\<rparr>)
      else None)"
| "refresh_exec (RSpawn ch k) s =
     (case loops s ch of
        Some (LoopRound ks ns) \<Rightarrow>
          (if k \<in> set ks
           then (let s' = call_get True k s in
                 Some (s'\<lparr>loops := (loops s')(ch \<mapsto> LoopRound (remove1 k ks) (next_caller s # ns))\<rparr>))
           else None)
      | _ \<Rightarrow> None)"
| "refresh_exec (RAwait ch) s =
     (case loops s ch of
        Some (LoopRound [] ns) \<Rightarrow>
          (if list_all (\<lambda>n. waiters s n = None) ns
           then Some (s\<lparr>loops := (loops s)(ch \<mapsto> LoopSelect)\<rparr>) else None)
      | _ \<Rightarrow> None)"
| "refresh_exec (RTick ch) s =
     (if loops s ch = Some LoopSelect \<and> ch \<notin> chan_closed s
      then Some (s\<lparr>loops := (loops s)(ch \<mapsto> LoopRefresh)\<rparr>) else None)"
| "refresh_exec (RStop ch) s =
     (if loops s ch = Some LoopSelect \<and> ch \<in> chan_closed s
      then Some (s\<lparr>loops := (loops s)(ch := None)\<rparr>) else None)"

text \<open>The callbacks of the gate: \<open>setActive\<close>, with the goroutine it starts.\<close>

definition session_wake :: "rsys \<Rightarrow> rsys" where
  "session_wake s =
     (let (s', loop) = setActive True s in
      case loop of None \<Rightarrow> s' | Some ch \<Rightarrow> s'\<lparr>loops := (loops s')(ch \<mapsto> LoopRefresh)\<rparr>)"

definition session_sleep :: "rsys \<Rightarrow> rsys" where
  "session_sleep s = (fst (setActive False s))\<lparr>ended := Suc (ended s)\<rparr>"

text \<open>A request handler enters get.\<close>

definition request_get :: "key \<Rightarrow> rsys \<Rightarrow> rsys option" where
  "request_get k s = Some (call_get False k s)"

definition rsys_start :: "(key \<rightharpoonup> producer) \<Rightarrow> instant \<Rightarrow> rsys" where
  "rsys_start ps t =
     refresher.extend (newRefresher ps)
       (rsys.fields t Map.empty Map.empty Map.empty 0 Map.empty 0 Map.empty)"

datatype rmove = Work ract | Enter key | WakeUp | GoToSleep

fun refresh_move :: "rmove \<Rightarrow> rsys \<Rightarrow> rsys option" where
  "refresh_move (Work a) s = refresh_exec a s"
| "refresh_move (Enter k) s = request_get k s"
| "refresh_move WakeUp s = Some (session_wake s)"
| "refresh_move GoToSleep s = Some (session_sleep s)"

fun refresh_run :: "rmove list \<Rightarrow> rsys \<Rightarrow> rsys option" where
  "refresh_run [] s = Some s"
| "refresh_run (m # ms) s =
     (case refresh_move m s of None \<Rightarrow> None | Some t \<Rightarrow> refresh_run ms t)"

inductive refresh_reach :: "rsys \<Rightarrow> rsys \<Rightarrow> bool" for s0 where
  refresh_start: "refresh_reach s0 s0"
| refresh_step: "refresh_reach s0 s \<Longrightarrow> refresh_move m s = Some t \<Longrightarrow> refresh_reach s0 t"

lemma refresh_run_reach:
  "refresh_run ms s = Some t \<Longrightarrow> refresh_reach s0 s \<Longrightarrow> refresh_reach s0 t"
  by (induction ms arbitrary: s) (auto split: option.splits intro: refresh_step)

end
