(* ===== verification/RefresherSafety.thy ===== *)
theory RefresherSafety
  imports RefresherSteps
begin

text \<open>
  The invariants of the interleaved refresher: single flight and the bookkeeping of calls,
  the provenance of every cached and returned body, and the guard of the session
  generation. Each has a lemma for a caller entering get, one for the background steps and
  one for the start and the end of a session.
\<close>

section \<open>The shapes of a step\<close>

lemma call_get_cases:
  obtains
    (cached) e where "entries s k = Some e"
      "call_get bg k s = s\<lparr>next_caller := Suc (next_caller s), answers :=
         (answers s)(next_caller s \<mapsto> (k, entry_body e, entry_status e))\<rparr>"
  | (refused) b st where
      "producers s k = None \<and> (b, st) = (errBody ''unknown endpoint'', StatusNotFound) \<or>
       (b, st) = (errBody ''session ended'', StatusServiceUnavailable)"
      "call_get bg k s = s\<lparr>next_caller := Suc (next_caller s), answers :=
         (answers s)(next_caller s \<mapsto> (k, b, st))\<rparr>"
  | (joined) c where "inflight s k = Some c"
      "call_get bg k s = s\<lparr>next_caller := Suc (next_caller s), waiters :=
         (waiters s)(next_caller s \<mapsto>
           \<lparr>waiter_key = k, waiter_call = c, waiter_background = bg\<rparr>)\<rparr>"
  | (started) p where "producers s k = Some p" "inflight s k = None" "\<not> stop_is_closed s"
      "call_get bg k s = s\<lparr>
         calls := (calls s)(next_call s \<mapsto> \<lparr>call_body = [], call_status = 0, call_done = False\<rparr>),
         next_call := Suc (next_call s), inflight := (inflight s)(k \<mapsto> next_call s),
         next_caller := Suc (next_caller s),
         waiters := (waiters s)(next_caller s \<mapsto>
           \<lparr>waiter_key = k, waiter_call = next_call s, waiter_background = bg\<rparr>),
         fetches := (fetches s)(next_call s \<mapsto>
           \<lparr>fetch_key = k, fetch_gen = gen s, fetch_session = ended s, fetch_pc = Running\<rparr>)\<rparr>"
proof (cases rule: get_locked_cases [of s k "rclock s"])
  case (hit e)
  then show ?thesis by (intro cached) (simp_all add: call_get_def Let_def)
next
  case (join c)
  then show ?thesis by (intro joined) (simp_all add: call_get_def Let_def)
next
  case unknown
  then show ?thesis by (intro refused) (simp_all add: call_get_def Let_def)
next
  case ended
  then show ?thesis by (intro refused) (simp_all add: call_get_def Let_def)
next
  case (start p)
  then show ?thesis by (intro started) (simp_all add: call_get_def Let_def)
qed

lemma refresh_exec_cases:
  assumes "refresh_exec a s = Some t"
  obtains
    (elapse) d where "a = RElapse d" "0 \<le> d" "t = s\<lparr>rclock := rclock s + d\<rparr>"
  | (produce) c f p where "a = RProduce c" "fetches s c = Some f" "fetch_pc f = Running"
      "producers s (fetch_key f) = Some p"
      "t = s\<lparr>fetches := (fetches s)(c \<mapsto> f\<lparr>fetch_pc :=
             Produced (fst (p (rclock s))) (snd (p (rclock s)))\<rparr>)\<rparr>"
  | (store) c f b st where "a = RStore c" "fetches s c = Some f" "fetch_pc f = Produced b st"
      "fetch_gen f = gen s"
      "t = s\<lparr>entries := (entries s)(fetch_key f \<mapsto>
               \<lparr>entry_body = b, entry_status = st, entry_fetched = rclock s\<rparr>),
             born := (born s)(fetch_key f \<mapsto> fetch_session f),
             calls := (calls s)(c := map_option (\<lambda>fc. fc\<lparr>call_body := b, call_status := st\<rparr>) (calls s c)),
             fetches := (fetches s)(c \<mapsto> f\<lparr>fetch_pc := Stored\<rparr>)\<rparr>"
  | (drop) c f b st where "a = RStore c" "fetches s c = Some f" "fetch_pc f = Produced b st"
      "fetch_gen f \<noteq> gen s"
      "t = s\<lparr>calls := (calls s)(c := map_option (\<lambda>fc. fc\<lparr>call_body := b, call_status := st\<rparr>) (calls s c)),
             fetches := (fetches s)(c \<mapsto> f\<lparr>fetch_pc := Stored\<rparr>)\<rparr>"
  | (remove) c f where "a = RRemove c" "fetches s c = Some f" "fetch_pc f = Stored"
      "t = s\<lparr>inflight := (inflight s)(fetch_key f := None),
             fetches := (fetches s)(c \<mapsto> f\<lparr>fetch_pc := Removed\<rparr>)\<rparr>"
  | (close) c f where "a = RClose c" "fetches s c = Some f" "fetch_pc f = Removed"
      "t = s\<lparr>calls := (calls s)(c := map_option (\<lambda>fc. fc\<lparr>call_done := True\<rparr>) (calls s c)),
             fetches := (fetches s)(c := None)\<rparr>"
  | (finish) n w fc where "a = RDone n" "waiters s n = Some w"
      "calls s (waiter_call w) = Some fc" "call_done fc"
      "t = s\<lparr>waiters := (waiters s)(n := None),
             answers := (answers s)(n \<mapsto> (waiter_key w, call_body fc, call_status fc))\<rparr>"
  | (cancel) n w where "a = RCancel n" "waiters s n = Some w" "\<not> waiter_background w"
      "t = s\<lparr>waiters := (waiters s)(n := None),
             answers := (answers s)(n \<mapsto> (waiter_key w, wait_cancelled (waiter_key w) s))\<rparr>"
  | (spawn) ch k ks ns where "a = RSpawn ch k" "loops s ch = Some (LoopRound ks ns)" "k \<in> set ks"
      "t = (call_get True k s)\<lparr>loops := (loops (call_get True k s))
             (ch \<mapsto> LoopRound (remove1 k ks) (next_caller s # ns))\<rparr>"
  | (loop) ch l where "loops s ch \<noteq> None" "t = s\<lparr>loops := (loops s)(ch := l)\<rparr>"
  using assms
proof (cases a)
  case (RElapse d)
  with assms show ?thesis by (intro elapse) (auto split: if_splits)
next
  case (RProduce c)
  with assms show ?thesis
    by (auto simp: on_fetch_def set_pc_def intro: produce split: option.splits fetch_pc.splits)
next
  case (RStore c)
  with assms obtain f b st where f: "fetches s c = Some f" "fetch_pc f = Produced b st"
    by (auto simp: on_fetch_def split: option.splits fetch_pc.splits)
  show ?thesis
    by (cases "fetch_gen f = gen s"; rule store [OF RStore f] drop [OF RStore f])
      (use assms RStore f in \<open>simp_all add: on_fetch_def set_pc_def fetch_store_def
        fetch_publish_def Let_def\<close>)
next
  case (RRemove c)
  with assms show ?thesis
    by (auto simp: on_fetch_def set_pc_def fetch_remove_def intro: remove
        split: option.splits fetch_pc.splits)
next
  case (RClose c)
  with assms show ?thesis
    by (auto simp: on_fetch_def set_pc_def fetch_close_def intro: close
        split: option.splits fetch_pc.splits)
next
  case (RDone n)
  with assms show ?thesis
    by (auto simp: answer_def intro: finish split: option.splits if_splits)
next
  case (RCancel n)
  with assms show ?thesis
    by (auto simp: answer_def intro: cancel split: option.splits if_splits)
next
  case (RSpawn ch k)
  with assms show ?thesis
    by (auto simp: Let_def intro: spawn split: option.splits loop_pc.splits if_splits)
next
  case (RCollect ch)
  with assms have "loops s ch \<noteq> None"
    "t = s\<lparr>loops := (loops s)(ch := Some (LoopRound (refreshAll_keys (rclock s) s) []))\<rparr>"
    by (simp_all split: if_splits)
  then show ?thesis by (rule loop)
next
  case (RAwait ch)
  with assms have "loops s ch \<noteq> None" "t = s\<lparr>loops := (loops s)(ch := Some LoopSelect)\<rparr>"
    by (simp_all split: option.splits loop_pc.splits list.splits if_splits)
  then show ?thesis by (rule loop)
next
  case (RTick ch)
  with assms have "loops s ch \<noteq> None" "t = s\<lparr>loops := (loops s)(ch := Some LoopRefresh)\<rparr>"
    by (simp_all split: if_splits)
  then show ?thesis by (rule loop)
next
  case (RStop ch)
  with assms have "loops s ch \<noteq> None" "t = s\<lparr>loops := (loops s)(ch := None)\<rparr>"
    by (simp_all split: if_splits)
  then show ?thesis by (rule loop)
qed


section \<open>Calls, fetches and waiters\<close>

definition fetches_ok :: "rsys \<Rightarrow> bool" where
  "fetches_ok s \<longleftrightarrow> (\<forall>c f. fetches s c = Some f \<longrightarrow>
     c < next_call s \<and> producers s (fetch_key f) \<noteq> None \<and> calls s c \<noteq> None \<and>
     (\<forall>fc. calls s c = Some fc \<longrightarrow> \<not> call_done fc))"

definition inflight_ok :: "rsys \<Rightarrow> bool" where
  "inflight_ok s \<longleftrightarrow>
     (\<forall>c f. fetches s c = Some f \<longrightarrow> fetch_pc f \<noteq> Removed \<longrightarrow> inflight s (fetch_key f) = Some c) \<and>
     (\<forall>k c. inflight s k = Some c \<longrightarrow> fetches s c \<noteq> None \<and>
        (\<forall>f. fetches s c = Some f \<longrightarrow> fetch_key f = k \<and> fetch_pc f \<noteq> Removed))"

definition waiters_ok :: "rsys \<Rightarrow> bool" where
  "waiters_ok s \<longleftrightarrow> (\<forall>n w. waiters s n = Some w \<longrightarrow>
     waiter_call w < next_call s \<and> calls s (waiter_call w) \<noteq> None \<and>
     (\<forall>f. fetches s (waiter_call w) = Some f \<longrightarrow> fetch_key f = waiter_key w) \<and>
     (fetches s (waiter_call w) = None \<longrightarrow>
        (\<forall>fc. calls s (waiter_call w) = Some fc \<longrightarrow> call_done fc)))"

definition call_inv :: "rsys \<Rightarrow> bool" where
  "call_inv s \<longleftrightarrow> fetches_ok s \<and> inflight_ok s \<and> waiters_ok s"

lemmas call_inv_defs = call_inv_def fetches_ok_def inflight_ok_def waiters_ok_def

text \<open>A step of one fetch goroutine: what is known of its call and of its key.\<close>

lemma call_inv_fetchD:
  assumes "call_inv s" and "fetches s c = Some f"
  shows "\<exists>fc. calls s c = Some fc \<and> \<not> call_done fc"
    and "waiters s n = Some w \<Longrightarrow> waiter_call w = c \<Longrightarrow> waiter_key w = fetch_key f"
    and "fetch_pc f \<noteq> Removed \<Longrightarrow> inflight s (fetch_key f) = Some c"
    and "fetch_pc f = Removed \<Longrightarrow> inflight s k \<noteq> Some c"
  using assms by (fastforce simp: call_inv_defs)+

lemma call_inv_inflightD:
  assumes "call_inv s" and "inflight s k = Some c"
  shows "\<exists>f. fetches s c = Some f \<and> fetch_key f = k \<and> fetch_pc f \<noteq> Removed"
proof (cases "fetches s c")
  case None
  with assms show ?thesis by (fastforce simp: call_inv_def inflight_ok_def)
next
  case (Some f)
  with assms show ?thesis by (auto simp: call_inv_def inflight_ok_def)
qed

lemma call_inv_get: "call_inv s \<Longrightarrow> call_inv (call_get bg k s)"
proof (cases bg k s rule: call_get_cases)
  case (joined c)
  assume inv: "call_inv s"
  then obtain f where "fetches s c = Some f" "fetch_key f = k" "c < next_call s"
    using joined(1) by (fastforce simp: call_inv_defs)
  with inv joined show ?thesis by (auto simp: call_inv_defs)
next
  case (started p)
  assume inv: "call_inv s"
  then have new: "fetches s (next_call s) = None"
    by (cases "fetches s (next_call s)") (auto simp: call_inv_defs)
  have newW: "waiter_call w \<noteq> next_call s" if "waiters s n = Some w" for n w
    using inv that by (fastforce simp: call_inv_defs)
  show ?thesis unfolding call_inv_def
  proof (intro conjI)
    show "fetches_ok (call_get bg k s)" "waiters_ok (call_get bg k s)"
      using inv started new newW by (auto simp: call_inv_defs less_Suc_eq)
    have newI: "inflight s k' \<noteq> Some (next_call s)" for k'
      using call_inv_inflightD [OF inv] new by fastforce
    have free: "fetch_pc f = Removed" if "fetches s c = Some f" "fetch_key f = k" for c f
      using call_inv_fetchD(3) [OF inv that(1)] that(2) started(2) by force
    show "inflight_ok (call_get bg k s)"
      using inv started new newI free by (auto simp: call_inv_def inflight_ok_def)
  qed
qed (auto simp: call_inv_defs)


lemma fetches_ok_exec: "refresh_exec a s = Some t \<Longrightarrow> call_inv s \<Longrightarrow> fetches_ok t"
proof (erule refresh_exec_cases)
  fix ch k ks ns assume "call_inv s"
    and t: "t = (call_get True k s)\<lparr>loops := (loops (call_get True k s))
             (ch \<mapsto> LoopRound (remove1 k ks) (next_caller s # ns))\<rparr>"
  then show "fetches_ok t" using call_inv_get [of s True k] by (simp add: call_inv_defs)
qed (auto simp: call_inv_defs)

lemma inflight_ok_exec: "refresh_exec a s = Some t \<Longrightarrow> call_inv s \<Longrightarrow> inflight_ok t"
proof (erule refresh_exec_cases)
  fix ch k ks ns assume "call_inv s"
    and t: "t = (call_get True k s)\<lparr>loops := (loops (call_get True k s))
             (ch \<mapsto> LoopRound (remove1 k ks) (next_caller s # ns))\<rparr>"
  then show "inflight_ok t" using call_inv_get [of s True k] by (simp add: call_inv_defs)
next
  fix c f assume inv: "call_inv s" and f: "fetches s c = Some f" "fetch_pc f = Stored"
    and t: "t = s\<lparr>inflight := (inflight s)(fetch_key f := None),
             fetches := (fetches s)(c \<mapsto> f\<lparr>fetch_pc := Removed\<rparr>)\<rparr>"
  have own: "inflight s (fetch_key f) = Some c" using call_inv_fetchD(3) [OF inv f(1)] f(2) by simp
  have other: "fetch_key f' \<noteq> fetch_key f \<or> fetch_pc f' = Removed"
    if "fetches s c' = Some f'" "c' \<noteq> c" for c' f'
    using call_inv_fetchD(3) [OF inv that(1)] own that(2) by force
  have old: "\<exists>f'. fetches s c' = Some f' \<and> fetch_key f' = k \<and> fetch_pc f' \<noteq> Removed \<and> c' \<noteq> c"
    if "inflight t k = Some c'" for k c'
  proof -
    have "inflight s k = Some c'" "k \<noteq> fetch_key f" using that by (auto simp: t split: if_splits)
    then show ?thesis using call_inv_inflightD [OF inv, of k c'] f(1) by auto
  qed
  show "inflight_ok t" unfolding inflight_ok_def
  proof (intro conjI allI impI, goal_cases)
    case (1 c' f')
    with other [of c' f'] call_inv_fetchD(3) [OF inv, of c' f'] show ?case
      by (auto simp: t split: if_splits)
  next
    case (2 k c')
    from old [OF this] show ?case by (auto simp: t)
  next
    case (3 k c' f')
    from old [OF 3(1)] 3(2) show ?case by (auto simp: t)
  next
    case (4 k c' f')
    from old [OF 4(1)] 4(2) show ?case by (auto simp: t)
  qed
qed (auto simp: call_inv_def inflight_ok_def)

lemma waiters_ok_exec: "refresh_exec a s = Some t \<Longrightarrow> call_inv s \<Longrightarrow> waiters_ok t"
proof (erule refresh_exec_cases)
  fix ch k ks ns assume "call_inv s"
    and t: "t = (call_get True k s)\<lparr>loops := (loops (call_get True k s))
             (ch \<mapsto> LoopRound (remove1 k ks) (next_caller s # ns))\<rparr>"
  then show "waiters_ok t" using call_inv_get [of s True k] by (simp add: call_inv_defs)
qed (auto simp: call_inv_def waiters_ok_def)

lemma call_inv_exec: "refresh_exec a s = Some t \<Longrightarrow> call_inv s \<Longrightarrow> call_inv t"
  by (simp add: call_inv_def [of t] fetches_ok_exec inflight_ok_exec waiters_ok_exec)

lemma call_inv_wake: "call_inv s \<Longrightarrow> call_inv (session_wake s)"
  by (cases "active s") (simp_all add: session_wake_def refresh_simps call_inv_defs)

lemma call_inv_sleep: "call_inv s \<Longrightarrow> call_inv (session_sleep s)"
  by (simp add: session_sleep_def refresh_simps call_inv_defs)

section \<open>Provenance of the bodies\<close>

text \<open>
  \<open>made\<close>: the producer of that key has returned this response at an instant that is not
  in the future. \<open>refusal\<close>: one of the three responses that get composes itself.
\<close>

definition made :: "rsys \<Rightarrow> key \<Rightarrow> body \<Rightarrow> status \<Rightarrow> bool" where
  "made s k b st \<longleftrightarrow> (\<exists>p t. producers s k = Some p \<and> t \<le> rclock s \<and> p t = (b, st))"

definition refusal :: "rsys \<Rightarrow> key \<Rightarrow> body \<Rightarrow> status \<Rightarrow> bool" where
  "refusal s k b st \<longleftrightarrow>
     producers s k = None \<and> b = errBody ''unknown endpoint'' \<and> st = StatusNotFound \<or>
     b = errBody ''session ended'' \<and> st = StatusServiceUnavailable \<or>
     b = errBody ''timed out waiting for background refresh'' \<and> st = StatusServiceUnavailable"

definition cached_made :: "rsys \<Rightarrow> bool" where
  "cached_made s \<longleftrightarrow> (\<forall>k e. entries s k = Some e \<longrightarrow>
     entry_fetched e \<le> rclock s \<and> made s k (entry_body e) (entry_status e))"

definition fetched_made :: "rsys \<Rightarrow> bool" where
  "fetched_made s \<longleftrightarrow> (\<forall>c f. fetches s c = Some f \<longrightarrow>
     (\<forall>b st. fetch_pc f = Produced b st \<longrightarrow> made s (fetch_key f) b st) \<and>
     (fetch_pc f = Stored \<or> fetch_pc f = Removed \<longrightarrow>
        (\<forall>fc. calls s c = Some fc \<longrightarrow> made s (fetch_key f) (call_body fc) (call_status fc))))"

definition awaited_made :: "rsys \<Rightarrow> bool" where
  "awaited_made s \<longleftrightarrow> (\<forall>n w fc. waiters s n = Some w \<longrightarrow> calls s (waiter_call w) = Some fc \<longrightarrow>
     call_done fc \<longrightarrow> made s (waiter_key w) (call_body fc) (call_status fc))"

definition answered_made :: "rsys \<Rightarrow> bool" where
  "answered_made s \<longleftrightarrow> (\<forall>n k b st. answers s n = Some (k, b, st) \<longrightarrow>
     made s k b st \<or> refusal s k b st)"

definition made_inv :: "rsys \<Rightarrow> bool" where
  "made_inv s \<longleftrightarrow> cached_made s \<and> fetched_made s \<and> awaited_made s \<and> answered_made s"

lemmas made_inv_defs = made_inv_def cached_made_def fetched_made_def awaited_made_def
  answered_made_def

lemma made_frame:
  "producers t = producers s \<Longrightarrow> rclock s \<le> rclock t \<Longrightarrow> made s k b st \<Longrightarrow> made t k b st"
  by (auto simp: made_def intro: order_trans)

lemma refusal_frame: "producers t = producers s \<Longrightarrow> refusal t k b st = refusal s k b st"
  by (simp add: refusal_def)

lemma made_now:
  "producers s k = Some p \<Longrightarrow> made s k (fst (p (rclock s))) (snd (p (rclock s)))"
  by (force simp: made_def)

lemma call_get_frame [simp]:
  "producers (call_get bg k s) = producers s" "rclock (call_get bg k s) = rclock s"
  "entries (call_get bg k s) = entries s" "gen (call_get bg k s) = gen s"
  "active (call_get bg k s) = active s" "stop (call_get bg k s) = stop s"
  "chan_closed (call_get bg k s) = chan_closed s" "next_chan (call_get bg k s) = next_chan s"
  "loops (call_get bg k s) = loops s" "ended (call_get bg k s) = ended s"
  "born (call_get bg k s) = born s" "ttls (call_get bg k s) = ttls s"
  by (cases rule: call_get_cases [of s k bg]; simp)+

lemma refresh_exec_frame:
  assumes "refresh_exec a s = Some t"
  shows "producers t = producers s" "rclock s \<le> rclock t" "gen t = gen s" "active t = active s"
    "stop t = stop s" "chan_closed t = chan_closed s" "next_chan t = next_chan s"
    "ended t = ended s" "ttls t = ttls s"
  using assms by (cases rule: refresh_exec_cases; simp)+

lemma made_get [simp]: "made (call_get bg k s) = made s"
  by (simp add: made_def fun_eq_iff)

lemma refusal_get [simp]: "refusal (call_get bg k s) = refusal s"
  by (simp add: refusal_def fun_eq_iff)

lemma made_inv_get: "call_inv s \<Longrightarrow> made_inv s \<Longrightarrow> made_inv (call_get bg k s)"
proof (cases bg k s rule: call_get_cases)
  case (cached e)
  assume inv: "made_inv s"
  then have "made s k (entry_body e) (entry_status e)"
    using cached(1) by (auto simp: made_inv_defs)
  moreover have "fetches (call_get bg k s) = fetches s" "calls (call_get bg k s) = calls s"
    "waiters (call_get bg k s) = waiters s" by (simp_all add: cached(2))
  ultimately show ?thesis using inv by (auto simp: made_inv_defs cached(2) simp del: made_get
        simp: made_def [abs_def] refusal_def [abs_def])
next
  case (refused b st)
  assume inv: "made_inv s"
  have "refusal s k b st" using refused(1) by (auto simp: refusal_def)
  with inv show ?thesis unfolding made_inv_defs by (simp, simp add: refused(2))
next
  case (joined c)
  assume ci: "call_inv s" and inv: "made_inv s"
  from call_inv_inflightD [OF ci joined(1)] call_inv_fetchD(1) [OF ci]
  have "\<forall>fc. calls s c = Some fc \<longrightarrow> \<not> call_done fc" by fastforce
  with inv show ?thesis unfolding made_inv_defs by (simp, auto simp add: joined(2))
next
  case (started p)
  assume ci: "call_inv s" and inv: "made_inv s"
  have "waiter_call w \<noteq> next_call s" if "waiters s n = Some w" for n w
    using ci that by (fastforce simp: call_inv_defs)
  moreover have "fetches s (next_call s) = None"
    using ci by (cases "fetches s (next_call s)") (auto simp: call_inv_defs)
  ultimately show ?thesis using inv unfolding made_inv_defs by (simp, auto simp add: started(4))
qed

lemma wait_cancelled_made:
  "cached_made s \<Longrightarrow> wait_cancelled k s = (b, st) \<Longrightarrow> made s k b st \<or> refusal s k b st"
  by (auto simp: cached_made_def wait_cancelled_def refusal_def split: option.splits)

text \<open>A step that leaves the producers alone and lets time pass keeps what was made.\<close>

lemma made_inv_exec:
  assumes step: "refresh_exec a s = Some t" and ci: "call_inv s" and inv: "made_inv s"
  shows "made_inv t"
proof -
  note frame = refresh_exec_frame(1,2) [OF step]
  note keep = made_frame [OF frame] refusal_frame [OF frame(1)]
  show ?thesis using step
  proof (cases rule: refresh_exec_cases)
    case (elapse d)
    with inv keep show ?thesis by (fastforce simp: made_inv_defs)
  next
    case (produce c f p)
    have "made t (fetch_key f) (fst (p (rclock s))) (snd (p (rclock s)))"
      using keep(1) made_now [of s "fetch_key f" p] produce(4) by simp
    with produce inv keep show ?thesis by (fastforce simp: made_inv_defs)
  next
    case (store c f b st)
    then have "made t (fetch_key f) b st" using keep(1) inv by (auto simp: made_inv_defs)
    with store inv keep call_inv_fetchD(1) [OF ci store(2)] show ?thesis
      by (fastforce simp: made_inv_defs)
  next
    case (drop c f b st)
    then have "made t (fetch_key f) b st" using keep(1) inv by (auto simp: made_inv_defs)
    with drop inv keep call_inv_fetchD(1) [OF ci drop(2)] show ?thesis
      by (fastforce simp: made_inv_defs)
  next
    case (remove c f)
    with inv keep show ?thesis by (fastforce simp: made_inv_defs)
  next
    case (close c f)
    then have "made t (fetch_key f) (call_body fc) (call_status fc)" if "calls s c = Some fc" for fc
      using keep(1) inv that by (auto simp: made_inv_defs)
    with close inv keep call_inv_fetchD(2) [OF ci close(2)] show ?thesis
      by (fastforce simp: made_inv_defs)
  next
    case (finish n w fc)
    then have "made t (waiter_key w) (call_body fc) (call_status fc)"
      using keep(1) inv by (auto simp: made_inv_defs)
    with finish inv keep show ?thesis by (fastforce simp: made_inv_defs)
  next
    case (cancel n w)
    obtain b st where r: "wait_cancelled (waiter_key w) s = (b, st)" by fastforce
    then have "made t (waiter_key w) b st \<or> refusal t (waiter_key w) b st"
      using wait_cancelled_made [OF _ r] keep inv by (auto simp: made_inv_def)
    with cancel inv keep r show ?thesis by (fastforce simp: made_inv_defs)
  next
    case (spawn ch k ks ns)
    have "made_inv (call_get True k s)" by (rule made_inv_get [OF ci inv])
    then show ?thesis by (simp add: made_inv_defs spawn(4) made_def [abs_def] refusal_def [abs_def])
  next
    case (loop ch l)
    with inv keep show ?thesis by (fastforce simp: made_inv_defs)
  qed
qed

lemma made_inv_wake: "made_inv s \<Longrightarrow> made_inv (session_wake s)"
  by (cases "active s")
    (simp_all add: session_wake_def refresh_simps made_inv_defs made_def [abs_def] refusal_def [abs_def])

lemma made_inv_sleep: "made_inv s \<Longrightarrow> made_inv (session_sleep s)"
  by (simp add: session_sleep_def refresh_simps made_inv_defs made_def [abs_def] refusal_def [abs_def])

section \<open>Sessions\<close>

definition chan_inv :: "rsys \<Rightarrow> bool" where
  "chan_inv s \<longleftrightarrow>
     (\<forall>ch \<in> chan_closed s. ch < next_chan s) \<and>
     (\<forall>ch. stop s = Some ch \<longrightarrow> ch < next_chan s \<and> (active s \<longleftrightarrow> ch \<notin> chan_closed s)) \<and>
     (stop s = None \<longrightarrow> \<not> active s) \<and>
     (\<forall>ch. loops s ch \<noteq> None \<longrightarrow> stop s = Some ch \<or> ch \<in> chan_closed s)"

lemma chan_inv_get: "chan_inv s \<Longrightarrow> chan_inv (call_get bg k s)"
  by (simp add: chan_inv_def)

lemma chan_inv_exec: "refresh_exec a s = Some t \<Longrightarrow> chan_inv s \<Longrightarrow> chan_inv t"
  by (erule refresh_exec_cases) (auto simp: chan_inv_def)

lemma chan_inv_wake: "chan_inv s \<Longrightarrow> chan_inv (session_wake s)"
  by (cases "active s"; cases "stop s")
    (auto simp: session_wake_def refresh_simps chan_inv_def less_Suc_eq)

lemma chan_inv_sleep: "chan_inv s \<Longrightarrow> chan_inv (session_sleep s)"
  by (auto simp: session_sleep_def refresh_simps chan_inv_def split: option.splits)

text \<open>
  The generation guard. Its \<open>uint64\<close> counts the ended sessions modulo \<open>2^64\<close>; as long
  as it has not wrapped, an entry was fetched in the session it is stored in, and after the
  end of a session the cache is empty and every fetch still under way is of a past one.
\<close>

definition unstored :: "fetch \<Rightarrow> bool" where
  "unstored f \<longleftrightarrow> fetch_pc f \<noteq> Stored \<and> fetch_pc f \<noteq> Removed"

definition gen_counts :: "rsys \<Rightarrow> bool" where
  "gen_counts s \<longleftrightarrow> gen s = of_nat (ended s) \<and>
     (\<forall>c f. fetches s c = Some f \<longrightarrow>
        fetch_gen f = of_nat (fetch_session f) \<and> fetch_session f \<le> ended s)"

definition gen_guards :: "rsys \<Rightarrow> bool" where
  "gen_guards s \<longleftrightarrow>
     (\<forall>k. entries s k \<noteq> None \<longrightarrow> born s k = Some (ended s)) \<and>
     (stop_is_closed s \<longrightarrow> entries s = Map.empty \<and>
        (\<forall>c f. fetches s c = Some f \<longrightarrow> unstored f \<longrightarrow> fetch_session f < ended s))"

definition gen_inv :: "rsys \<Rightarrow> bool" where
  "gen_inv s \<longleftrightarrow> gen_counts s \<and> (ended s < 2 ^ 64 \<longrightarrow> gen_guards s)"

lemma stop_is_closed_get [simp]: "stop_is_closed (call_get bg k s) = stop_is_closed s"
  by (simp add: stop_is_closed_def split: option.split)

text \<open>Entering get starts at most one fetch, of the current session, and none after its end.\<close>

lemma call_get_fetch:
  assumes "fetches (call_get bg k s) c = Some f"
  obtains "fetches s c = Some f"
  | "fetch_gen f = gen s" "fetch_session f = ended s" "fetch_key f = k" "\<not> stop_is_closed s"
  using assms by (cases bg k s rule: call_get_cases) (auto split: if_splits)

lemma gen_inv_get: "gen_inv s \<Longrightarrow> gen_inv (call_get bg k s)"
  by (auto simp: gen_inv_def gen_counts_def gen_guards_def elim!: call_get_fetch)

lemma gen_match:
  assumes "gen_counts s" "ended s < 2 ^ 64" "fetches s c = Some f" "fetch_gen f = gen s"
  shows "fetch_session f = ended s"
proof (rule of_nat_word64_inj)
  have le: "fetch_session f \<le> ended s" using assms(1,3) by (simp add: gen_counts_def)
  then show "fetch_session f < 2 ^ 64" using assms(2) by (rule le_less_trans)
qed (use assms in \<open>auto simp: gen_counts_def\<close>)

lemma gen_counts_exec:
  "refresh_exec a s = Some t \<Longrightarrow> gen_counts s \<Longrightarrow> gen_counts t"
proof (erule refresh_exec_cases)
  fix ch k ks ns assume "gen_counts s"
    and t: "t = (call_get True k s)\<lparr>loops := (loops (call_get True k s))
             (ch \<mapsto> LoopRound (remove1 k ks) (next_caller s # ns))\<rparr>"
  then show "gen_counts t"
    by (auto simp: gen_counts_def elim!: call_get_fetch)
qed (auto simp: gen_counts_def)

lemma gen_guards_exec:
  assumes step: "refresh_exec a s = Some t" and counts: "gen_counts s"
    and small: "ended s < 2 ^ 64" and inv: "gen_guards s"
  shows "gen_guards t"
proof -
  have open_eq: "stop_is_closed t = stop_is_closed s"
    by (simp add: stop_is_closed_def refresh_exec_frame [OF step] split: option.split)
  show ?thesis using step
  proof (cases rule: refresh_exec_cases)
    case (store c f b st)
    have now: "fetch_session f = ended s" by (rule gen_match [OF counts small store(2,4)])
    moreover have "unstored f" using store(3) by (simp add: unstored_def)
    ultimately have "\<not> stop_is_closed s" using inv store(2) by (fastforce simp: gen_guards_def)
    with inv store now open_eq show ?thesis by (auto simp: gen_guards_def)
  next
    case (spawn ch k ks ns)
    then show ?thesis using inv open_eq by (auto simp: gen_guards_def elim!: call_get_fetch)
  qed (use inv open_eq in \<open>auto simp: gen_guards_def unstored_def\<close>)
qed

lemma gen_inv_exec: "refresh_exec a s = Some t \<Longrightarrow> gen_inv s \<Longrightarrow> gen_inv t"
  using refresh_exec_frame(8) [of a s t] by (auto simp: gen_inv_def gen_counts_exec gen_guards_exec)

lemma gen_inv_wake: "chan_inv s \<Longrightarrow> gen_inv s \<Longrightarrow> gen_inv (session_wake s)"
  by (cases "active s")
    (auto simp: session_wake_def refresh_simps gen_inv_def gen_counts_def gen_guards_def
       chan_inv_def stop_is_closed_def)

lemma gen_inv_sleep: "gen_inv s \<Longrightarrow> gen_inv (session_sleep s)"
  by (auto simp: session_sleep_def refresh_simps gen_inv_def gen_counts_def gen_guards_def
       stop_is_closed_def less_Suc_eq_le le_SucI split: option.splits)

end
