(* ===== verification/RefresherAlone.thy ===== *)
theory RefresherAlone
  imports Refresher
begin

text \<open>
  The refresher under one caller: the time-to-live of an entry as a refinement of an
  abstract throttle, the choice of \<open>refreshAll\<close>, and the answers after a session's end.
\<close>

section \<open>The throttle\<close>

text \<open>
  What a cache with time-to-live \<open>d\<close> promises a series of calls: the producer runs only
  when its last run ended \<open>d\<close> ago or more, and otherwise its last result is repeated.
  A call is the instant it enters and the instant at which a producer it starts reads.
\<close>

fun throttled ::
  "duration \<Rightarrow> producer \<Rightarrow> instant option \<Rightarrow> (instant \<times> instant) list \<Rightarrow> (body \<times> status) option list"
where
  "throttled d p prev [] = []"
| "throttled d p prev ((now, later) # cs) =
     (case prev of
        Some t \<Rightarrow> if now - t < d then Some (p t) # throttled d p prev cs
                  else Some (p later) # throttled d p (Some later) cs
      | None \<Rightarrow> Some (p later) # throttled d p (Some later) cs)"

fun gets_alone ::
  "(instant \<times> instant) list \<Rightarrow> key \<Rightarrow> refresher \<Rightarrow> (body \<times> status) option list" where
  "gets_alone [] k r = []"
| "gets_alone ((now, later) # cs) k r =
     (let (a, r') = get_alone now later k r in a # gets_alone cs k r')"

definition entry_of :: "producer \<Rightarrow> instant \<Rightarrow> refreshEntry" where
  "entry_of p t = \<lparr>entry_body = fst (p t), entry_status = snd (p t), entry_fetched = t\<rparr>"

lemma get_alone_hit:
  assumes "entries r k = Some (entry_of p t)" "now - t < ttl_of k r"
  shows "get_alone now later k r = (Some (p t), r)"
  using assms by (simp add: get_alone_def get_locked_def entry_of_def)

lemma get_alone_miss:
  assumes "producers r k = Some p" "inflight r k = None" "\<not> stop_is_closed r"
    and "\<And>e. entries r k = Some e \<Longrightarrow> ttl_of k r \<le> now - entry_fetched e"
  obtains r' where "get_alone now later k r = (Some (p later), r')"
    "entries r' = (entries r)(k \<mapsto> entry_of p later)" "inflight r' = inflight r"
    "producers r' = producers r" "stop_is_closed r' = stop_is_closed r" "ttls r' = ttls r"
proof (rule that)
  let ?r1 = "r\<lparr>calls := (calls r)(next_call r \<mapsto> \<lparr>call_body = [], call_status = 0, call_done = False\<rparr>),
      next_call := Suc (next_call r), inflight := (inflight r)(k \<mapsto> next_call r)\<rparr>"
  have "get_locked now k r = (StartCall (next_call r), ?r1)"
    using assms by (cases rule: get_locked_cases [of r k now]) fastforce+
  then show "get_alone now later k r = (Some (p later), fetch_close (next_call r)
      (fetch_remove k (fetch_publish (next_call r) (fst (p later)) (snd (p later))
        (fetch_store (gen r) k (fst (p later)) (snd (p later)) later ?r1))))"
    using assms(1) by (simp add: get_alone_def split_beta Let_def)
qed (use assms(2) in \<open>auto simp: fetch_close_def fetch_remove_def fetch_publish_def
    fetch_store_def entry_of_def stop_is_closed_def fun_eq_iff split: option.split\<close>)

lemma gets_alone_throttled:
  "producers r k = Some p \<Longrightarrow> inflight r k = None \<Longrightarrow> \<not> stop_is_closed r \<Longrightarrow>
   entries r k = map_option (entry_of p) prev \<Longrightarrow>
   gets_alone cs k r = throttled (ttl_of k r) p prev cs"
proof (induction cs arbitrary: r prev)
  case Nil
  show ?case by simp
next
  case (Cons c cs)
  obtain now later where c: "c = (now, later)" by fastforce
  show ?case
  proof (cases "\<exists>t. prev = Some t \<and> now - t < ttl_of k r")
    case True
    then obtain t where t: "prev = Some t" "now - t < ttl_of k r" by blast
    then have "get_alone now later k r = (Some (p t), r)"
      using Cons.prems(4) by (intro get_alone_hit) auto
    with t Cons show ?thesis by (simp add: c)
  next
    case False
    then have stale: "entries r k = Some e \<Longrightarrow> ttl_of k r \<le> now - entry_fetched e" for e
      using Cons.prems(4) by (auto simp: entry_of_def)
    obtain r' where r': "get_alone now later k r = (Some (p later), r')"
      "entries r' = (entries r)(k \<mapsto> entry_of p later)" "inflight r' = inflight r"
      "producers r' = producers r" "stop_is_closed r' = stop_is_closed r" "ttls r' = ttls r"
      using get_alone_miss [OF Cons.prems(1-3) stale] by blast
    have "gets_alone cs k r' = throttled (ttl_of k r') p (Some later) cs"
      using r' Cons.prems by (intro Cons.IH) auto
    moreover have "ttl_of k r' = ttl_of k r" using r'(6) by (simp add: ttl_of_def)
    ultimately show ?thesis using r'(1) False by (auto simp: c split: option.split)
  qed
qed

section \<open>Guarantees\<close>

text \<open>A producer for the concrete instances: it shows at which instant it has read.\<close>

definition sample_producers :: "key \<rightharpoonup> producer" where
  "sample_producers = [''arc'' \<mapsto> \<lambda>t. (if t < 7 * second then ''a'' else ''b'', StatusOK)]"

text \<open>
  Property C15: the cache is a throttle. In a freshly started session, a series of calls of
  one key that do not overlap returns exactly what the abstract throttle with that key's
  TTL returns: the producer runs at most once per TTL, and every call in between gets the
  last result.
\<close>

theorem session_throttles:
  assumes "ps k = Some p"
  shows "gets_alone cs k (fst (setActive True (newRefresher ps))) =
    throttled (ttl_of k (newRefresher ps)) p None cs"
proof -
  have "gets_alone cs k (fst (setActive True (newRefresher ps))) =
    throttled (ttl_of k (fst (setActive True (newRefresher ps)))) p None cs"
    using assms by (intro gets_alone_throttled)
      (simp_all add: newRefresher_def refresh_simps stop_is_closed_def)
  then show ?thesis by (simp add: newRefresher_def refresh_simps ttl_of_def)
qed

lemma session_throttles_witness:
  "gets_alone [(0, 1), (5 * second, 6 * second), (7 * second, 8 * second)] ''arc''
     (fst (setActive True (newRefresher sample_producers))) =
   [Some (''a'', 200), Some (''a'', 200), Some (''b'', 200)]"
  by (subst session_throttles [of sample_producers "''arc''", OF sample_producers_def [THEN fun_cong,
        THEN trans, OF fun_upd_same]])
    (simp add: ttl_of_def newRefresher_def arcTTL_def second_def StatusOK_def)

text \<open>
  RefreshAll picks exactly the keys a get would not answer from the cache.
  For the keys with a TTL, at the instant at which the round starts: a key left out is
  answered by its entry, and a key picked is not.
\<close>

theorem refreshAll_picks_stale:
  assumes "k \<in> set (map fst (ttls r))" and "distinct (map fst (ttls r))"
  shows "k \<notin> set (refreshAll_keys now r) \<longleftrightarrow>
    (\<exists>e. entries r k = Some e \<and> now - entry_fetched e < ttl_of k r \<and>
       get_locked now k r = (AnswerNow (entry_body e) (entry_status e), r))"
proof -
  obtain d where d: "(k, d) \<in> set (ttls r)" using assms(1) by auto
  have one: "ttl = d" if "(k, ttl) \<in> set (ttls r)" for ttl
    using assms(2) d that by (metis map_of_is_SomeI option.inject)
  have ttl: "ttl_of k r = d" using assms(2) d by (simp add: ttl_of_def)
  have "k \<in> set (refreshAll_keys now r) \<longleftrightarrow>
      (\<forall>e. entries r k = Some e \<longrightarrow> d \<le> now - entry_fetched e)"
    unfolding refreshAll_keys_iff using d one by blast
  then show ?thesis
    by (cases "entries r k") (simp_all add: get_locked_def ttl not_le)
qed

lemma refreshAll_picks_stale_witness:
  "''smart'' \<in> set (refreshAll_keys 3 (newRefresher sample_producers))"
  using refreshAll_picks_stale [of "''smart''" "newRefresher sample_producers" 3]
  by (simp add: newRefresher_def)

text \<open>
  After a session has ended, a get starts nothing. It joins a fetch that is
  still under way, or answers 404 for a key with no producer and 503 for any other; no
  cached body of the session is served any more, whatever the clock says.
\<close>

theorem ended_session_refuses:
  assumes "stop r \<noteq> None"
  shows "fst (get_locked now k (fst (setActive False r))) =
    (case inflight r k of
       Some c \<Rightarrow> JoinCall c
     | None \<Rightarrow> if producers r k = None
               then AnswerNow (errBody ''unknown endpoint'') StatusNotFound
               else AnswerNow (errBody ''session ended'') StatusServiceUnavailable)"
  using assms by (auto simp: refresh_simps get_locked_def stop_is_closed_def split: option.split)

lemma ended_session_refuses_witness:
  "fst (get_locked 9 ''arc'' (fst (setActive False (fst (setActive True
     (newRefresher sample_producers)))))) =
   AnswerNow (errBody ''session ended'') StatusServiceUnavailable"
  by (subst ended_session_refuses) (simp_all add: refresh_simps newRefresher_def sample_producers_def)

end
