(* ===== verification/RefresherGuarantees.thy ===== *)
theory RefresherGuarantees
  imports RefresherSafety RefresherAlone
begin

text \<open>
  What the refresher promises, over every reachable interleaving: one fetch per key at a
  time, no response that no producer made, no entry of a past session, an empty cache and
  no new fetch after a session has ended, and a waiter that the fetch it waits for always
  releases. Without interleaving: the time-to-live of an entry.
\<close>

section \<open>All invariants together\<close>

definition refresh_inv :: "rsys \<Rightarrow> bool" where
  "refresh_inv s \<longleftrightarrow> call_inv s \<and> made_inv s \<and> chan_inv s \<and> gen_inv s"

lemma refresh_inv_get: "refresh_inv s \<Longrightarrow> refresh_inv (call_get bg k s)"
  by (simp add: refresh_inv_def call_inv_get made_inv_get chan_inv_get gen_inv_get)

lemma refresh_inv_exec: "refresh_exec a s = Some t \<Longrightarrow> refresh_inv s \<Longrightarrow> refresh_inv t"
  unfolding refresh_inv_def by (meson call_inv_exec made_inv_exec chan_inv_exec gen_inv_exec)

lemma refresh_inv_wake: "refresh_inv s \<Longrightarrow> refresh_inv (session_wake s)"
  by (simp add: refresh_inv_def call_inv_wake made_inv_wake chan_inv_wake gen_inv_wake)

lemma refresh_inv_sleep: "refresh_inv s \<Longrightarrow> refresh_inv (session_sleep s)"
  by (simp add: refresh_inv_def call_inv_sleep made_inv_sleep chan_inv_sleep gen_inv_sleep)

lemma refresh_inv_move: "refresh_move m s = Some t \<Longrightarrow> refresh_inv s \<Longrightarrow> refresh_inv t"
  by (cases m) (auto simp: request_get_def
      intro: refresh_inv_exec refresh_inv_get refresh_inv_wake refresh_inv_sleep)

lemma refresh_inv_start: "refresh_inv (rsys_start ps t)"
  by (simp add: refresh_inv_def call_inv_defs made_inv_defs chan_inv_def gen_inv_def
      gen_counts_def gen_guards_def stop_is_closed_def rsys_start_def newRefresher_def
      refresher.extend_def rsys.fields_def)

lemma refresh_reach_inv: "refresh_reach (rsys_start ps t0) s \<Longrightarrow> refresh_inv s"
  by (induction rule: refresh_reach.induct) (auto intro: refresh_inv_start refresh_inv_move)

lemma refresh_reach_producers: "refresh_reach (rsys_start ps t0) s \<Longrightarrow> producers s = ps"
proof (induction rule: refresh_reach.induct)
  case refresh_start
  show ?case by (simp add: rsys_start_def newRefresher_def refresher.extend_def rsys.fields_def)
next
  case (refresh_step s m t)
  then show ?case
    by (cases m) (auto simp: request_get_def session_wake_def session_sleep_def setActive_def Let_def
        dest: refresh_exec_frame(1) split: option.splits if_splits)
qed

text \<open>Entering get with a known key and an open session: a cached answer, or a fetch to wait for.\<close>

lemma call_get_admitted:
  assumes "refresh_inv s" and "producers s k \<noteq> None" and "\<not> stop_is_closed s"
  shows "(\<exists>e. entries s k = Some e \<and> answers (call_get bg k s) (next_caller s) =
      Some (k, entry_body e, entry_status e)) \<or>
    (\<exists>w f. waiters (call_get bg k s) (next_caller s) = Some w \<and> waiter_key w = k \<and>
      fetches (call_get bg k s) (waiter_call w) = Some f \<and> fetch_key f = k \<and> fetch_pc f \<noteq> Removed)"
proof (cases rule: get_locked_cases [of s k "rclock s"])
  case (hit e)
  then show ?thesis by (simp add: call_get_def Let_def)
next
  case (join c)
  with call_inv_inflightD [of s k c] assms(1) show ?thesis
    by (auto simp: call_get_def Let_def refresh_inv_def)
qed (use assms in \<open>simp_all add: call_get_def Let_def\<close>)

section \<open>A waiter is released\<close>

text \<open>
  The steps still ahead of the fetch goroutine of call \<open>c\<close>, and then of the caller \<open>n\<close>
  that waits for it. They are steps of these two goroutines alone.
\<close>

fun release :: "nat \<Rightarrow> nat \<Rightarrow> fetch_pc option \<Rightarrow> ract list" where
  "release c n (Some Running) = [RProduce c, RStore c, RRemove c, RClose c, RDone n]"
| "release c n (Some (Produced b st)) = [RStore c, RRemove c, RClose c, RDone n]"
| "release c n (Some Stored) = [RRemove c, RClose c, RDone n]"
| "release c n (Some Removed) = [RClose c, RDone n]"
| "release c n None = [RDone n]"


definition releases :: "rsys \<Rightarrow> nat \<Rightarrow> key \<Rightarrow> ract list \<Rightarrow> rsys \<Rightarrow> bool" where
  "releases s n k as t \<longleftrightarrow> refresh_run (map Work as) s = Some t \<and>
     loops t = loops s \<and> chan_closed t = chan_closed s \<and> waiters t = (waiters s)(n := None) \<and>
     (\<exists>b st. answers t n = Some (k, b, st) \<and> made s k b st)"

lemma releases_step:
  assumes "refresh_exec a s = Some s'" and "releases s' n k as t"
    and "loops s' = loops s" "waiters s' = waiters s" "rclock s' = rclock s"
  shows "releases s n k (a # as) t"
  using assms refresh_exec_frame(1,6) [OF assms(1)] by (simp add: releases_def made_def)

lemma released_done:
  assumes "refresh_inv s" and w: "waiters s n = Some w" and "fetches s (waiter_call w) = None"
  shows "\<exists>t. releases s n (waiter_key w) [RDone n] t"
proof -
  obtain fc where fc: "calls s (waiter_call w) = Some fc" "call_done fc"
    using assms by (fastforce simp: refresh_inv_def call_inv_def waiters_ok_def)
  with assms have "made s (waiter_key w) (call_body fc) (call_status fc)"
    by (auto simp: refresh_inv_def made_inv_def awaited_made_def)
  with fc w show ?thesis by (simp add: releases_def answer_def)
qed

lemma released_removed:
  assumes inv: "refresh_inv s" and w: "waiters s n = Some w" "waiter_call w = c"
    and f: "fetches s c = Some f" "fetch_pc f = Removed"
  shows "\<exists>t. releases s n (waiter_key w) [RClose c, RDone n] t"
proof -
  define s' where "s' = (fetch_close c s)\<lparr>fetches := (fetches s)(c := None)\<rparr>"
  have step: "refresh_exec (RClose c) s = Some s'" using f by (simp add: on_fetch_def s'_def)
  have same: "loops s' = loops s" "waiters s' = waiters s" "rclock s' = rclock s" "fetches s' c = None"
    by (simp_all add: s'_def fetch_close_def)
  from released_done [OF refresh_inv_exec [OF step inv]] w same
  obtain t where "releases s' n (waiter_key w) [RDone n] t" by auto
  from releases_step [OF step this same(1-3)] show ?thesis by blast
qed

lemma released_stored:
  assumes inv: "refresh_inv s" and w: "waiters s n = Some w" "waiter_call w = c"
    and f: "fetches s c = Some f" "fetch_pc f = Stored"
  shows "\<exists>t. releases s n (waiter_key w) [RRemove c, RClose c, RDone n] t"
proof -
  define s' where "s' = set_pc c f Removed (fetch_remove (fetch_key f) s)"
  have step: "refresh_exec (RRemove c) s = Some s'" using f by (simp add: on_fetch_def s'_def)
  have same: "loops s' = loops s" "waiters s' = waiters s" "rclock s' = rclock s"
    "fetches s' c = Some (f\<lparr>fetch_pc := Removed\<rparr>)"
    by (simp_all add: s'_def set_pc_def fetch_remove_def)
  from released_removed [OF refresh_inv_exec [OF step inv] _ w(2) same(4)] w same
  obtain t where "releases s' n (waiter_key w) [RClose c, RDone n] t" by auto
  from releases_step [OF step this same(1-3)] show ?thesis by blast
qed

lemma released_produced:
  assumes inv: "refresh_inv s" and w: "waiters s n = Some w" "waiter_call w = c"
    and f: "fetches s c = Some f" "fetch_pc f = Produced b st"
  shows "\<exists>t. releases s n (waiter_key w) [RStore c, RRemove c, RClose c, RDone n] t"
proof -
  obtain s' where step: "refresh_exec (RStore c) s = Some s'"
    using f by (simp add: on_fetch_def Let_def)
  then have same: "loops s' = loops s" "waiters s' = waiters s" "rclock s' = rclock s"
    "fetches s' c = Some (f\<lparr>fetch_pc := Stored\<rparr>)"
    using f by (auto simp: on_fetch_def set_pc_def fetch_store_def fetch_publish_def Let_def)
  from released_stored [OF refresh_inv_exec [OF step inv] _ w(2) same(4)] w same
  obtain t where "releases s' n (waiter_key w) [RRemove c, RClose c, RDone n] t" by auto
  from releases_step [OF step this same(1-3)] show ?thesis by blast
qed

lemma released_running:
  assumes inv: "refresh_inv s" and w: "waiters s n = Some w" "waiter_call w = c"
    and f: "fetches s c = Some f" "fetch_pc f = Running"
  shows "\<exists>t. releases s n (waiter_key w) [RProduce c, RStore c, RRemove c, RClose c, RDone n] t"
proof -
  obtain p where p: "producers s (fetch_key f) = Some p"
    using inv f by (fastforce simp: refresh_inv_def call_inv_def fetches_ok_def)
  define s' where "s' = set_pc c f (Produced (fst (p (rclock s))) (snd (p (rclock s)))) s"
  have step: "refresh_exec (RProduce c) s = Some s'" using f p by (simp add: on_fetch_def s'_def)
  have same: "loops s' = loops s" "waiters s' = waiters s" "rclock s' = rclock s"
    "fetches s' c = Some (f\<lparr>fetch_pc := Produced (fst (p (rclock s))) (snd (p (rclock s)))\<rparr>)"
    by (simp_all add: s'_def set_pc_def)
  from released_produced [OF refresh_inv_exec [OF step inv] _ w(2) same(4)] w same
  obtain t where "releases s' n (waiter_key w) [RStore c, RRemove c, RClose c, RDone n] t" by auto
  from releases_step [OF step this same(1-3)] show ?thesis by blast
qed

lemma waiter_release:
  assumes inv: "refresh_inv s" and w: "waiters s n = Some w"
  shows "\<exists>t. releases s n (waiter_key w)
    (release (waiter_call w) n (map_option fetch_pc (fetches s (waiter_call w)))) t"
proof (cases "fetches s (waiter_call w)")
  case None
  with released_done [OF inv w] show ?thesis by simp
next
  case (Some f)
  then show ?thesis
    using released_running [OF inv w refl Some] released_produced [OF inv w refl Some]
      released_stored [OF inv w refl Some] released_removed [OF inv w refl Some]
    by (cases "fetch_pc f") simp_all
qed

section \<open>A loop runs its round and exits\<close>

lemma refresh_run_append:
  "refresh_run ms s = Some t \<Longrightarrow> refresh_run (ms @ ms') s = refresh_run ms' t"
  by (induction ms arbitrary: s) (auto split: option.splits)

lemma refresh_inv_run: "refresh_run ms s = Some t \<Longrightarrow> refresh_inv s \<Longrightarrow> refresh_inv t"
  by (induction ms arbitrary: s) (auto split: option.splits dest: refresh_inv_move)

definition loop_leads :: "nat \<Rightarrow> loop_pc option \<Rightarrow> rsys \<Rightarrow> bool" where
  "loop_leads ch l s \<longleftrightarrow> (\<exists>as t. refresh_run (map Work as) s = Some t \<and>
     chan_closed t = chan_closed s \<and> loops t ch = l)"

lemma loop_leads_trans:
  assumes "refresh_run (map Work as) s = Some t" "chan_closed t = chan_closed s" "loop_leads ch l t"
  shows "loop_leads ch l s"
proof -
  obtain as' u where "refresh_run (map Work as') t = Some u" "chan_closed u = chan_closed t"
    "loops u ch = l" using assms(3) by (auto simp: loop_leads_def)
  moreover from this refresh_run_append [OF assms(1), of "map Work as'"]
  have "refresh_run (map Work (as @ as')) s = Some u" by simp
  ultimately show ?thesis unfolding loop_leads_def using assms(2) by metis
qed

lemma loop_leads_here: "loops s ch = l \<Longrightarrow> loop_leads ch l s"
  unfolding loop_leads_def by (intro exI [of _ "[]"] exI [of _ s]) simp

text \<open>Waiting for the callers of a round: those that are still waiting are released.\<close>

lemma loop_awaits:
  "refresh_inv s \<Longrightarrow> loops s ch = Some (LoopRound [] ms) \<Longrightarrow>
   (\<forall>n \<in> set ms - set ns. waiters s n = None) \<Longrightarrow> loop_leads ch (Some LoopSelect) s"
proof (induction ns arbitrary: s)
  case Nil
  then have "refresh_run (map Work [RAwait ch]) s = Some (s\<lparr>loops := (loops s)(ch \<mapsto> LoopSelect)\<rparr>)"
    by (simp add: list_all_iff)
  then show ?case
    by (rule loop_leads_trans [OF _ _ loop_leads_here]) simp_all
next
  case (Cons n ns)
  show ?case
  proof (cases "waiters s n")
    case None
    with Cons.prems show ?thesis by (intro Cons.IH) auto
  next
    case (Some w)
    then obtain as t where t: "releases s n (waiter_key w) as t"
      using waiter_release Cons.prems(1) by blast
    then have run: "refresh_run (map Work as) s = Some t" by (simp add: releases_def)
    have "loop_leads ch (Some LoopSelect) t"
      using t Cons.prems refresh_inv_run [OF run]
      by (intro Cons.IH) (auto simp: releases_def)
    with loop_leads_trans [OF run] t show ?thesis by (simp add: releases_def)
  qed
qed

lemma loop_spawns:
  "refresh_inv s \<Longrightarrow> loops s ch = Some (LoopRound ks ns) \<Longrightarrow> loop_leads ch (Some LoopSelect) s"
proof (induction ks arbitrary: s ns)
  case Nil
  then show ?case by (intro loop_awaits [where ns = ns]) auto
next
  case (Cons k ks)
  define t where "t = (call_get True k s)\<lparr>loops := (loops s)(ch \<mapsto> LoopRound ks (next_caller s # ns))\<rparr>"
  have step: "refresh_exec (RSpawn ch k) s = Some t" using Cons.prems(2) by (simp add: t_def Let_def)
  have "loop_leads ch (Some LoopSelect) t"
    by (rule Cons.IH [OF refresh_inv_exec [OF step Cons.prems(1)]]) (simp add: t_def)
  then show ?case
    using step by (intro loop_leads_trans [of "[RSpawn ch k]" s t]) (simp_all add: t_def)
qed

lemma loop_selects:
  assumes "refresh_inv s" and "loops s ch \<noteq> None"
  shows "loop_leads ch (Some LoopSelect) s"
proof -
  consider "loops s ch = Some LoopRefresh" | ks ns where "loops s ch = Some (LoopRound ks ns)"
    | "loops s ch = Some LoopSelect" using assms(2) by (metis loop_pc.exhaust option.exhaust)
  then show ?thesis
  proof cases
    case 1
    define t where "t = s\<lparr>loops := (loops s)(ch \<mapsto> LoopRound (refreshAll_keys (rclock s) s) [])\<rparr>"
    have step: "refresh_exec (RCollect ch) s = Some t" using 1 by (simp add: t_def)
    have "loop_leads ch (Some LoopSelect) t"
      by (rule loop_spawns [OF refresh_inv_exec [OF step assms(1)]]) (simp add: t_def)
    then show ?thesis
      using step by (intro loop_leads_trans [of "[RCollect ch]" s t]) (simp_all add: t_def)
  next
    case 2
    then show ?thesis by (rule loop_spawns [OF assms(1)])
  next
    case 3
    then show ?thesis by (rule loop_leads_here)
  qed
qed

lemma loop_exits:
  assumes inv: "refresh_inv s" and l: "loops s ch \<noteq> None" and closed: "ch \<in> chan_closed s"
  shows "loop_leads ch None s"
proof -
  obtain as t where t: "refresh_run (map Work as) s = Some t" "chan_closed t = chan_closed s"
    "loops t ch = Some LoopSelect" using loop_selects [OF inv l] by (auto simp: loop_leads_def)
  have "refresh_run (map Work [RStop ch]) t = Some (t\<lparr>loops := (loops t)(ch := None)\<rparr>)"
    using t closed by simp
  then have "loop_leads ch None t"
    by (rule loop_leads_trans [OF _ _ loop_leads_here]) simp_all
  with t show ?thesis by (intro loop_leads_trans [OF t(1,2)])
qed

section \<open>Guarantees\<close>

text \<open>
  A run for the concrete instances: a session starts, its loop collects the four keys and
  gets \<open>arc\<close>, a request joins that fetch, and the producer returns. It goes on in two
  ways: the result is stored and both callers are answered, or the session ends before
  the result is stored, and a request for a key without a producer is refused.
\<close>

definition sample_start :: rsys where
  "sample_start = rsys_start sample_producers 0"

definition sample_moves :: "rmove list" where
  "sample_moves = [WakeUp, Work (RCollect 0), Work (RSpawn 0 ''arc''), Enter ''arc'',
     Work (RElapse 3), Work (RProduce 0)]"

definition sample_served :: "rmove list" where
  "sample_served = sample_moves @ map Work [RStore 0, RRemove 0, RClose 0, RDone 0, RDone 1]"

definition sample_ended :: "rmove list" where
  "sample_ended = sample_moves @ [GoToSleep, Enter ''smart'']"

definition after_moves :: "rmove list \<Rightarrow> rsys" where
  "after_moves ms = the (refresh_run ms sample_start)"

lemma after_moves_reach:
  "refresh_run ms sample_start \<noteq> None \<Longrightarrow>
   refresh_reach (rsys_start sample_producers 0) (after_moves ms)"
  unfolding after_moves_def sample_start_def
  by (metis option.collapse refresh_run_reach refresh_start)

lemma sample_reach:
  "refresh_reach (rsys_start sample_producers 0) (after_moves sample_moves)"
  "refresh_reach (rsys_start sample_producers 0) (after_moves sample_served)"
  "refresh_reach (rsys_start sample_producers 0) (after_moves sample_ended)"
  by (rule after_moves_reach, code_simp)+

text \<open>
  Property C5: single flight. In every reachable interleaving of requests, the background
  loop, session starts and session ends, at most one fetch of a key is under way (from
  the registration in \<open>inflight\<close> to the deferred removal).
\<close>

theorem single_flight:
  assumes "refresh_reach (rsys_start ps t0) s"
    and "fetches s c = Some f" and "fetches s c' = Some f'"
    and "fetch_key f = fetch_key f'" and "fetch_pc f \<noteq> Removed" and "fetch_pc f' \<noteq> Removed"
  shows "c = c'"
  using refresh_reach_inv [OF assms(1)] assms(2-) call_inv_fetchD(3) [of s c f]
    call_inv_fetchD(3) [of s c' f'] by (simp add: refresh_inv_def)

lemma single_flight_witness:
  "\<exists>f. fetches (after_moves sample_moves) 0 = Some f \<and> fetch_pc f \<noteq> Removed \<and>
     (\<forall>c' f'. fetches (after_moves sample_moves) c' = Some f' \<and> fetch_key f = fetch_key f' \<and>
        fetch_pc f' \<noteq> Removed \<longrightarrow> 0 = c')"
proof -
  have "map_option fetch_pc (fetches (after_moves sample_moves) 0) =
    Some (Produced ''a'' 200)" by code_simp
  then obtain f where "fetches (after_moves sample_moves) 0 = Some f" "fetch_pc f \<noteq> Removed"
    by auto
  with single_flight [OF sample_reach(1)] show ?thesis by blast
qed

text \<open>
  Every response that get has returned to any caller was made by the
  producer registered for that key, at an instant that is not in the future, or is one of
  the three JSON error bodies that get writes itself (unknown endpoint, session ended,
  timed out), each with its status.
\<close>

theorem answers_are_made:
  assumes "refresh_reach (rsys_start ps t0) s" and "answers s n = Some (k, b, st)"
  shows "(\<exists>p t. ps k = Some p \<and> t \<le> rclock s \<and> p t = (b, st)) \<or> refusal s k b st"
  using refresh_reach_inv [OF assms(1)] refresh_reach_producers [OF assms(1)] assms(2)
  by (auto simp: refresh_inv_def made_inv_def answered_made_def made_def)

lemma answers_are_made_witness:
  "(\<exists>p t. sample_producers ''arc'' = Some p \<and> t \<le> rclock (after_moves sample_served) \<and>
      p t = (''a'', 200)) \<or> refusal (after_moves sample_served) ''arc'' ''a'' 200"
  by (rule answers_are_made [OF sample_reach(2), of 1]) code_simp

text \<open>
  Property C7: no entry crosses a session boundary. As long as fewer than \<open>2^64\<close> sessions
  have ended (the width of \<open>gen\<close>), every cached entry was fetched by a get of the
  current session, however late its producer returned; and once a session has ended and
  none has started since, the cache is empty.
\<close>

theorem cache_within_session:
  assumes "refresh_reach (rsys_start ps t0) s" and "ended s < 2 ^ 64"
  shows "(\<forall>k. entries s k \<noteq> None \<longrightarrow> born s k = Some (ended s)) \<and>
         (stop s \<noteq> None \<and> \<not> active s \<longrightarrow> entries s = Map.empty)"
proof -
  have "chan_inv s" "gen_guards s"
    using refresh_reach_inv [OF assms(1)] assms(2) by (simp_all add: refresh_inv_def gen_inv_def)
  then show ?thesis by (auto simp: gen_guards_def chan_inv_def stop_is_closed_def)
qed

lemma cache_within_session_witness:
  "entries (after_moves sample_served) ''arc'' \<noteq> None \<and>
   born (after_moves sample_served) ''arc'' = Some 0 \<and>
   entries (after_moves sample_ended) = Map.empty"
proof -
  have "entries (after_moves sample_served) ''arc'' \<noteq> None" "ended (after_moves sample_served) = 0"
    "ended (after_moves sample_ended) = 1" "stop (after_moves sample_ended) \<noteq> None"
    "\<not> active (after_moves sample_ended)" by code_simp+
  then show ?thesis
    using cache_within_session [OF sample_reach(2)] cache_within_session [OF sample_reach(3)]
    by auto
qed

text \<open>
  Property C10: after the end of a session no fetch starts. While no session is active and
  one has been, every move other than the start of a new session, be it a request, a
  committed tick of the old loop or another goroutine's step, leaves the set of fetches
  as it is or makes it smaller.
\<close>

theorem no_fetch_between_sessions:
  assumes "refresh_reach (rsys_start ps t0) s" and "stop s \<noteq> None" and "\<not> active s"
    and "refresh_move m s = Some t" and "m \<noteq> WakeUp"
  shows "dom (fetches t) \<subseteq> dom (fetches s)"
proof -
  have closed: "stop_is_closed s"
    using refresh_reach_inv [OF assms(1)] assms(2,3)
    by (auto simp: refresh_inv_def chan_inv_def stop_is_closed_def)
  have got: "dom (fetches (call_get bg k s)) \<subseteq> dom (fetches s)" for bg k
    using closed by (auto elim!: call_get_fetch)
  show ?thesis
  proof (cases m)
    case (Work a)
    with assms(4) have "refresh_exec a s = Some t" by simp
    then show ?thesis
      by (cases rule: refresh_exec_cases) (use got in \<open>auto simp: domIff\<close>)
  next
    case (Enter k)
    with assms(4) got [of False k] show ?thesis by (simp add: request_get_def)
  next
    case GoToSleep
    with assms(4) show ?thesis by (auto simp: session_sleep_def refresh_simps)
  qed (use assms(5) in simp)
qed

lemma no_fetch_between_sessions_witness:
  "\<exists>t. refresh_move (Enter ''zpool'') (after_moves sample_ended) = Some t \<and>
     dom (fetches t) \<subseteq> dom (fetches (after_moves sample_ended))"
proof -
  have "stop (after_moves sample_ended) \<noteq> None" "\<not> active (after_moves sample_ended)"
    by code_simp+
  with no_fetch_between_sessions [OF sample_reach(3), of "Enter ''zpool''"]
  show ?thesis by (simp add: request_get_def)
qed

text \<open>
  Property C20: at most one refresh loop is live. Two loops whose stop channels are both
  open are the same loop, and then its session is active: every loop of an earlier session
  has been told to stop.
\<close>

theorem one_live_loop:
  assumes "refresh_reach (rsys_start ps t0) s"
    and "loops s ch \<noteq> None" and "ch \<notin> chan_closed s"
    and "loops s ch' \<noteq> None" and "ch' \<notin> chan_closed s"
  shows "ch = ch' \<and> active s \<and> stop s = Some ch"
proof -
  have ci: "chan_inv s" using refresh_reach_inv [OF assms(1)] by (simp add: refresh_inv_def)
  have "stop s = Some ch" "stop s = Some ch'" using ci assms(2-) by (auto simp: chan_inv_def)
  moreover from this ci assms(3) have "active s" by (auto simp: chan_inv_def)
  ultimately show ?thesis by simp
qed

lemma one_live_loop_witness:
  "active (after_moves sample_moves) \<and> stop (after_moves sample_moves) = Some 0"
proof -
  have "loops (after_moves sample_moves) 0 \<noteq> None" "0 \<notin> chan_closed (after_moves sample_moves)"
    by code_simp+
  with one_live_loop [OF sample_reach(1), of 0 0] show ?thesis by simp
qed



text \<open>
  Property C14: the refresh loop is never stuck and never outlives its session for good.
  From every reachable state each loop can complete its round and come back to its select,
  whatever keys it still has to get and whichever callers it waits for; and when its stop
  channel has been closed it can then exit, with no help from requests or sessions.
\<close>

theorem refresh_loop_progress:
  assumes "refresh_reach (rsys_start ps t0) s" and "loops s ch \<noteq> None"
  shows "\<exists>as t. refresh_run (map Work as) s = Some t \<and>
    loops t ch = (if ch \<in> chan_closed s then None else Some LoopSelect)"
  using loop_selects [OF refresh_reach_inv [OF assms(1)] assms(2)]
    loop_exits [OF refresh_reach_inv [OF assms(1)] assms(2)]
  by (auto simp: loop_leads_def)

lemma refresh_loop_progress_witness:
  "\<exists>as t. refresh_run (map Work as) (after_moves sample_ended) = Some t \<and> loops t 0 = None"
proof -
  have "loops (after_moves sample_ended) 0 \<noteq> None" "0 \<in> chan_closed (after_moves sample_ended)"
    by code_simp+
  with refresh_loop_progress [OF sample_reach(3), of 0] show ?thesis by simp
qed

end
