(* ===== verification/Session.thy ===== *)
theory Session
  imports GateHooks RefresherGuarantees GoConv
begin

text \<open>
  The process as \<open>init\<close> of \<open>idle.go\<close> wires it: the callbacks of the gate are the runtime
  profile and the refresher's \<open>setActive\<close>. The interleaved gate of theory \<open>GateSteps\<close>
  runs with these callbacks on the interleaved refresher of theory \<open>RefresherSteps\<close>, and
  the interface \<open>session_hooks\<close> is interpreted here on the code's own definitions.

  Of the Go runtime the profile keeps the two settings, and what \<open>FreeOSMemory\<close> could not
  hand back: the keys whose bodies were still cached when it ran.
\<close>

section \<open>The runtime profile\<close>

record process =
  gomaxprocs :: int
  gcPercent :: int
  held_at_free :: "key set"
  cache :: rsys

definition envGOGC :: "string \<Rightarrow> int" where
  "envGOGC v =
     (if v = ''off'' then - 1
      else if v = [] then 100
      else case Atoi v of Some n \<Rightarrow> n | None \<Rightarrow> 100)"

text \<open>The runtime's own functions: \<open>GOMAXPROCS\<close> ignores an argument below one.\<close>

definition GOMAXPROCS :: "int \<Rightarrow> process \<Rightarrow> process" where
  "GOMAXPROCS n p = (if n < 1 then p else p\<lparr>gomaxprocs := n\<rparr>)"

definition SetGCPercent :: "int \<Rightarrow> process \<Rightarrow> process" where
  "SetGCPercent n p = p\<lparr>gcPercent := (if n < 0 then - 1 else n)\<rparr>"

definition FreeOSMemory :: "process \<Rightarrow> process" where
  "FreeOSMemory p = p\<lparr>held_at_free := dom (entries (cache p))\<rparr>"

definition runtimeWake :: "int \<Rightarrow> int \<Rightarrow> process \<Rightarrow> process" where
  "runtimeWake procs gc p = SetGCPercent gc (GOMAXPROCS procs p)"

definition runtimeSleep :: "process \<Rightarrow> process" where
  "runtimeSleep p = GOMAXPROCS 1 (FreeOSMemory (SetGCPercent (- 1) p))"

section \<open>The callbacks that init installs\<close>

definition sessions_wakeFn :: "int \<Rightarrow> int \<Rightarrow> process \<Rightarrow> process" where
  "sessions_wakeFn procs gc p =
     (let p1 = runtimeWake procs gc p in p1\<lparr>cache := session_wake (cache p1)\<rparr>)"

definition sessions_sleepFn :: "process \<Rightarrow> process" where
  "sessions_sleepFn p = runtimeSleep (p\<lparr>cache := session_sleep (cache p)\<rparr>)"

datatype cache_event = Goroutine ract | Get key

fun cache_background :: "cache_event \<Rightarrow> process \<Rightarrow> process option" where
  "cache_background (Goroutine a) p =
     map_option (\<lambda>r. p\<lparr>cache := r\<rparr>) (refresh_exec a (cache p))"
| "cache_background (Get k) p = None"

fun cache_request :: "cache_event \<Rightarrow> process \<Rightarrow> process option" where
  "cache_request (Get k) p = map_option (\<lambda>r. p\<lparr>cache := r\<rparr>) (request_get k (cache p))"
| "cache_request (Goroutine a) p = None"

definition process_start :: "(key \<rightharpoonup> producer) \<Rightarrow> instant \<Rightarrow> int \<Rightarrow> int \<Rightarrow> process" where
  "process_start ps t procs gc =
     \<lparr>gomaxprocs = procs, gcPercent = gc, held_at_free = {}, cache = rsys_start ps t\<rparr>"

lemmas process_defs = runtimeWake_def runtimeSleep_def GOMAXPROCS_def SetGCPercent_def
  FreeOSMemory_def sessions_wakeFn_def sessions_sleepFn_def Let_def

section \<open>The two profiles\<close>

definition awake_profile :: "int \<Rightarrow> int \<Rightarrow> process \<Rightarrow> bool" where
  "awake_profile procs gc p \<longleftrightarrow> refresh_inv (cache p) \<and> active (cache p) \<and>
     gomaxprocs p = max 1 procs \<and> gcPercent p = (if gc < 0 then - 1 else gc)"

definition never_ran :: "rsys \<Rightarrow> bool" where
  "never_ran s \<longleftrightarrow> fetches s = Map.empty \<and> loops s = Map.empty \<and> entries s = Map.empty"

definition parked_profile :: "process \<Rightarrow> bool" where
  "parked_profile p \<longleftrightarrow> refresh_inv (cache p) \<and> \<not> active (cache p) \<and>
     gomaxprocs p = 1 \<and> gcPercent p = - 1 \<and> held_at_free p = {} \<and>
     (stop (cache p) = None \<longrightarrow> never_ran (cache p))"

text \<open>Before the first session: no goroutine of the refresher, and nothing ever started.\<close>

definition untouched :: "rsys \<Rightarrow> bool" where
  "untouched s \<longleftrightarrow> fetches s = Map.empty \<and> waiters s = Map.empty \<and> answers s = Map.empty \<and>
     loops s = Map.empty \<and> next_call s = 0"

lemma session_sleep_fields:
  "\<not> active (session_sleep s)" "entries (session_sleep s) = Map.empty"
  "untouched s \<Longrightarrow> untouched (session_sleep s)"
  by (simp_all add: session_sleep_def refresh_simps untouched_def)

lemma session_wake_active: "active (session_wake s)"
  by (cases "active s") (simp_all add: session_wake_def refresh_simps)

lemma untouched_start: "untouched (rsys_start ps t)"
  by (simp add: untouched_def rsys_start_def newRefresher_def refresher.extend_def rsys.fields_def)

lemma untouched_exec: "refresh_exec a s = Some t \<Longrightarrow> untouched s \<Longrightarrow> untouched t"
  by (erule refresh_exec_cases) (simp_all add: untouched_def)

lemma never_ran_start: "never_ran (session_sleep (rsys_start ps t))"
  by (simp add: never_ran_def session_sleep_def refresh_simps rsys_start_def newRefresher_def
      refresher.extend_def rsys.fields_def)

lemma never_ran_exec: "refresh_exec a s = Some t \<Longrightarrow> never_ran s \<Longrightarrow> never_ran t"
  by (erule refresh_exec_cases) (simp_all add: never_ran_def)

lemma session_sleep_stop: "refresh_inv s \<Longrightarrow> active s \<Longrightarrow> (stop (session_sleep s) = None) = False"
  by (auto simp: session_sleep_def refresh_simps refresh_inv_def chan_inv_def)

lemma parked_cache_empty:
  assumes "parked_profile p" and "ended (cache p) < 2 ^ 64"
  shows "entries (cache p) = Map.empty"
  using assms
  by (auto simp: parked_profile_def never_ran_def refresh_inv_def gen_inv_def gen_guards_def
      chan_inv_def stop_is_closed_def split: option.splits)

section \<open>The gate's interface on the process\<close>

definition fresh_process :: "process \<Rightarrow> bool" where
  "fresh_process p \<longleftrightarrow> (\<exists>ps t procs gc. p = process_start ps t procs gc)"

lemma fresh_process_start: "fresh_process (process_start ps t procs gc)"
  by (auto simp: fresh_process_def)

lemma cache_backgroundE:
  assumes "cache_background e p = Some p'"
  obtains a r where "refresh_exec a (cache p) = Some r" "p' = p\<lparr>cache := r\<rparr>"
  using assms by (cases e) auto

lemma cache_requestE:
  assumes "cache_request e p = Some p'"
  obtains k where "p' = p\<lparr>cache := call_get False k (cache p)\<rparr>"
  using assms by (cases e) (auto simp: request_get_def)

lemma refresh_inv_boot: "refresh_inv (session_sleep (rsys_start ps t))"
  by (intro refresh_inv_sleep refresh_inv_start)

interpretation proc: session_hooks "sessions_wakeFn procs gc" sessions_sleepFn
  cache_background cache_request fresh_process
  "awake_profile procs gc" parked_profile for procs gc :: int
  by unfold_locales
    (auto simp: process_defs process_start_def fresh_process_def awake_profile_def parked_profile_def
      session_wake_active session_sleep_fields refresh_inv_boot refresh_inv_sleep refresh_inv_wake
      refresh_inv_get refresh_exec_frame(4,5) never_ran_start session_sleep_stop
      elim!: cache_backgroundE cache_requestE intro: refresh_inv_exec never_ran_exec)

interpretation boot: quiet_hooks "sessions_wakeFn procs gc" sessions_sleepFn
  cache_background cache_request fresh_process
  "awake_profile procs gc" parked_profile "\<lambda>p. untouched (cache p)" for procs gc :: int
  by unfold_locales
    (auto simp: process_defs process_start_def fresh_process_def session_sleep_fields untouched_start
      elim!: cache_backgroundE intro: untouched_exec)

abbreviation process_reach ::
  "(key \<rightharpoonup> producer) \<Rightarrow> int \<Rightarrow> int \<Rightarrow> instant \<Rightarrow> bool \<Rightarrow> process gsys \<Rightarrow> bool" where
  "process_reach ps procs gc t ex \<equiv>
     gate_reach (sessions_wakeFn procs gc) sessions_sleepFn cache_background cache_request
       (gate_boot sessions_sleepFn procs gc t (process_start ps t procs gc) ex)"

lemma process_producers:
  "process_reach ps procs gc t ex s \<Longrightarrow> producers (cache (world s)) = ps"
proof (induction rule: gate_reach.induct)
  case reach_start
  show ?case
    by (simp add: run_defs process_defs process_start_def session_sleep_def refresh_simps
        rsys_start_def newRefresher_def refresher.extend_def rsys.fields_def)
next
  case (reach_step s a u)
  have keep: "producers (cache (sessions_wakeFn procs gc p)) = producers (cache p)"
    "producers (cache (sessions_sleepFn p)) = producers (cache p)" for p
    by (cases "active (cache p)"; simp add: process_defs session_wake_def session_sleep_def refresh_simps)+
  have bg: "producers (cache p') = producers (cache p)" if "cache_background e p = Some p'" for e p p'
    using that by (auto elim!: cache_backgroundE dest: refresh_exec_frame(1))
  have req: "producers (cache p') = producers (cache p)" if "cache_request e p = Some p'" for e p p'
    using that by (auto elim!: cache_requestE)
  from reach_step.hyps(3) have "producers (cache (world u)) = producers (cache (world s))"
    by (rule gate_exec_cases) (auto simp: gate_simps keep bg req split: if_splits)
  with reach_step.IH show ?case by simp
qed

text \<open>One visit with any callbacks: served, and parked again.\<close>

definition visit_parked :: "cache_event gact list" where
  "visit_parked = [Accept 1, AcceptLock, AcceptLock, Report 1, DoSched 1, DoDelete 1,
     Elapse (3 * second), Fire 1, DoTrySleep]"

lemma process_visit:
  "\<exists>s. process_reach ps procs gc t ex s \<and> served s = {1}"
  "\<exists>s. process_reach ps procs gc t ex s \<and> sleeping s \<and> seen s = {1} \<and>
     world s = sessions_sleepFn (sessions_wakeFn procs gc (sessions_sleepFn
       (process_start ps t procs gc)))"
proof -
  let ?w = "process_start ps t procs gc"
  let ?run = "\<lambda>as. gate_run (sessions_wakeFn procs gc) sessions_sleepFn cache_background
    cache_request as (gate_boot sessions_sleepFn procs gc t ?w ex)"
  have "\<exists>s. ?run [Accept 1, AcceptLock, AcceptLock] = Some s \<and> served s = {1}"
    by (auto simp: run_defs)
  then show "\<exists>s. process_reach ps procs gc t ex s \<and> served s = {1}"
    using gate_run_reach [OF _ reach_start] by blast
  have "\<exists>s. ?run visit_parked = Some s \<and> sleeping s \<and> seen s = {1} \<and>
     world s = sessions_sleepFn (sessions_wakeFn procs gc (sessions_sleepFn ?w))"
    by (auto simp: visit_parked_def run_defs)
  then show "\<exists>s. process_reach ps procs gc t ex s \<and> sleeping s \<and> seen s = {1} \<and>
     world s = sessions_sleepFn (sessions_wakeFn procs gc (sessions_sleepFn ?w))"
    using gate_run_reach [OF _ reach_start] by blast
qed

section \<open>Guarantees\<close>



text \<open>
  Property C1: a sleeping process keeps no response. While the gate sleeps the cache is
  empty, also after a producer that was running at the end of the session has returned,
  as long as fewer than \<open>2^64\<close> sessions have ended.
\<close>

theorem asleep_cache_empty:
  assumes "process_reach ps procs gc t ex s" and "sleeping s"
    and "ended (cache (world s)) < 2 ^ 64"
  shows "entries (cache (world s)) = Map.empty"
  by (rule parked_cache_empty [OF proc.asleep_off [OF assms(1) fresh_process_start assms(2)] assms(3)])

lemma asleep_cache_empty_witness:
  "\<exists>s. process_reach sample_producers 4 100 0 False s \<and> seen s = {1} \<and>
     entries (cache (world s)) = Map.empty"
proof -
  obtain s where s: "process_reach sample_producers 4 100 0 False s" "sleeping s" "seen s = {1}"
    "world s = sessions_sleepFn (sessions_wakeFn 4 100 (sessions_sleepFn
       (process_start sample_producers 0 4 100)))" using process_visit(2) by blast
  have "ended (cache (world s)) = 2"
    by (simp add: s(4) process_defs process_start_def session_sleep_def session_wake_def refresh_simps
        rsys_start_def newRefresher_def refresher.extend_def rsys.fields_def)
  with asleep_cache_empty [OF s(1,2)] s show ?thesis by auto
qed

text \<open>
  Property C12: a served connection finds an awake process. While a connection is being
  served, the refresher's session is active, with the full number of threads and with the
  collector at the percentage of \<open>GOGC\<close>.
\<close>

theorem served_is_awake:
  assumes "process_reach ps procs gc t ex s" and "c \<in> served s"
  shows "active (cache (world s)) \<and> gomaxprocs (world s) = max 1 procs \<and>
    gcPercent (world s) = (if gc < 0 then - 1 else gc)"
  using proc.served_on [OF assms(1) fresh_process_start assms(2)] by (auto simp: awake_profile_def)

lemma served_is_awake_witness:
  "\<exists>s. process_reach sample_producers 4 100 0 False s \<and> active (cache (world s)) \<and>
     gomaxprocs (world s) = 4 \<and> gcPercent (world s) = 100"
proof -
  obtain s where s: "process_reach sample_producers 4 100 0 False s" "served s = {1}"
    using process_visit(1) by blast
  with served_is_awake [OF s(1), of 1] show ?thesis by auto
qed

text \<open>
  Property C13: nothing is fetched at start. Until the first connection is accepted the
  gate sleeps and the refresher has no loop, no fetch and no caller, and has never
  started a fetch, however long the process waits.
\<close>

theorem boot_fetches_nothing:
  assumes "process_reach ps procs gc t ex s" and "seen s = {}"
  shows "sleeping s \<and> loops (cache (world s)) = Map.empty \<and>
    fetches (cache (world s)) = Map.empty \<and> next_call (cache (world s)) = 0"
  using boot.unseen_still [OF assms(1) fresh_process_start assms(2)] by (auto simp: untouched_def)

lemma boot_fetches_nothing_witness:
  "\<exists>s. process_reach sample_producers 4 100 0 False s \<and> clock s = 9 \<and>
     fetches (cache (world s)) = Map.empty"
proof -
  let ?s = "gate_boot sessions_sleepFn 4 100 0 (process_start sample_producers 0 4 100) False"
  have "\<exists>s. gate_run (sessions_wakeFn 4 100) sessions_sleepFn cache_background cache_request
      [Elapse 9] ?s = Some s \<and> seen s = {} \<and> clock s = 9" by (auto simp: run_defs)
  then obtain s where s: "process_reach sample_producers 4 100 0 False s" "seen s = {}" "clock s = 9"
    using gate_run_reach [OF _ reach_start] by blast
  with boot_fetches_nothing [OF s(1,2)] show ?thesis by auto
qed

end
