(* ===== verification/Endpoint.thy ===== *)
theory Endpoint
  imports RefresherAlone
begin

text \<open>
  The HTTP side: \<open>serveRefresh\<close> of \<open>refresher.go\<close>, the page of \<open>api.go\<close> and the routes
  that \<open>main\<close> registers. A handler's reply is a status, the headers it sets and the body
  it writes. The request line has passed \<open>net/http\<close>: a path is given in its clean form,
  and the server itself drops the body of a reply to HEAD.
\<close>

section \<open>Replies\<close>

record reply =
  reply_status :: status
  reply_headers :: "(string \<times> string) list"
  reply_body :: body

definition http_Error :: "string \<Rightarrow> status \<Rightarrow> reply" where
  "http_Error msg code =
     \<lparr>reply_status = code,
      reply_headers = [(''Content-Type'', ''text/plain; charset=utf-8''),
                       (''X-Content-Type-Options'', ''nosniff'')],
      reply_body = msg @ [newline]\<rparr>"

definition json_reply :: "body \<times> status \<Rightarrow> reply" where
  "json_reply a =
     \<lparr>reply_status = snd a,
      reply_headers = [(''Content-Type'', ''application/json''), (''Cache-Control'', ''no-store'')],
      reply_body = fst a\<rparr>"

section \<open>Handlers\<close>

text \<open>
  The handler of every API endpoint, for a request that is alone: the reply of \<open>get\<close> on
  the shared cache, or \<open>None\<close> where the caller would wait for another caller's fetch.
\<close>

definition serveRefresh ::
  "instant \<Rightarrow> instant \<Rightarrow> string \<Rightarrow> key \<Rightarrow> refresher \<Rightarrow> reply option \<times> refresher" where
  "serveRefresh now later verb k r =
     (if verb \<noteq> ''GET'' \<and> verb \<noteq> ''HEAD''
      then (Some (http_Error ''Method not allowed'' StatusMethodNotAllowed), r)
      else (let (a, r') = get_alone now later k r in (map_option json_reply a, r')))"

definition HandleZPoolAPI ::
  "instant \<Rightarrow> instant \<Rightarrow> string \<Rightarrow> refresher \<Rightarrow> reply option \<times> refresher" where
  "HandleZPoolAPI now later verb r = serveRefresh now later verb ''zpool'' r"

definition HandleARCAPI ::
  "instant \<Rightarrow> instant \<Rightarrow> string \<Rightarrow> refresher \<Rightarrow> reply option \<times> refresher" where
  "HandleARCAPI now later verb r = serveRefresh now later verb ''arc'' r"

definition HandleSysInfoAPI ::
  "instant \<Rightarrow> instant \<Rightarrow> string \<Rightarrow> refresher \<Rightarrow> reply option \<times> refresher" where
  "HandleSysInfoAPI now later verb r = serveRefresh now later verb ''sysinfo'' r"

definition HandleSmartAPI ::
  "instant \<Rightarrow> instant \<Rightarrow> string \<Rightarrow> refresher \<Rightarrow> reply option \<times> refresher" where
  "HandleSmartAPI now later verb r = serveRefresh now later verb ''smart'' r"

definition version_mark :: string where
  "version_mark = ''__ZDASH_VERSION__''"

text \<open>\<open>bytes.Replace\<close> with a count of one.\<close>

definition replace_once :: "string \<Rightarrow> string \<Rightarrow> string \<Rightarrow> string" where
  "replace_once s old new = (case Cut s old of None \<Rightarrow> s | Some (b, a) \<Rightarrow> b @ new @ a)"

definition indexPage :: "string option \<Rightarrow> string \<Rightarrow> string option" where
  "indexPage embedded version =
     map_option (\<lambda>data. replace_once data version_mark version) embedded"

definition HandleIndex :: "string option \<Rightarrow> string \<Rightarrow> reply" where
  "HandleIndex embedded version =
     (case indexPage embedded version of
        None \<Rightarrow> http_Error ''Internal Server Error: missing embedded resources''
                  StatusInternalServerError
      | Some page \<Rightarrow>
          \<lparr>reply_status = StatusOK,
           reply_headers = [(''Content-Type'', ''text/html; charset=utf-8'')],
           reply_body = page\<rparr>)"

section \<open>Routes\<close>

datatype route = IndexRoute | ApiRoute key | NotAllowed

text \<open>
  The five patterns: each of the four API paths, and the subtree of the root for every
  other path, all for the method GET, which in a pattern admits HEAD as well.
\<close>

definition api_routes :: "(string \<times> key) list" where
  "api_routes = [(''/api/zpool'', ''zpool''), (''/api/arc'', ''arc''),
     (''/api/sysinfo'', ''sysinfo''), (''/api/smart'', ''smart'')]"

definition mux :: "string \<Rightarrow> string \<Rightarrow> route" where
  "mux verb path =
     (if verb \<noteq> ''GET'' \<and> verb \<noteq> ''HEAD'' then NotAllowed
      else case map_of api_routes path of Some k \<Rightarrow> ApiRoute k | None \<Rightarrow> IndexRoute)"

definition mux_not_allowed :: reply where
  "mux_not_allowed =
     (let e = http_Error ''Method Not Allowed'' StatusMethodNotAllowed in
      e\<lparr>reply_headers := (''Allow'', ''GET, HEAD'') # reply_headers e\<rparr>)"

text \<open>The handler registered for each key; the router gives no other key.\<close>

definition api_handler ::
  "key \<Rightarrow> instant \<Rightarrow> instant \<Rightarrow> string \<Rightarrow> refresher \<Rightarrow> reply option \<times> refresher" where
  "api_handler k =
     (if k = ''zpool'' then HandleZPoolAPI
      else if k = ''arc'' then HandleARCAPI
      else if k = ''sysinfo'' then HandleSysInfoAPI
      else HandleSmartAPI)"


definition handle ::
  "string option \<Rightarrow> string \<Rightarrow> instant \<Rightarrow> instant \<Rightarrow> string \<Rightarrow> string \<Rightarrow> refresher \<Rightarrow>
   reply option \<times> refresher" where
  "handle embedded version now later verb path r =
     (case mux verb path of
        NotAllowed \<Rightarrow> (Some mux_not_allowed, r)
      | IndexRoute \<Rightarrow> (Some (HandleIndex embedded version), r)
      | ApiRoute k \<Rightarrow> api_handler k now later verb r)"

section \<open>Guarantees\<close>

text \<open>
  Property C40: only GET and HEAD do anything. Any other method gets a 405 on every path,
  through the router and in the API handlers themselves, without a look at the cache and
  without starting a fetch: the refresher is unchanged.
\<close>

theorem method_gate:
  assumes "verb \<noteq> ''GET''" and "verb \<noteq> ''HEAD''"
  shows "(\<exists>e. handle embedded version now later verb path r = (Some e, r) \<and>
      reply_status e = StatusMethodNotAllowed) \<and>
    (\<exists>e. serveRefresh now later verb k r = (Some e, r) \<and> reply_status e = StatusMethodNotAllowed)"
  using assms
  by (simp add: handle_def mux_def mux_not_allowed_def serveRefresh_def http_Error_def Let_def)

lemma method_gate_witness:
  "\<exists>e. handle None ''dev'' 0 1 ''POST'' ''/api/smart'' (newRefresher sample_producers) =
      (Some e, newRefresher sample_producers) \<and> reply_status e = 405"
  using method_gate [of "''POST''"] by (simp add: StatusMethodNotAllowed_def)

text \<open>
  The routes, the cache and the page agree. The keys that the API paths ask
  for are exactly the keys with a TTL, each from its own path, so the background loop keeps
  warm what the handlers serve and nothing else; a GET of any other path is the page.
\<close>

theorem api_routes_complete:
  "set (map snd api_routes) = set (map fst (ttls (newRefresher ps))) \<and>
   distinct (map fst api_routes) \<and> distinct (map snd api_routes) \<and>
   (\<forall>path. mux ''GET'' path =
      (if path \<in> set (map fst api_routes) then ApiRoute (the (map_of api_routes path)) else IndexRoute))"
  by (auto simp: api_routes_def newRefresher_def mux_def)

lemma api_routes_complete_witness:
  "mux ''GET'' ''/api/arc'' = ApiRoute ''arc'' \<and> mux ''GET'' ''/favicon.ico'' = IndexRoute"
proof -
  have "\<forall>path. mux ''GET'' path =
      (if path \<in> set (map fst api_routes) then ApiRoute (the (map_of api_routes path)) else IndexRoute)"
    using api_routes_complete by blast
  then show ?thesis by (simp add: api_routes_def)
qed



text \<open>
  The page carries the version. When the embedded page contains the mark, the
  page that is served differs from it in one place only: its first mark is replaced by the
  version, and everything before and after is kept; a page without the mark is served as
  it is, and a missing page gives a 500.
\<close>

theorem index_page_stamped:
  "(case embedded of
      None \<Rightarrow> reply_status (HandleIndex embedded version) = StatusInternalServerError
    | Some data \<Rightarrow>
        reply_status (HandleIndex embedded version) = StatusOK \<and>
        ((\<nexists>b a. data = b @ version_mark @ a) \<and> reply_body (HandleIndex embedded version) = data \<or>
         (\<exists>b a. data = b @ version_mark @ a \<and>
            (\<forall>b' a'. data = b' @ version_mark @ a' \<longrightarrow> length b \<le> length b') \<and>
            reply_body (HandleIndex embedded version) = b @ version @ a)))"
proof (cases embedded)
  case None
  then show ?thesis by (simp add: HandleIndex_def indexPage_def http_Error_def)
next
  case (Some data)
  have page: "reply_status (HandleIndex embedded version) = StatusOK"
    "reply_body (HandleIndex embedded version) = replace_once data version_mark version"
    by (simp_all add: Some HandleIndex_def indexPage_def)
  show ?thesis
  proof (cases "Cut data version_mark")
    case None
    then have "\<nexists>b a. data = b @ version_mark @ a" using Cut_None by blast
    with page None show ?thesis by (simp add: Some replace_once_def)
  next
    case (Some ba)
    obtain b a where ba: "Cut data version_mark = Some (b, a)" using Some by (cases ba) simp
    have "reply_body (HandleIndex embedded version) = b @ version @ a"
      using page(2) ba by (simp add: replace_once_def)
    moreover have "\<forall>b' a'. data = b' @ version_mark @ a' \<longrightarrow> length b \<le> length b'"
      using Cut_first [OF ba] by blast
    ultimately have "\<exists>b a. data = b @ version_mark @ a \<and>
        (\<forall>b' a'. data = b' @ version_mark @ a' \<longrightarrow> length b \<le> length b') \<and>
        reply_body (HandleIndex embedded version) = b @ version @ a"
      using Cut_Some [OF ba] by blast
    with page(1) show ?thesis by (simp add: \<open>embedded = Some data\<close>)
  qed
qed

lemma index_page_stamped_witness:
  "reply_status (HandleIndex (Some ''v __ZDASH_VERSION__!'') ''1.2'') = StatusOK"
  using index_page_stamped [of "Some ''v __ZDASH_VERSION__!''" "''1.2''"] by simp

end
