(* ===== verification/GoFloat.thy ===== *)
theory GoFloat
  imports GoJson
begin

text \<open>
  Go's \<open>float64\<close>, as zdash uses it: \<open>strconv.ParseFloat\<close>, division by an integer, comparison
  with an integer, conversion to \<open>uint64\<close>, and the shortest decimal that JSON writes. A
  finite value is a sign, a mantissa below \<open>2 ^ 53\<close> and an exponent; it stands for the exact
  number \<open>m * 2 ^ e\<close>, and arithmetic rounds the exact result to the nearest one, to the even
  mantissa if two are equally near.
\<close>

section \<open>Values and rounding\<close>

datatype float64 =
    FFin bool int int \<comment> \<open>negative, mantissa, exponent\<close>
  | FInf bool
  | FNaN

definition fzero :: float64 where
  "fzero = FFin False 0 (- 1074)"

function ilog2 :: "int \<Rightarrow> int" where
  "ilog2 n = (if n < 2 then 0 else 1 + ilog2 (n div 2))"
  by pat_completeness auto
termination
  by (relation "measure nat") auto

declare ilog2.simps [simp del]

text \<open>A fraction divided by a power of two, again as a fraction.\<close>

definition scaled :: "int \<Rightarrow> int \<Rightarrow> int \<Rightarrow> int \<times> int" where
  "scaled p q e = (if 0 \<le> e then (p, q * 2 ^ nat e) else (p * 2 ^ nat (- e), q))"

text \<open>The exponent of the largest power of two that is at most \<open>p / q\<close>.\<close>

definition floor_log :: "int \<Rightarrow> int \<Rightarrow> int" where
  "floor_log p q =
     (let k = ilog2 p - ilog2 q; (a, b) = scaled p q k in if b \<le> a then k else k - 1)"

definition round_even :: "int \<Rightarrow> int \<Rightarrow> int" where
  "round_even n d =
     (let k = n div d; r = n mod d in
      if 2 * r < d then k else if d < 2 * r then k + 1 else if even k then k else k + 1)"

text \<open>The value nearest to \<open>p / q\<close>, for \<open>p\<close> not negative and \<open>q\<close> positive.\<close>

definition round64 :: "bool \<Rightarrow> int \<Rightarrow> int \<Rightarrow> float64" where
  "round64 neg p q =
     (if p = 0 then FFin neg 0 (- 1074)
      else let e = max (- 1074) (floor_log p q - 52);
               (a, b) = scaled p q e;
               m = round_even a b;
               (m', e') = (if m = 2 ^ 53 then (2 ^ 52, e + 1) else (m, e))
           in if 971 < e' then FInf neg else FFin neg m' e')"

section \<open>ParseFloat\<close>

definition float_digit :: "bool \<Rightarrow> char \<Rightarrow> int option" where
  "float_digit hex c =
     (let b = of_char c :: int; l = of_char (ascii_lower c) :: int in
      if 48 \<le> b \<and> b \<le> 57 then Some (b - 48)
      else if hex \<and> 97 \<le> l \<and> l \<le> 102 then Some (l - 87)
      else None)"

text \<open>The mantissa: whether it has a digit, its value without the point, its digits after it.\<close>

fun scan_mant :: "bool \<Rightarrow> bool \<Rightarrow> bool \<times> int \<times> nat \<Rightarrow> string \<Rightarrow> (bool \<times> int \<times> nat) \<times> string" where
  "scan_mant hex dot st [] = (st, [])"
| "scan_mant hex dot st (c # cs) =
     (if c = CHR ''_'' then scan_mant hex dot st cs
      else if c = CHR ''.'' then (if dot then (st, c # cs) else scan_mant hex True st cs)
      else case float_digit hex c of
        None \<Rightarrow> (st, c # cs)
      | Some d \<Rightarrow>
          (case st of (_, m, f) \<Rightarrow>
             scan_mant hex dot
               (True, (if hex then 16 else 10) * m + d, if dot then Suc f else f) cs))"

text \<open>The digits of an exponent; beyond 10000 further ones are skipped.\<close>

fun scan_exp :: "int \<Rightarrow> string \<Rightarrow> int \<times> string" where
  "scan_exp e [] = (e, [])"
| "scan_exp e (c # cs) =
     (if c = CHR ''_'' then scan_exp e cs
      else case float_digit False c of
        None \<Rightarrow> (e, c # cs)
      | Some d \<Rightarrow> scan_exp (if e < 10000 then 10 * e + d else e) cs)"

text \<open>An underscore must stand between digits, or between a base prefix and a digit.\<close>

datatype seen = SStart | SDigit | SUnder | SOther

fun under_ok :: "bool \<Rightarrow> seen \<Rightarrow> string \<Rightarrow> bool" where
  "under_ok hex saw [] \<longleftrightarrow> saw \<noteq> SUnder"
| "under_ok hex saw (c # cs) \<longleftrightarrow>
     (if float_digit hex c \<noteq> None then under_ok hex SDigit cs
      else if c = CHR ''_'' then saw = SDigit \<and> under_ok hex SUnder cs
      else saw \<noteq> SUnder \<and> under_ok hex SOther cs)"

definition sign_split :: "string \<Rightarrow> bool \<times> string" where
  "sign_split s =
     (case s of
        [] \<Rightarrow> (False, [])
      | c # cs \<Rightarrow> if c = CHR ''-'' then (True, cs) else if c = CHR ''+'' then (False, cs) else (False, s))"

definition base_prefix :: "string \<Rightarrow> char option" where
  "base_prefix s =
     (case s of
        a # b # _ \<Rightarrow> if a = CHR ''0'' \<and> ascii_lower b \<in> {CHR ''b'', CHR ''o'', CHR ''x''}
                     then Some (ascii_lower b) else None
      | _ \<Rightarrow> None)"

definition underscoreOK :: "string \<Rightarrow> bool" where
  "underscoreOK s =
     (let t = snd (sign_split s) in
      case base_prefix t of
        None \<Rightarrow> under_ok False SStart t
      | Some b \<Rightarrow> under_ok (b = CHR ''x'') SDigit (drop 2 t))"

text \<open>The exponent after its letter, and the rest.\<close>

definition exponent :: "string \<Rightarrow> (int \<times> string) option" where
  "exponent cs =
     (let (eneg, ds) = sign_split cs in
      case ds of
        [] \<Rightarrow> None
      | d # _ \<Rightarrow>
          (if float_digit False d = None then None
           else let (e, r) = scan_exp 0 ds in Some (if eneg then - e else e, r)))"

text \<open>\<open>readFloat\<close> on a text that has to be read to its end: the sign and the exact fraction.\<close>

definition readFloat :: "string \<Rightarrow> (bool \<times> int \<times> int) option" where
  "readFloat s =
     (let (neg, t) = sign_split s;
          hex = (base_prefix t = Some (CHR ''x'') \<and> 2 < length t);
          ((sawdigits, m, f), r) = scan_mant hex False (False, 0, 0) (if hex then drop 2 t else t)
      in
      if \<not> sawdigits then None
      else case (case r of
                   [] \<Rightarrow> if hex then None else Some (0, [])
                 | c # cs \<Rightarrow>
                     (if ascii_lower c = (if hex then CHR ''p'' else CHR ''e'') then exponent cs
                      else if hex then None else Some (0, r))) of
        None \<Rightarrow> None
      | Some (e, r') \<Rightarrow>
          (if r' \<noteq> [] \<or> CHR ''_'' \<in> set s \<and> \<not> underscoreOK s then None
           else let base = (if hex then 2 else 10); q = (if hex then 16 else 10) ^ f
                in Some (neg, if 0 \<le> e then (m * base ^ nat e, q) else (m, q * base ^ nat (- e)))))"

definition special_float :: "string \<Rightarrow> float64 option" where
  "special_float s =
     (let (neg, t) = sign_split s; l = map ascii_lower t in
      if l = ''inf'' \<or> l = ''infinity'' then Some (FInf neg)
      else if map ascii_lower s = ''nan'' then Some FNaN
      else None)"

text \<open>The value, and whether there is no error: a syntax error gives 0, overflow an infinity.\<close>

definition ParseFloat :: "string \<Rightarrow> float64 \<times> bool" where
  "ParseFloat s =
     (case special_float s of
        Some f \<Rightarrow> (f, True)
      | None \<Rightarrow>
          (case readFloat s of
             None \<Rightarrow> (fzero, False)
           | Some (neg, p, q) \<Rightarrow>
               (case round64 neg p q of
                  FInf n \<Rightarrow> (FInf n, False)
                | f \<Rightarrow> (f, True))))"

section \<open>Arithmetic\<close>

text \<open>The quotient of a value by a positive integer.\<close>

fun fdiv :: "float64 \<Rightarrow> int \<Rightarrow> float64" where
  "fdiv (FFin neg m e) d =
     (if 0 \<le> e then round64 neg (m * 2 ^ nat e) d else round64 neg m (d * 2 ^ nat (- e)))"
| "fdiv f d = f"

fun fis_zero :: "float64 \<Rightarrow> bool" where
  "fis_zero (FFin neg m e) \<longleftrightarrow> m = 0"
| "fis_zero _ \<longleftrightarrow> False"

text \<open>The comparison of the absolute value with a fraction of positive integers.\<close>

definition mag_less :: "int \<Rightarrow> int \<Rightarrow> int \<Rightarrow> int \<Rightarrow> bool" where
  "mag_less m e p q \<longleftrightarrow> (if 0 \<le> e then m * 2 ^ nat e * q < p else m * q < p * 2 ^ nat (- e))"

text \<open>\<open>f < n\<close> for a positive integer; NaN is not less.\<close>

fun fless :: "float64 \<Rightarrow> int \<Rightarrow> bool" where
  "fless (FFin neg m e) n \<longleftrightarrow> neg \<or> mag_less m e n 1"
| "fless (FInf neg) n \<longleftrightarrow> neg"
| "fless FNaN n \<longleftrightarrow> False"

text \<open>
  The conversion \<open>uint64(f)\<close>: towards zero; beyond the range of \<open>uint64\<close> the result is
  the platform's, the argument \<open>other\<close>.
\<close>

definition trunc_mag :: "int \<Rightarrow> int \<Rightarrow> int" where
  "trunc_mag m e = (if 0 \<le> e then m * 2 ^ nat e else m div 2 ^ nat (- e))"

definition to_uint64 :: "(float64 \<Rightarrow> 64 word) \<Rightarrow> float64 \<Rightarrow> 64 word" where
  "to_uint64 other f =
     (case f of
        FFin neg m e \<Rightarrow>
          (let t = trunc_mag m e in
           if t < 2 ^ 64 \<and> (\<not> neg \<or> t = 0) then of_int t else other f)
      | _ \<Rightarrow> other f)"

section \<open>The shortest decimal\<close>

function dec_down :: "int \<Rightarrow> int \<Rightarrow> int" where
  "dec_down p q = (if p \<le> 0 \<or> q \<le> p then 0 else dec_down (10 * p) q - 1)"
  by pat_completeness auto
termination
  by (relation "measure (\<lambda>(p, q). nat (q - p))") auto

function dec_up :: "int \<Rightarrow> int" where
  "dec_up n = (if n < 10 then 0 else 1 + dec_up (n div 10))"
  by pat_completeness auto
termination
  by (relation "measure nat") auto

declare dec_down.simps [simp del] dec_up.simps [simp del]

text \<open>The exponent of the largest power of ten that is at most \<open>p / q\<close>.\<close>

definition dec_log :: "int \<Rightarrow> int \<Rightarrow> int" where
  "dec_log p q = (if q \<le> p then dec_up (p div q) else dec_down p q)"

definition dec_frac :: "int \<Rightarrow> int \<Rightarrow> int \<times> int" where
  "dec_frac d k = (if 0 \<le> k then (d * 10 ^ nat k, 1) else (d, 10 ^ nat (- k)))"

definition exact_frac :: "int \<Rightarrow> int \<Rightarrow> int \<times> int" where
  "exact_frac m e = (if 0 \<le> e then (m * 2 ^ nat e, 1) else (m, 2 ^ nat (- e)))"

text \<open>Whether the decimal \<open>d * 10 ^ k\<close> is read back as a given magnitude.\<close>

definition reads_as :: "int \<Rightarrow> int \<Rightarrow> int \<times> int \<Rightarrow> bool" where
  "reads_as m e dk = (case dec_frac (fst dk) (snd dk) of (p, q) \<Rightarrow> round64 False p q = FFin False m e)"

text \<open>
  With \<open>n\<close> digits: of the two decimals around the value the ones that are read back, and of
  these the nearer one, the even one of two equally near.
\<close>

definition digits_at :: "int \<Rightarrow> int \<Rightarrow> nat \<Rightarrow> (int \<times> int) option" where
  "digits_at m e n =
     (let (p, q) = exact_frac m e;
          k = dec_log p q - int n + 1;
          (a, b) = (if 0 \<le> k then (p, q * 10 ^ nat k) else (p * 10 ^ nat (- k), q));
          lo = a div b; near = round_even a b; far = (if near = lo then lo + 1 else lo)
      in if reads_as m e (near, k) then Some (near, k)
         else if reads_as m e (far, k) then Some (far, k) else None)"

fun shortest_from :: "int \<Rightarrow> int \<Rightarrow> nat \<Rightarrow> nat \<Rightarrow> (int \<times> int) option" where
  "shortest_from m e n 0 = None"
| "shortest_from m e n (Suc j) =
     (case digits_at m e n of Some dk \<Rightarrow> Some dk | None \<Rightarrow> shortest_from m e (Suc n) j)"

text \<open>Seventeen digits tell any two values apart.\<close>

definition shortest :: "int \<Rightarrow> int \<Rightarrow> (int \<times> int) option" where
  "shortest m e = shortest_from m e 1 17"

text \<open>
  The layouts of \<open>strconv.AppendFloat\<close> for the digits \<open>ds\<close> with the decimal point after the
  first \<open>dp\<close> of them.
\<close>

definition format_f :: "string \<Rightarrow> int \<Rightarrow> string" where
  "format_f ds dp =
     (if dp \<le> 0 then ''0.'' @ replicate (nat (- dp)) (CHR ''0'') @ ds
      else if int (length ds) \<le> dp then ds @ replicate (nat dp - length ds) (CHR ''0'')
      else take (nat dp) ds @ ''.'' @ drop (nat dp) ds)"

definition format_e :: "string \<Rightarrow> int \<Rightarrow> string" where
  "format_e ds dp =
     take 1 ds @ (if length ds = 1 then [] else ''.'' @ drop 1 ds) @
     (if dp \<le> 0 then ''e-'' else ''e+'') @ show_nat (nat \<bar>dp - 1\<bar>)"

text \<open>
  A \<open>float64\<close> in JSON: no text for infinities and NaN, which \<open>json.Marshal\<close> refuses; an
  exponent, without leading zeros, below 1e-6 and from 1e21.
\<close>

definition drop_zeros :: "string \<Rightarrow> string" where
  "drop_zeros ds = (case rev (dropWhile (\<lambda>c. c = CHR ''0'') (rev ds)) of [] \<Rightarrow> ''0'' | t \<Rightarrow> t)"

definition below_exp :: "int \<Rightarrow> int \<Rightarrow> bool" where
  "below_exp m e =
     (case round64 False 1 1000000 of FFin _ m1 e1 \<Rightarrow>
        (case exact_frac m1 e1 of (p, q) \<Rightarrow> mag_less m e p q) | _ \<Rightarrow> False)"

fun float_text :: "float64 \<Rightarrow> string option" where
  "float_text (FFin neg m e) =
     (let body = (if m = 0 then Some ''0''
                  else case shortest m e of
                    None \<Rightarrow> None
                  | Some (d, k) \<Rightarrow>
                      (let full = show_nat (nat d); ds = drop_zeros full; dp = int (length full) + k
                       in Some (if below_exp m e \<or> \<not> mag_less m e (10 ^ 21) 1
                                then format_e ds dp else format_f ds dp)))
      in map_option (\<lambda>t. (if neg then ''-'' else []) @ t) body)"
| "float_text _ = None"

section \<open>Marshalling\<close>

text \<open>A number without a text makes \<open>json.Marshal\<close> fail.\<close>

definition json_float :: "float64 \<Rightarrow> json" where
  "json_float f = JNum (case float_text f of None \<Rightarrow> [] | Some t \<Rightarrow> t)"

fun has_text :: "json \<Rightarrow> bool" where
  "has_text (JNum l) \<longleftrightarrow> l \<noteq> []"
| "has_text (JArr xs) \<longleftrightarrow> list_all has_text xs"
| "has_text (JObj ms) \<longleftrightarrow> list_all (\<lambda>(k, v). has_text v) ms"
| "has_text _ \<longleftrightarrow> True"

definition Marshal :: "json \<Rightarrow> string option" where
  "Marshal j = (if has_text j then Some (encode j) else None)"

end
