(* ===== verification/Host.thy ===== *)
theory Host
  imports Refresher GoFloat
begin

text \<open>
  What the producers read of the host, as one record: the files, the environment, the
  clock, the programs it runs and the state of the request's context. A producer is a
  function from the host, as it is when the producer reads it, to a response.
\<close>

record host =
  ctx_err :: "string option" \<comment> \<open>ctx.Err()\<close>
  read_file :: "string \<Rightarrow> string + string" \<comment> \<open>os.ReadFile: an error text or the bytes\<close>
  stat_ok :: "string \<Rightarrow> bool" \<comment> \<open>os.Stat without an error\<close>
  getenv :: "string \<Rightarrow> string"
  unix_milli :: int
  read_dir :: "string \<Rightarrow> (string \<times> bool) list option" \<comment> \<open>names, and whether a directory\<close>
  os_hostname :: "string option"
  num_cpu :: int
  goarch :: string
  own_pid :: int
  run :: "duration list \<Rightarrow> string \<Rightarrow> string list \<Rightarrow> string \<times> string option"
    \<comment> \<open>exec.CommandContext(...).Output(): the timeouts of the contexts around the call, the
       program, its arguments; the standard output and the text of the error, if any\<close>
  json_error :: "string \<Rightarrow> string \<Rightarrow> string"
    \<comment> \<open>the text of the error of json.Unmarshal into a type of that name\<close>
  float_uint64 :: "float64 \<Rightarrow> 64 word"
    \<comment> \<open>the conversion uint64(f) of a value out of range, which Go leaves to the platform\<close>

definition arcstatsPath :: string where
  "arcstatsPath = ''/proc/spl/kstat/zfs/arcstats''"

definition file_or :: "'a \<Rightarrow> (string \<Rightarrow> 'a) \<Rightarrow> string + string \<Rightarrow> 'a" where
  "file_or d f r = (case r of Inl _ \<Rightarrow> d | Inr b \<Rightarrow> f b)"

lemma file_or_simps [simp]: "file_or d f (Inl e) = d" "file_or d f (Inr b) = f b"
  by (simp_all add: file_or_def)

text \<open>A host with nothing on it, for examples.\<close>

definition bare_host :: host where
  "bare_host =
     \<lparr>ctx_err = None, read_file = (\<lambda>_. Inl ''no such file or directory''), stat_ok = (\<lambda>_. False),
      getenv = (\<lambda>_. []), unix_milli = 0, read_dir = (\<lambda>_. None), os_hostname = None, num_cpu = 1,
      goarch = ''amd64'', own_pid = 1, run = (\<lambda>_ _ _. ([], Some ''executable file not found in $PATH'')),
      json_error = (\<lambda>_ _. ''unexpected end of JSON input''), float_uint64 = (\<lambda>_. 0)\<rparr>"

end
