(* ===== verification/LineScan.thy ===== *)
theory LineScan
  imports GoConv
begin

text \<open>
  The interfaces of the scrapers: each folds a step over the lines of a file, and what it
  reads is the value of the last line that holds one, or of the first. Also the words of a
  line: how \<open>strings.Fields\<close> and \<open>strings.TrimSpace\<close> act on printable text.
\<close>

section \<open>Last value wins\<close>

text \<open>
  \<open>field\<close> says what a line is worth: nothing, or a value for a key; \<open>get\<close> reads a key
  from the scraper's state.
\<close>

locale last_wins =
  fixes step :: "string \<Rightarrow> 's \<Rightarrow> 's"
    and field :: "string \<Rightarrow> ('k \<times> 'v) option"
    and get :: "'s \<Rightarrow> 'k \<Rightarrow> 'v"
  assumes get_step:
    "get (step l s) k = (case field l of None \<Rightarrow> get s k
       | Some (k', v) \<Rightarrow> if k = k' then v else get s k)"
begin

lemma get_skip: "field l = None \<Longrightarrow> get (step l s) k = get s k"
  by (simp add: get_step)

lemma get_fold:
  "get (fold step ls s) k =
     (case map_of (rev (List.map_filter field ls)) k of None \<Rightarrow> get s k | Some v \<Rightarrow> v)"
proof (induction ls rule: rev_induct)
  case Nil
  show ?case by (simp add: List.map_filter_def)
next
  case (snoc l ls)
  then show ?case by (auto simp: get_step List.map_filter_def split: option.splits)
qed

lemma get_untouched:
  "\<forall>l \<in> set ls. \<forall>v. field l \<noteq> Some (k, v) \<Longrightarrow> get (fold step ls s) k = get s k"
  by (induction ls arbitrary: s) (auto simp: get_step split: option.splits)

lemma get_last:
  assumes "field l = Some (k, v)" and "\<forall>l' \<in> set post. \<forall>v'. field l' \<noteq> Some (k, v')"
  shows "get (fold step (pre @ l # post) s) k = v"
  using assms get_untouched [of post k] by (simp add: get_step)

lemma get_without:
  assumes "field l = None"
  shows "get (fold step (pre @ l # post) s) k = get (fold step (pre @ post) s) k"
  using assms by (simp add: get_fold get_skip List.map_filter_def split: option.split)

end

section \<open>First value wins\<close>

text \<open>
  The other kind of scraper reads a field until it is set: as long as \<open>get\<close> is \<open>unset\<close> a line
  with a value replaces it, and from then on nothing does.
\<close>

fun settle :: "('a \<Rightarrow> bool) \<Rightarrow> 'a \<Rightarrow> 'a list \<Rightarrow> 'a" where
  "settle unset d [] = d"
| "settle unset d (v # vs) = (if unset d then settle unset v vs else d)"

lemma settle_set: "\<not> unset d \<Longrightarrow> settle unset d vs = d"
  by (cases vs) simp_all

lemma settle_find:
  "unset d \<Longrightarrow> find (\<lambda>v. \<not> unset v) vs = Some v \<Longrightarrow> settle unset d vs = v"
  "unset d \<Longrightarrow> find (\<lambda>v. \<not> unset v) vs = None \<Longrightarrow> unset (settle unset d vs)"
  by (induction vs arbitrary: d) (auto simp: settle_set split: if_splits)

lemma settle_in: "settle unset d vs \<in> insert d (set vs)"
  by (induction vs arbitrary: d) auto

locale first_wins =
  fixes step :: "string \<Rightarrow> 's \<Rightarrow> 's"
    and field :: "string \<Rightarrow> 'v option"
    and get :: "'s \<Rightarrow> 'v"
    and unset :: "'v \<Rightarrow> bool"
  assumes get_step:
    "get (step l s) = (if unset (get s) then (case field l of None \<Rightarrow> get s | Some v \<Rightarrow> v) else get s)"
begin

lemma get_fold: "get (fold step ls s) = settle unset (get s) (List.map_filter field ls)"
  by (induction ls arbitrary: s) (auto simp: get_step map_filter_simps settle_set split: option.split)

lemma get_first:
  "unset (get s) \<Longrightarrow> find (\<lambda>v. \<not> unset v) (List.map_filter field ls) = Some v \<Longrightarrow> get (fold step ls s) = v"
  "unset (get s) \<Longrightarrow> find (\<lambda>v. \<not> unset v) (List.map_filter field ls) = None \<Longrightarrow> unset (get (fold step ls s))"
  unfolding get_fold by (fact settle_find)+

lemma get_among: "get (fold step ls s) = get s \<or> get (fold step ls s) \<in> set (List.map_filter field ls)"
  using settle_in [of unset "get s" "List.map_filter field ls"] by (simp add: get_fold)

end

section \<open>Words\<close>

text \<open>A word is a non-empty run of printable ASCII characters other than the space.\<close>

definition visible :: "char \<Rightarrow> bool" where
  "visible c \<longleftrightarrow> 33 \<le> (of_char c :: nat) \<and> (of_char c :: nat) < 127"

definition visible_word :: "string \<Rightarrow> bool" where
  "visible_word w \<longleftrightarrow> w \<noteq> [] \<and> (\<forall>c \<in> set w. visible c)"

lemma visible_not_space: "visible c \<Longrightarrow> \<not> ascii_space c"
  by (auto simp: visible_def ascii_space_def)

lemma visible_not_wide: "visible c \<Longrightarrow> w \<in> set wide_spaces \<Longrightarrow> \<not> prefix w (c # s)"
  "visible c \<Longrightarrow> w \<in> set (map rev wide_spaces) \<Longrightarrow> \<not> prefix w (c # s)"
  by (auto simp: visible_def wide_spaces_def)

lemma space_at_visible [simp]:
  assumes "visible c"
  shows "space_at wide_spaces (c # s) = 0" "space_at (map rev wide_spaces) (c # s) = 0"
proof -
  have "find (\<lambda>w. prefix w (c # s)) wide_spaces = None"
    "find (\<lambda>w. prefix w (c # s)) (map rev wide_spaces) = None"
    using visible_not_wide [OF assms] by (auto simp: find_None_iff)
  then show "space_at wide_spaces (c # s) = 0" "space_at (map rev wide_spaces) (c # s) = 0"
    using visible_not_space [OF assms] by simp_all
qed

lemma space_at_blank [simp]: "space_at ws (CHR '' '' # s) = 1"
  by (simp add: ascii_space_def)

declare space_at.simps(2) [simp del]

lemma strip_visible: "visible c \<Longrightarrow> strip wide_spaces (c # s) = c # s"
  "visible c \<Longrightarrow> strip (map rev wide_spaces) (c # s) = c # s"
  by (subst strip.simps, simp)+

lemma TrimSpace_framed:
  assumes "s \<noteq> []" "visible (hd s)" "visible (last s)"
  shows "TrimSpace s = s"
proof -
  obtain c cs where c: "s = c # cs" using assms(1) by (cases s) auto
  have "strip wide_spaces s = s" using assms(2) by (simp add: c strip_visible)
  moreover obtain d ds where d: "rev s = d # ds" using assms(1) by (cases "rev s") auto
  moreover have "visible d" using assms(3) d by (metis hd_rev list.sel(1))
  ultimately show ?thesis
    unfolding TrimSpace_def by (simp add: d strip_visible) (metis d rev_rev_ident rev.simps(2))
qed

lemma fields_from_word:
  "\<forall>c \<in> set w. visible c \<Longrightarrow> fields_from cur (w @ s) = fields_from (rev w @ cur) s"
  by (induction w arbitrary: cur) (simp_all add: fields_from.simps Let_def)

lemma fields_from_blank:
  "fields_from cur (CHR '' '' # s) = (if cur = [] then [] else [rev cur]) @ fields_from [] s"
  by (simp add: fields_from.simps Let_def)

text \<open>Words separated by single spaces are the fields of their line.\<close>

lemma Fields_words:
  "ws \<noteq> [] \<Longrightarrow> \<forall>w \<in> set ws. visible_word w \<Longrightarrow> Fields (Join ws '' '') = ws"
proof (induction ws "'' ''" rule: Join.induct)
  case (2 x)
  then show ?case using fields_from_word [of x "[]" "[]"]
    by (simp add: Fields_def visible_word_def fields_from.simps)
next
  case (3 x y xs)
  then have "Fields (Join (y # xs) '' '') = y # xs" by simp
  moreover have "Fields (x @ '' '' @ Join (y # xs) '' '') = x # Fields (Join (y # xs) '' '')"
    using 3(3) fields_from_word [of x "[]"]
    by (simp add: Fields_def visible_word_def fields_from_blank)
  ultimately show ?case by simp
qed simp

lemma show_nat_visible: "visible_word (show_nat n)"
proof -
  have "visible c" if "c \<in> set (show_nat n)" for c
    using show_nat_digits [OF that] by (auto simp: digit_val_def visible_def Let_def split: if_splits)
  then show ?thesis by (simp add: visible_word_def)
qed

text \<open>Padding by several blanks, as the kernel prints its tables.\<close>

lemma fields_from_blanks: "fields_from [] (replicate n (CHR '' '') @ s) = fields_from [] s"
  by (induction n) (simp_all add: fields_from_blank)

lemma fields_from_cons_word:
  "visible_word w \<Longrightarrow> fields_from [] (w @ CHR '' '' # s) = w # fields_from [] s"
  by (simp add: fields_from_word fields_from_blank visible_word_def)

lemma fields_from_space:
  "ascii_space c \<Longrightarrow> fields_from cur (c # s) = (if cur = [] then [] else [rev cur]) @ fields_from [] s"
  by (simp add: fields_from.simps space_at.simps Let_def)

lemma TrimSpace_blank_word:
  assumes "visible_word w" shows "TrimSpace (CHR '' '' # w) = w"
proof -
  obtain c cs where w: "w = c # cs" "visible c" using assms by (cases w) (auto simp: visible_word_def)
  have "strip wide_spaces (CHR '' '' # w) = strip wide_spaces w"
    by (subst strip.simps) simp
  then have "strip wide_spaces (CHR '' '' # w) = w" using w by (simp add: strip_visible)
  then have "TrimSpace (CHR '' '' # w) = TrimSpace w"
    unfolding TrimSpace_def using w by (simp add: strip_visible)
  also have "\<dots> = w" using assms by (intro TrimSpace_framed) (auto simp: visible_word_def)
  finally show ?thesis .
qed

lemma TrimSpace_word: "visible_word w \<Longrightarrow> TrimSpace w = w"
  by (intro TrimSpace_framed) (auto simp: visible_word_def)

text \<open>A file of lines, each ended by a newline.\<close>

definition file_of :: "string list \<Rightarrow> string" where
  "file_of ls = concat (map (\<lambda>l. l @ [newline]) ls)"

lemma lines_of_file: "\<forall>l \<in> set ls. newline \<notin> set l \<Longrightarrow> lines_of (file_of ls) = ls @ [[]]"
  by (induction ls) (simp_all add: file_of_def lines_of_def split_on_append)

lemma visible_no_newline: "visible_word w \<Longrightarrow> newline \<notin> set w"
  by (auto simp: visible_word_def visible_def newline_def)

lemma visible_no_blank: "visible_word w \<Longrightarrow> CHR '' '' \<notin> set w"
  by (auto simp: visible_word_def visible_def)

lemma TrimSpace_empty [simp]: "TrimSpace [] = []"
  by (simp add: TrimSpace_def strip.simps)

lemma Fields_empty [simp]: "Fields [] = []"
  by (simp add: Fields_def fields_from.simps)

end
