(* ===== verification/ArcStats.thy ===== *)
theory ArcStats
  imports Host LineScan
begin

text \<open>
  The ARC endpoint of \<open>arc.go\<close>: the record \<open>ARCMetrics\<close>, the parser of the kstat text and
  the producer. Counters are \<open>uint64\<close>; a row is read as the code reads it, by its first
  three fields, the second an integer and the third a decimal \<open>uint64\<close>.
\<close>

section \<open>The metrics\<close>

record ARCMetrics =
  Hits :: "64 word"
  Iohits :: "64 word"
  Misses :: "64 word"
  MRUHits :: "64 word"
  MRUGhostHits :: "64 word"
  MFUHits :: "64 word"
  MFUGhostHits :: "64 word"
  DemandDataHits :: "64 word"
  DemandDataMisses :: "64 word"
  DemandMetadataHits :: "64 word"
  DemandMetadataMisses :: "64 word"
  PrefetchDataHits :: "64 word"
  PrefetchDataMisses :: "64 word"
  PrefetchMetaHits :: "64 word"
  PrefetchMetaMisses :: "64 word"
  Size :: "64 word"
  TargetSize :: "64 word"
  MinSize :: "64 word"
  MaxSize :: "64 word"
  DataSize :: "64 word"
  MetadataSize :: "64 word"
  DbufSize :: "64 word"
  DnodeSize :: "64 word"
  HdrSize :: "64 word"
  Deleted :: "64 word"
  L2Size :: "64 word"
  L2Asize :: "64 word"
  L2Ndev :: "64 word"
  L2Hits :: "64 word"
  L2Misses :: "64 word"
  MemoryAllBytes :: "64 word"
  MemoryFreeBytes :: "64 word"
  MemoryAvailableBytes :: "64 word"
  arc_Timestamp :: int

text \<open>Every counter is named after its kstat row; a missing row counts as 0.\<close>

definition kv_get :: "(string \<rightharpoonup> 64 word) \<Rightarrow> string \<Rightarrow> 64 word" where
  "kv_get kv k = (case kv k of None \<Rightarrow> 0 | Some v \<Rightarrow> v)"

definition metrics_of :: "(string \<Rightarrow> 64 word) \<Rightarrow> ARCMetrics" where
  "metrics_of kv =
     \<lparr>Hits = kv ''hits'',
      Iohits = kv ''iohits'',
      Misses = kv ''misses'',
      MRUHits = kv ''mru_hits'',
      MRUGhostHits = kv ''mru_ghost_hits'',
      MFUHits = kv ''mfu_hits'',
      MFUGhostHits = kv ''mfu_ghost_hits'',
      DemandDataHits = kv ''demand_data_hits'',
      DemandDataMisses = kv ''demand_data_misses'',
      DemandMetadataHits = kv ''demand_metadata_hits'',
      DemandMetadataMisses = kv ''demand_metadata_misses'',
      PrefetchDataHits = kv ''prefetch_data_hits'',
      PrefetchDataMisses = kv ''prefetch_data_misses'',
      PrefetchMetaHits = kv ''prefetch_metadata_hits'',
      PrefetchMetaMisses = kv ''prefetch_metadata_misses'',
      Size = kv ''size'',
      TargetSize = kv ''c'',
      MinSize = kv ''c_min'',
      MaxSize = kv ''c_max'',
      DataSize = kv ''data_size'',
      MetadataSize = kv ''metadata_size'',
      DbufSize = kv ''dbuf_size'',
      DnodeSize = kv ''arc_dnode_size'',
      HdrSize = kv ''hdr_size'',
      Deleted = kv ''deleted'',
      L2Size = kv ''l2_size'',
      L2Asize = kv ''l2_asize'',
      L2Ndev = kv ''l2_ndev'',
      L2Hits = kv ''l2_hits'',
      L2Misses = kv ''l2_misses'',
      MemoryAllBytes = kv ''memory_all_bytes'',
      MemoryFreeBytes = kv ''memory_free_bytes'',
      MemoryAvailableBytes = kv ''memory_available_bytes'',
      arc_Timestamp = 0\<rparr>"

definition ARCMetrics_json :: "ARCMetrics \<Rightarrow> json" where
  "ARCMetrics_json m = JObj
     [(''hits'', json_uint (Hits m)),
      (''iohits'', json_uint (Iohits m)),
      (''misses'', json_uint (Misses m)),
      (''mru_hits'', json_uint (MRUHits m)),
      (''mru_ghost_hits'', json_uint (MRUGhostHits m)),
      (''mfu_hits'', json_uint (MFUHits m)),
      (''mfu_ghost_hits'', json_uint (MFUGhostHits m)),
      (''demand_data_hits'', json_uint (DemandDataHits m)),
      (''demand_data_misses'', json_uint (DemandDataMisses m)),
      (''demand_metadata_hits'', json_uint (DemandMetadataHits m)),
      (''demand_metadata_misses'', json_uint (DemandMetadataMisses m)),
      (''prefetch_data_hits'', json_uint (PrefetchDataHits m)),
      (''prefetch_data_misses'', json_uint (PrefetchDataMisses m)),
      (''prefetch_metadata_hits'', json_uint (PrefetchMetaHits m)),
      (''prefetch_metadata_misses'', json_uint (PrefetchMetaMisses m)),
      (''size'', json_uint (Size m)),
      (''c'', json_uint (TargetSize m)),
      (''c_min'', json_uint (MinSize m)),
      (''c_max'', json_uint (MaxSize m)),
      (''data_size'', json_uint (DataSize m)),
      (''metadata_size'', json_uint (MetadataSize m)),
      (''dbuf_size'', json_uint (DbufSize m)),
      (''arc_dnode_size'', json_uint (DnodeSize m)),
      (''hdr_size'', json_uint (HdrSize m)),
      (''deleted'', json_uint (Deleted m)),
      (''l2_size'', json_uint (L2Size m)),
      (''l2_asize'', json_uint (L2Asize m)),
      (''l2_ndev'', json_uint (L2Ndev m)),
      (''l2_hits'', json_uint (L2Hits m)),
      (''l2_misses'', json_uint (L2Misses m)),
      (''memory_all_bytes'', json_uint (MemoryAllBytes m)),
      (''memory_free_bytes'', json_uint (MemoryFreeBytes m)),
      (''memory_available_bytes'', json_uint (MemoryAvailableBytes m)),
      (''timestamp_ms'', JInt (arc_Timestamp m))]"

section \<open>The parser\<close>

definition kstat_field :: "string \<Rightarrow> (string \<times> 64 word) option" where
  "kstat_field line =
     (case Fields line of
        name # typ # val # _ \<Rightarrow>
          (case Atoi typ of None \<Rightarrow> None
           | Some _ \<Rightarrow> map_option (Pair name) (ParseUint val))
      | _ \<Rightarrow> None)"

definition kstat_step :: "string \<Rightarrow> (string \<rightharpoonup> 64 word) \<Rightarrow> (string \<rightharpoonup> 64 word)" where
  "kstat_step line kv = (case kstat_field line of None \<Rightarrow> kv | Some (k, v) \<Rightarrow> kv(k \<mapsto> v))"

datatype arc_error =
    ArcContext string
  | ReadArcstats string string
  | TruncatedFile nat

definition parseARCStats :: "string \<Rightarrow> arc_error + ARCMetrics" where
  "parseARCStats raw =
     (let ls = lines_of (TrimSpace raw) in
      if length ls < 2 then Inl (TruncatedFile (length ls))
      else Inr (metrics_of (kv_get (fold kstat_step (drop 2 ls) Map.empty))))"

definition fetchARC :: "string \<Rightarrow> host \<Rightarrow> arc_error + ARCMetrics" where
  "fetchARC path h =
     (case ctx_err h of
        Some e \<Rightarrow> Inl (ArcContext e)
      | None \<Rightarrow>
          (case read_file h path of
             Inl e \<Rightarrow> Inl (ReadArcstats path e)
           | Inr raw \<Rightarrow>
               (case parseARCStats raw of
                  Inl e \<Rightarrow> Inl e
                | Inr m \<Rightarrow> Inr (m\<lparr>arc_Timestamp := unix_milli h\<rparr>))))"

definition arc_failure :: string where
  "arc_failure = ''Failed to read ARC stats. Ensure ZFS is loaded and /proc/spl/kstat/zfs/arcstats is readable (usually root or zfs group).''"

definition produceARC :: "host \<Rightarrow> body \<times> status" where
  "produceARC h =
     (case fetchARC arcstatsPath h of
        Inl _ \<Rightarrow> (errBody arc_failure, StatusInternalServerError)
      | Inr m \<Rightarrow> (encode (ARCMetrics_json m), StatusOK))"

interpretation kstat: last_wins kstat_step kstat_field kv_get
  by unfold_locales (auto simp: kstat_step_def kv_get_def split: option.splits)

section \<open>Facts\<close>

lemma kv_get_empty [simp]: "kv_get Map.empty k = 0"
  by (simp add: kv_get_def)

definition kstat_row :: "string \<times> 64 word \<Rightarrow> string" where
  "kstat_row r = Join [fst r, ''4'', show_nat (unat (snd r))] '' ''"








section \<open>Guarantees\<close>



text \<open>
  A row that is no counter is skipped. A line with fewer than three fields,
  with a type column that is no integer, or with a value that is no decimal \<open>uint64\<close> can
  be added anywhere among the rows without changing any counter that is read.
\<close>

theorem arcstats_skips_metadata:
  assumes "kstat_field l = None"
  shows "kv_get (fold kstat_step (pre @ l # post) kv) k = kv_get (fold kstat_step (pre @ post) kv) k"
  by (rule kstat.get_without [OF assms])

lemma arcstats_skips_metadata_witness:
  "kv_get (fold kstat_step ([kstat_row (''c'', 5)] @ ''c 4 -1'' # []) Map.empty) ''c'' =
   kv_get (fold kstat_step ([kstat_row (''c'', 5)] @ []) Map.empty) ''c''"
proof (rule arcstats_skips_metadata)
  have "Fields ''c 4 -1'' = [''c'', ''4'', ''-1'']"
    using Fields_words [of "[''c'', ''4'', ''-1'']"] by (simp add: visible_word_def visible_def)
  then show "kstat_field ''c 4 -1'' = None"
    by (simp add: kstat_field_def ParseUint_def parse_nat_def digit_val_def split: option.split)
qed

text \<open>
  The ARC endpoint answers 200 exactly when the context is alive, the kstat
  file can be read and its text, trimmed, has more than one line; in every other case it
  answers 500 with the fixed error body, never with partial metrics.
\<close>

theorem produceARC_status:
  "(snd (produceARC h) = StatusOK \<longleftrightarrow>
      ctx_err h = None \<and> (\<exists>raw. read_file h arcstatsPath = Inr raw \<and> newline \<in> set (TrimSpace raw))) \<and>
   (snd (produceARC h) \<noteq> StatusOK \<longrightarrow>
      produceARC h = (errBody arc_failure, StatusInternalServerError))"
proof -
  have "length (lines_of s) < 2 \<longleftrightarrow> newline \<notin> set s" for s
    by (induction s) (auto simp: lines_of_def Suc_le_eq split: list.splits)
  then show ?thesis
    by (auto simp: produceARC_def fetchARC_def parseARCStats_def status_defs Let_def
        split: option.split sum.split)
qed

lemma produceARC_status_witness:
  "\<exists>h. snd (produceARC h) \<noteq> StatusOK \<and> produceARC h = (errBody arc_failure, StatusInternalServerError)"
proof -
  define h where "h = bare_host"
  then have "snd (produceARC h) \<noteq> StatusOK" using produceARC_status [of h] by (simp add: bare_host_def)
  with produceARC_status [of h] show ?thesis by blast
qed

end
