(* ===== verification/GoJsonRead.thy ===== *)
theory GoJsonRead
  imports GoJson
begin

text \<open>
  The reader of \<open>encoding/json\<close>: from the bytes to a tree of values. Numbers stay literals,
  objects keep the order and the repetitions of their members, and strings are unquoted as
  Go does it: escapes, surrogate pairs, and the replacement character for what is not
  valid UTF-8. Any syntax error, data after the value, or a nesting deeper than 10000
  makes the result \<open>None\<close>.

  The recursive descent is given fuel, one unit per call; \<open>json_fuel\<close> is enough for every
  input (lemma \<open>read_fuel_enough\<close>), so running out of fuel is never why a text is rejected.
\<close>

datatype jtree =
    TNull
  | TBool bool
  | TNum string
  | TStr string
  | TArr "jtree list"
  | TObj "(string \<times> jtree) list"

section \<open>Strings\<close>

definition replacement :: string where
  "replacement = [CHR 0xEF, CHR 0xBF, CHR 0xBD]"

definition utf8 :: "nat \<Rightarrow> string" where
  "utf8 n =
     (if n < 0x80 then [char_of n]
      else if n < 0x800 then [char_of (0xC0 + n div 64), char_of (0x80 + n mod 64)]
      else if n < 0x10000
        then [char_of (0xE0 + n div 4096), char_of (0x80 + n div 64 mod 64), char_of (0x80 + n mod 64)]
      else [char_of (0xF0 + n div 262144), char_of (0x80 + n div 4096 mod 64),
            char_of (0x80 + n div 64 mod 64), char_of (0x80 + n mod 64)])"

definition hex_val :: "char \<Rightarrow> nat option" where
  "hex_val c =
     (let b = of_char c :: nat in
      if 48 \<le> b \<and> b \<le> 57 then Some (b - 48)
      else if 97 \<le> b \<and> b \<le> 102 then Some (b - 87)
      else if 65 \<le> b \<and> b \<le> 70 then Some (b - 55)
      else None)"

fun hex4 :: "string \<Rightarrow> (nat \<times> string) option" where
  "hex4 (a # b # c # d # r) =
     (case (hex_val a, hex_val b, hex_val c, hex_val d) of
        (Some w, Some x, Some y, Some z) \<Rightarrow> Some (4096 * w + 256 * x + 16 * y + z, r)
      | _ \<Rightarrow> None)"
| "hex4 _ = None"

text \<open>The second half of a surrogate pair, if it follows.\<close>

definition low_surrogate :: "string \<Rightarrow> (nat \<times> string) option" where
  "low_surrogate s =
     (case s of
        a # b # t \<Rightarrow>
          (if a = backslash \<and> b = CHR ''u'' then
             (case hex4 t of
                Some (m, r) \<Rightarrow> if 0xDC00 \<le> m \<and> m < 0xE000 then Some (m, r) else None
              | None \<Rightarrow> None)
           else None)
      | _ \<Rightarrow> None)"

definition simple_escape :: "char \<Rightarrow> char option" where
  "simple_escape c =
     (if c = quote \<or> c = backslash \<or> c = CHR ''/'' then Some c
      else if c = CHR ''b'' then Some (CHR 0x08)
      else if c = CHR ''f'' then Some (CHR 0x0C)
      else if c = CHR ''n'' then Some (CHR 0x0A)
      else if c = CHR ''r'' then Some (CHR 0x0D)
      else if c = CHR ''t'' then Some (CHR 0x09)
      else None)"

definition prepend :: "string \<Rightarrow> (string \<times> string) option \<Rightarrow> (string \<times> string) option" where
  "prepend p = map_option (\<lambda>(s, r). (p @ s, r))"

lemma prepend_cong [fundef_cong]: "p = p' \<Longrightarrow> x = x' \<Longrightarrow> prepend p x = prepend p' x'"
  by simp

lemma hex4_shorter: "hex4 s = Some (n, r) \<Longrightarrow> length r < length s"
  by (induction s rule: hex4.induct) (auto split: option.splits)

lemma low_surrogate_shorter: "low_surrogate s = Some (n, r) \<Longrightarrow> length r < length s"
  by (auto simp: low_surrogate_def split: list.splits if_splits option.splits dest!: hex4_shorter)

text \<open>The text after an opening quotation mark: its value, and what follows the closing one.\<close>

function read_str :: "string \<Rightarrow> (string \<times> string) option" where
  "read_str [] = None"
| "read_str (c # cs) =
     (if c = quote then Some ([], cs)
      else if c = backslash then
        (case cs of
           [] \<Rightarrow> None
         | d # ds \<Rightarrow>
             (if d = CHR ''u'' then
                (case hex4 ds of
                   None \<Rightarrow> None
                 | Some (n, r) \<Rightarrow>
                     (if 0xD800 \<le> n \<and> n < 0xDC00 then
                        (case low_surrogate r of
                           Some (m, r') \<Rightarrow>
                             prepend (utf8 (0x10000 + (n - 0xD800) * 0x400 + (m - 0xDC00))) (read_str r')
                         | None \<Rightarrow> prepend replacement (read_str r))
                      else if 0xDC00 \<le> n \<and> n < 0xE000 then prepend replacement (read_str r)
                      else prepend (utf8 n) (read_str r)))
              else case simple_escape d of None \<Rightarrow> None | Some x \<Rightarrow> prepend [x] (read_str ds)))
      else if (of_char c :: nat) < 32 then None
      else (let n = rune_len (c # cs) in
            if n = 0 then prepend replacement (read_str cs)
            else prepend (take n (c # cs)) (read_str (drop n (c # cs)))))"
  by pat_completeness auto
termination
  by (relation "measure length") (auto dest!: hex4_shorter low_surrogate_shorter)

declare read_str.simps(2) [simp del]

section \<open>Numbers\<close>

definition is_digit :: "char \<Rightarrow> bool" where
  "is_digit c \<longleftrightarrow> digit_val c \<noteq> None"

definition digits_prefix :: "string \<Rightarrow> string \<times> string" where
  "digits_prefix s = (takeWhile is_digit s, dropWhile is_digit s)"

definition number_int :: "string \<Rightarrow> (string \<times> string) option" where
  "number_int s =
     (case s of
        [] \<Rightarrow> None
      | c # cs \<Rightarrow>
          (if c = CHR ''0'' then Some ([c], cs)
           else if is_digit c then Some (digits_prefix s)
           else None))"

definition number_frac :: "string \<Rightarrow> (string \<times> string) option" where
  "number_frac s =
     (case s of
        [] \<Rightarrow> Some ([], [])
      | c # cs \<Rightarrow>
          (if c = CHR ''.'' then
             (let (ds, r) = digits_prefix cs in if ds = [] then None else Some (c # ds, r))
           else Some ([], s)))"

definition number_exp :: "string \<Rightarrow> (string \<times> string) option" where
  "number_exp s =
     (case s of
        [] \<Rightarrow> Some ([], [])
      | c # cs \<Rightarrow>
          (if c = CHR ''e'' \<or> c = CHR ''E'' then
             (let sgn = (case cs of d # _ \<Rightarrow> if d = CHR ''+'' \<or> d = CHR ''-'' then [d] else [] | [] \<Rightarrow> []);
                  (ds, r) = digits_prefix (drop (length sgn) cs)
              in if ds = [] then None else Some (c # sgn @ ds, r))
           else Some ([], s)))"

definition read_number :: "string \<Rightarrow> (string \<times> string) option" where
  "read_number s =
     (let sgn = (case s of c # _ \<Rightarrow> if c = CHR ''-'' then [c] else [] | [] \<Rightarrow> []) in
      case number_int (drop (length sgn) s) of
        None \<Rightarrow> None
      | Some (i, r1) \<Rightarrow>
          (case number_frac r1 of
             None \<Rightarrow> None
           | Some (f, r2) \<Rightarrow>
               (case number_exp r2 of
                  None \<Rightarrow> None
                | Some (e, r3) \<Rightarrow> Some (sgn @ i @ f @ e, r3))))"

section \<open>Values\<close>

definition json_ws :: "char \<Rightarrow> bool" where
  "json_ws c \<longleftrightarrow> c = CHR 0x20 \<or> c = CHR 0x09 \<or> c = CHR 0x0A \<or> c = CHR 0x0D"

definition skip_ws :: "string \<Rightarrow> string" where
  "skip_ws s = dropWhile json_ws s"

text \<open>A value that is one word: a literal or a number.\<close>

definition read_word :: "string \<Rightarrow> (jtree \<times> string) option" where
  "read_word s =
     (if prefix ''true'' s then Some (TBool True, drop 4 s)
      else if prefix ''false'' s then Some (TBool False, drop 5 s)
      else if prefix ''null'' s then Some (TNull, drop 4 s)
      else map_option (\<lambda>(l, r). (TNum l, r)) (read_number s))"

fun read_value :: "nat \<Rightarrow> string \<Rightarrow> (jtree \<times> string) option"
  and read_elems :: "nat \<Rightarrow> string \<Rightarrow> (jtree list \<times> string) option"
  and read_members :: "nat \<Rightarrow> string \<Rightarrow> ((string \<times> jtree) list \<times> string) option" where
  "read_value 0 s = None"
| "read_value (Suc n) s =
     (case skip_ws s of
        [] \<Rightarrow> None
      | c # cs \<Rightarrow>
          (if c = CHR ''{'' then
             (case skip_ws cs of
                [] \<Rightarrow> None
              | d # r \<Rightarrow>
                  (if d = CHR ''}'' then Some (TObj [], r)
                   else map_option (\<lambda>(ms, r). (TObj ms, r)) (read_members n (d # r))))
           else if c = CHR ''['' then
             (case skip_ws cs of
                [] \<Rightarrow> None
              | d # r \<Rightarrow>
                  (if d = CHR '']'' then Some (TArr [], r)
                   else map_option (\<lambda>(vs, r). (TArr vs, r)) (read_elems n (d # r))))
           else if c = quote then map_option (\<lambda>(v, r). (TStr v, r)) (read_str cs)
           else read_word (c # cs)))"
| "read_elems 0 s = None"
| "read_elems (Suc n) s =
     (case read_value n s of
        None \<Rightarrow> None
      | Some (v, r) \<Rightarrow>
          (case skip_ws r of
             [] \<Rightarrow> None
           | d # r' \<Rightarrow>
               (if d = CHR '','' then map_option (\<lambda>(vs, r). (v # vs, r)) (read_elems n r')
                else if d = CHR '']'' then Some ([v], r')
                else None)))"
| "read_members 0 s = None"
| "read_members (Suc n) s =
     (case skip_ws s of
        [] \<Rightarrow> None
      | c # cs \<Rightarrow>
          (if c \<noteq> quote then None
           else case read_str cs of
             None \<Rightarrow> None
           | Some (k, r) \<Rightarrow>
               (case skip_ws r of
                  [] \<Rightarrow> None
                | d # r' \<Rightarrow>
                    (if d \<noteq> CHR '':'' then None
                     else case read_value n r' of
                       None \<Rightarrow> None
                     | Some (v, r2) \<Rightarrow>
                         (case skip_ws r2 of
                            [] \<Rightarrow> None
                          | e # r3 \<Rightarrow>
                              (if e = CHR '','' then
                                 map_option (\<lambda>(ms, r). ((k, v) # ms, r)) (read_members n r3)
                               else if e = CHR ''}'' then Some ([(k, v)], r3)
                               else None))))))"

fun nesting :: "jtree \<Rightarrow> nat" where
  "nesting (TArr vs) = Suc (fold (\<lambda>v m. max (nesting v) m) vs 0)"
| "nesting (TObj ms) = Suc (fold (\<lambda>(k, v) m. max (nesting v) m) ms 0)"
| "nesting _ = 0"

definition json_fuel :: "string \<Rightarrow> nat" where
  "json_fuel s = 2 * length s + 2"

definition json_read :: "string \<Rightarrow> jtree option" where
  "json_read s =
     (case read_value (json_fuel s) s of
        None \<Rightarrow> None
      | Some (t, r) \<Rightarrow> if skip_ws r = [] \<and> nesting t \<le> 10000 then Some t else None)"

section \<open>Enough fuel\<close>

lemma skip_ws_le: "length (skip_ws s) \<le> length s"
  by (simp add: skip_ws_def length_dropWhile_le)

lemma skip_ws_Cons_less: "skip_ws s = c # r \<Longrightarrow> length r < length s"
  using skip_ws_le [of s] by simp

lemma prependD: "prepend p x = Some (v, r) \<Longrightarrow> \<exists>v'. x = Some (v', r)"
  by (auto simp: prepend_def)

text \<open>What one character of a string leads on to: the rest that is read next.\<close>

lemma read_str_next:
  assumes "read_str (c # cs) = Some (v, r)"
  obtains "r = cs"
  | t p where "length t \<le> length cs" "prepend p (read_str t) = Some (v, r)"
proof (cases "c = quote")
  case True
  then show ?thesis using assms that(1) by (simp add: read_str.simps(2))
next
  case nquote: False
  show ?thesis
  proof (cases "c = backslash")
    case True
    with nquote assms obtain d ds where cs: "cs = d # ds"
      by (cases cs) (simp_all add: read_str.simps(2))
    show ?thesis
    proof (cases "d = CHR ''u''")
      case True
      with nquote \<open>c = backslash\<close> assms cs obtain n r1 where h: "hex4 ds = Some (n, r1)"
        by (cases "hex4 ds") (auto simp: read_str.simps(2) [of backslash])
      have "length r1 \<le> length cs" using hex4_shorter [OF h] cs by simp
      moreover have "length r2 \<le> length cs" if "low_surrogate r1 = Some (m, r2)" for m r2
        using low_surrogate_shorter [OF that] calculation by simp
      ultimately show ?thesis
        using assms True nquote \<open>c = backslash\<close> cs h that(2)
        by (auto simp: read_str.simps(2) [of backslash] split: if_splits option.splits)
    next
      case False
      with nquote \<open>c = backslash\<close> assms cs obtain x where "prepend [x] (read_str ds) = Some (v, r)"
        by (auto simp: read_str.simps(2) [of backslash] split: option.splits)
      then show ?thesis by (rule that(2) [rotated]) (simp add: cs)
    qed
  next
    case False
    with nquote assms show ?thesis
      using that(2) [of cs replacement]
        that(2) [of "drop (rune_len (c # cs)) (c # cs)" "take (rune_len (c # cs)) (c # cs)"]
      by (auto simp: read_str.simps(2) [of c] Let_def split: if_splits)
  qed
qed

lemma read_str_shorter: "read_str s = Some (v, r) \<Longrightarrow> length r < length s"
proof (induction s arbitrary: v rule: length_induct)
  case (1 s)
  show ?case
  proof (cases s)
    case Nil
    with "1.prems" show ?thesis by simp
  next
    case (Cons c cs)
    with "1.prems" have "read_str (c # cs) = Some (v, r)" by simp
    then show ?thesis
    proof (cases rule: read_str_next)
      case 1
      then show ?thesis by (simp add: Cons)
    next
      case (2 t p)
      then obtain v' where "read_str t = Some (v', r)" using prependD by blast
      with 2(1) "1.IH" have "length r < length t" by (simp add: Cons)
      with 2(1) show ?thesis by (simp add: Cons)
    qed
  qed
qed

lemma digits_prefix_le: "digits_prefix s = (d, r) \<Longrightarrow> length r \<le> length s"
  by (auto simp: digits_prefix_def length_dropWhile_le)

lemma number_int_shorter: "number_int s = Some (i, r) \<Longrightarrow> length r < length s"
  by (auto simp: number_int_def digits_prefix_def length_dropWhile_le le_imp_less_Suc
      split: list.splits if_splits)

lemma number_frac_le: "number_frac s = Some (f, r) \<Longrightarrow> length r \<le> length s"
  by (auto simp: number_frac_def Let_def split: list.splits if_splits prod.splits
      dest!: digits_prefix_le)

lemma number_exp_le: "number_exp s = Some (e, r) \<Longrightarrow> length r \<le> length s"
  by (auto simp: number_exp_def Let_def split: list.splits if_splits prod.splits
      dest!: digits_prefix_le)

lemma read_number_shorter:
  assumes "read_number s = Some (l, r)" shows "length r < length s"
proof -
  from assms obtain sgn i r1 f r2 e where
    "number_int (drop (length (sgn :: string)) s) = Some (i, r1)" "number_frac r1 = Some (f, r2)"
    "number_exp r2 = Some (e, r)"
    by (auto simp: read_number_def Let_def split: option.splits)
  then show ?thesis
    using number_int_shorter number_frac_le number_exp_le by fastforce
qed

lemma read_word_shorter: "read_word s = Some (t, r) \<Longrightarrow> length r < length s"
  by (cases s) (auto simp: read_word_def split: if_splits dest: read_number_shorter)

text \<open>What follows a value or a member list: a separator and its rest.\<close>

lemma read_shorter:
  "read_value n s = Some (t, r) \<Longrightarrow> length r < length s"
  "read_elems n s = Some (vs, r) \<Longrightarrow> length r < length s"
  "read_members n s = Some (ms, r) \<Longrightarrow> length r < length s"
proof (induction n arbitrary: s t r vs ms)
  case 0
  { case 1 then show ?case by simp next case 2 then show ?case by simp next case 3 then show ?case by simp }
next
  case (Suc n)
  { case 1
    then show ?case
      using skip_ws_le [of s]
      by (fastforce split: list.splits if_splits dest!: Suc.IH(2,3) read_str_shorter read_word_shorter
          skip_ws_Cons_less)
  next
    case 2
    then show ?case
      by (fastforce split: list.splits if_splits option.splits dest!: Suc.IH(1,2) skip_ws_Cons_less)
  next
    case 3
    then show ?case
      by (fastforce split: list.splits if_splits option.splits
          dest!: Suc.IH(1,3) skip_ws_Cons_less read_str_shorter)
  }
qed

lemma read_fuel_step:
  "2 * length s + 1 \<le> n \<Longrightarrow> read_value (Suc n) s = read_value n s"
  "2 * length s + 2 \<le> n \<Longrightarrow> read_elems (Suc n) s = read_elems n s"
  "2 * length s + 2 \<le> n \<Longrightarrow> read_members (Suc n) s = read_members n s"
proof (induction n arbitrary: s)
  case 0
  { case 1 then show ?case by simp next case 2 then show ?case by simp next case 3 then show ?case by simp }
next
  case (Suc n)
  { case 1
    show ?case
    proof (cases "skip_ws s")
      case (Cons c cs)
      have "read_elems (Suc n) (d # r) = read_elems n (d # r) \<and>
          read_members (Suc n) (d # r) = read_members n (d # r)" if "skip_ws cs = d # r" for d r
        using Suc.IH(2,3) [of "d # r"] 1 skip_ws_Cons_less [OF Cons] skip_ws_Cons_less [OF that] by simp
      then show ?thesis
        unfolding read_value.simps(2) [of "Suc n" s] read_value.simps(2) [of n s]
          by
          (simp add: Cons del: read_elems.simps read_members.simps split: list.split)
    qed simp
  next
    case 2
    have v: "read_value (Suc n) s = read_value n s" using Suc.IH(1) [of s] 2 by simp
    show ?case
    proof (cases "read_value n s")
      case (Some tr)
      obtain t r where tr: "read_value n s = Some (t, r)" using Some by (cases tr) simp
      have "read_elems (Suc n) r' = read_elems n r'" if "skip_ws r = d # r'" for d r'
        using Suc.IH(2) [of r'] 2 read_shorter(1) [OF tr] skip_ws_Cons_less [OF that] by simp
      then show ?thesis
        unfolding read_elems.simps(2) [of "Suc n" s] read_elems.simps(2) [of n s]
          by
          (simp add: v tr del: read_elems.simps read_value.simps split: list.split)
    qed (simp add: v del: read_value.simps)
  next
    case 3
    show ?case
    proof (cases "skip_ws s")
      case (Cons c cs)
      show ?thesis
      proof (cases "read_str cs")
        case (Some kr)
        then obtain k r where kr: "read_str cs = Some (k, r)" by (cases kr) simp
        have v: "read_value (Suc n) r' = read_value n r'" if "skip_ws r = d # r'" for d r'
          using Suc.IH(1) [of r'] 3 skip_ws_Cons_less [OF Cons] read_str_shorter [OF kr]
            skip_ws_Cons_less [OF that] by simp
        have m: "read_members (Suc n) r3 = read_members n r3"
          if "skip_ws r = d # r'" "read_value n r' = Some (t, r2)" "skip_ws r2 = e # r3" for d r' t r2 e r3
          using Suc.IH(3) [of r3] 3 skip_ws_Cons_less [OF Cons] read_str_shorter [OF kr]
            skip_ws_Cons_less [OF that(1)] read_shorter(1) [OF that(2)] skip_ws_Cons_less [OF that(3)]
          by simp
        show ?thesis
          unfolding read_members.simps(2) [of "Suc n" s] read_members.simps(2) [of n s]
          by
            (auto simp add: Cons kr v m simp del: read_members.simps read_value.simps
              split: list.split option.split)
      qed (simp add: Cons)
    qed simp
  }
qed

lemma read_fuel_enough: "json_fuel s \<le> n \<Longrightarrow> read_value n s = read_value (json_fuel s) s"
proof (induction n rule: dec_induct)
  case (step n)
  then show ?case using read_fuel_step(1) [of s n] by (simp add: json_fuel_def)
qed simp

end
