(* ===== verification/GoJsonRound.thy ===== *)
theory GoJsonRound
  imports GoJsonRead
begin

text \<open>
  Reading back what the encoder writes: strings come back as their valid UTF-8 reading,
  integers as their literals, and every value as the tree of what was encoded.
\<close>

section \<open>Strings\<close>

text \<open>A string with every byte that starts no valid sequence replaced.\<close>

function sanitize :: "string \<Rightarrow> string" where
  "sanitize [] = []"
| "sanitize (c # cs) =
     (let n = rune_len (c # cs) in
      if n = 0 then replacement @ sanitize cs
      else take n (c # cs) @ sanitize (drop n (c # cs)))"
  by pat_completeness auto
termination
  by (relation "measure length") auto

declare sanitize.simps(2) [simp del]

lemma rune_len_le: "rune_len s \<le> length s"
  by (cases s rule: rune_len.cases) (auto simp: Let_def split: list.split)

lemma rune_len_le4: "rune_len s \<le> 4"
  by (cases s rule: rune_len.cases) (auto simp: Let_def split: list.split)

lemma rune_len_ascii: "(of_char c :: nat) < 128 \<Longrightarrow> rune_len (c # s) = 1"
  by (simp add: Let_def)

lemma rune_len_1: "rune_len (c # s) = 1 \<Longrightarrow> (of_char c :: nat) < 128"
  by (auto simp: Let_def split: list.splits if_splits)

lemma rune_len_multi: "2 \<le> rune_len (c # s) \<Longrightarrow> 194 \<le> (of_char c :: nat)"
  by (auto simp: Let_def split: list.splits if_splits)

lemma rune_len_take:
  assumes "rune_len s = n" "0 < n"
  shows "rune_len (take n s @ t) = n"
proof -
  obtain c cs where s: "s = c # cs" using assms by (cases s) auto
  show ?thesis
  proof (cases "(of_char c :: nat) < 128")
    case True
    with assms s show ?thesis by (auto simp: Let_def)
  next
    case False
    with assms s obtain d ds where cs: "cs = d # ds" by (cases cs) (auto simp: Let_def)
    show ?thesis
    proof (cases ds)
      case Nil
      with False assms s cs show ?thesis by (auto simp: Let_def split: if_splits)
    next
      case (Cons e es)
      then show ?thesis
        using False assms s cs by (cases es) (auto simp: Let_def numeral_eq_Suc split: if_splits)
    qed
  qed
qed

declare rune_len.simps(2) [simp del]

lemma prepend_simps [simp]:
  "prepend p None = None" "prepend p (Some (s, r)) = Some (p @ s, r)"
  by (simp_all add: prepend_def)

lemma quote_backslash [simp]: "quote \<noteq> backslash" "backslash \<noteq> quote"
  by (simp_all add: quote_def backslash_def)

lemma read_str_quote: "read_str (quote # r) = Some ([], r)"
  by (simp add: read_str.simps(2))

lemma read_str_rune:
  assumes "rune_len s = n" "0 < n" and "s = c # cs" "c \<noteq> quote" "c \<noteq> backslash" "32 \<le> (of_char c :: nat)"
  shows "read_str (take n s @ t) = prepend (take n s) (read_str t)"
proof -
  obtain m where m: "n = Suc m" using assms(2) by (cases n) auto
  have len: "n \<le> length s" using rune_len_le [of s] assms(1) by simp
  have "rune_len (c # (take m cs @ t)) = n"
    using rune_len_take [OF assms(1,2), of t] by (simp add: assms(3) m)
  moreover have "take n (c # (take m cs @ t)) = take n s" "drop n (c # (take m cs @ t)) = t"
    using len by (simp_all add: assms(3) m)
  ultimately have "read_str (c # (take m cs @ t)) = prepend (take n s) (read_str t)"
    using assms(2,4-6) by (subst read_str.simps(2)) (simp add: Let_def)
  then show ?thesis by (simp add: assms(3) m)
qed

lemma read_str_simple:
  "simple_escape d = Some x \<Longrightarrow> d \<noteq> CHR ''u'' \<Longrightarrow>
   read_str (backslash # d # t) = prepend [x] (read_str t)"
  by (subst read_str.simps(2)) simp

lemma read_str_unicode:
  "hex4 (u @ t) = Some (n, t) \<Longrightarrow> n < 0xD800 \<or> 0xE000 \<le> n \<Longrightarrow>
   read_str (backslash # CHR ''u'' # u @ t) = prepend (utf8 n) (read_str t)"
  by (subst read_str.simps(2)) auto

lemma hex_val_char: "d < 16 \<Longrightarrow> hex_val (hex_char d) = Some d"
  by (auto simp: hex_val_def hex_char_def Let_def)

lemma char_consts:
  "char_of (8 :: nat) = CHR 0x08" "char_of (9 :: nat) = CHR 0x09" "char_of (10 :: nat) = CHR 0x0A"
  "char_of (12 :: nat) = CHR 0x0C" "char_of (13 :: nat) = CHR 0x0D"
  "char_of (226 :: nat) = CHR 0xE2" "char_of (128 :: nat) = CHR 0x80" "char_of (168 :: nat) = CHR 0xA8"
  "char_of (169 :: nat) = CHR 0xA9" "char_of (239 :: nat) = CHR 0xEF" "char_of (191 :: nat) = CHR 0xBF"
  "char_of (189 :: nat) = CHR 0xBD"
  by code_simp+

lemma hex_val_zero: "hex_val (CHR ''0'') = Some 0"
  by (simp add: hex_val_def)

lemma read_str_ascii:
  assumes "(of_char c :: nat) < 128"
  shows "read_str (escape_ascii c @ t) = prepend [c] (read_str t)"
proof -
  let ?b = "of_char c :: nat"
  have c: "c = char_of ?b" by simp
  have plain: ?thesis if "escape_ascii c = [c]" "c \<noteq> quote" "c \<noteq> backslash" "32 \<le> ?b"
    using read_str_rune [of "[c]" 1 c "[]" t] that rune_len_ascii [OF assms] by simp
  have uni: "read_str (unicode_escape ?b @ t) = prepend [c] (read_str t)" if "?b < 128"
  proof -
    have "hex4 (''00'' @ [hex_char (?b div 16), hex_char (?b mod 16)] @ t) = Some (?b, t)"
      using that by (simp add: hex_val_char hex_val_zero)
    from read_str_unicode [of "''00'' @ [hex_char (?b div 16), hex_char (?b mod 16)]" t ?b] this that
    show ?thesis by (simp add: unicode_escape_def utf8_def)
  qed
  have simple: "read_str (backslash # d # t) = prepend [c] (read_str t)"
    if "simple_escape d = Some c" "d \<noteq> CHR ''u''" for d
    using read_str_simple [OF that] .
  consider "c = quote \<or> c = backslash" | "?b = 8" | "?b = 12" | "?b = 10" | "?b = 13" | "?b = 9"
    | "c \<noteq> quote" "c \<noteq> backslash" "?b \<notin> {8, 9, 10, 12, 13}" by auto
  then show ?thesis
  proof cases
    case 1
    then show ?thesis using simple [of c]
      by (auto simp: escape_ascii_def Let_def simple_escape_def quote_def backslash_def)
  next
    case 7
    then show ?thesis using plain uni assms by (auto simp: escape_ascii_def Let_def)
  next
    case 2
    then have "c = CHR 0x08" using c char_consts by simp
    then show ?thesis using simple [of "CHR ''b''"]
      by (simp add: escape_ascii_def simple_escape_def quote_def backslash_def)
  next
    case 3
    then have "c = CHR 0x0C" using c char_consts by simp
    then show ?thesis using simple [of "CHR ''f''"]
      by (simp add: escape_ascii_def simple_escape_def quote_def backslash_def)
  next
    case 4
    then have "c = CHR 0x0A" using c char_consts by simp
    then show ?thesis using simple [of "CHR ''n''"]
      by (simp add: escape_ascii_def simple_escape_def quote_def backslash_def)
  next
    case 5
    then have "c = CHR 0x0D" using c char_consts by simp
    then show ?thesis using simple [of "CHR ''r''"]
      by (simp add: escape_ascii_def simple_escape_def quote_def backslash_def)
  next
    case 6
    then have "c = CHR 0x09" using c char_consts by simp
    then show ?thesis using simple [of "CHR ''t''"]
      by (simp add: escape_ascii_def simple_escape_def quote_def backslash_def)
  qed
qed

lemma read_str_ufffd:
  "read_str (backslash # ''ufffd'' @ t) = prepend replacement (read_str t)"
proof -
  have "hex4 (''fffd'' @ t) = Some (0xFFFD, t)" by (simp add: hex_val_def)
  from read_str_unicode [OF this] show ?thesis by (simp add: utf8_def replacement_def char_consts)
qed

lemma read_str_separator:
  "read_str (backslash # ''u2028'' @ t) = prepend [CHR 0xE2, CHR 0x80, CHR 0xA8] (read_str t)"
  "read_str (backslash # ''u2029'' @ t) = prepend [CHR 0xE2, CHR 0x80, CHR 0xA9] (read_str t)"
proof -
  have "hex4 (''2028'' @ t) = Some (0x2028, t)" "hex4 (''2029'' @ t) = Some (0x2029, t)"
    by (simp_all add: hex_val_def)
  from this [THEN read_str_unicode]
  show "read_str (backslash # ''u2028'' @ t) = prepend [CHR 0xE2, CHR 0x80, CHR 0xA8] (read_str t)"
    "read_str (backslash # ''u2029'' @ t) = prepend [CHR 0xE2, CHR 0x80, CHR 0xA9] (read_str t)"
    by (simp_all add: utf8_def char_consts)
qed

lemma read_str_escape: "read_str (escape s @ quote # r) = Some (sanitize s, r)"
proof (induction s rule: length_induct)
  case (1 s)
  show ?case
  proof (cases s)
    case Nil
    then show ?thesis by (simp add: escape.simps(1) read_str_quote)
  next
    case (Cons c cs)
    let ?n = "rune_len (c # cs)"
    have rest: "read_str (escape (drop ?n (c # cs)) @ quote # r) = Some (sanitize (drop ?n (c # cs)), r)"
      if "0 < ?n" using "1.IH" that by (simp add: Cons)
    consider "?n = 0" | "?n = 1" | "2 \<le> ?n" by linarith
    then show ?thesis
    proof cases
      case 1
      with "1.IH" Cons show ?thesis
        using read_str_ufffd [of "escape cs @ quote # r"]
        by (simp add: escape.simps(2) sanitize.simps(2))
    next
      case 2
      have "read_str (escape cs @ quote # r) = Some (sanitize cs, r)" using rest 2 by simp
      with read_str_ascii [OF rune_len_1 [OF 2], of "escape cs @ quote # r"] 2
      show ?thesis by (simp add: Cons escape.simps(2) sanitize.simps(2) Let_def)
    next
      case 3
      have c: "c \<noteq> quote" "c \<noteq> backslash" "32 \<le> (of_char c :: nat)"
        using rune_len_multi [OF 3] by (auto simp: quote_def backslash_def)
      have san: "sanitize (c # cs) = take ?n (c # cs) @ sanitize (drop ?n (c # cs))"
        using 3 by (simp add: sanitize.simps(2) Let_def)
      have esc: "escape (c # cs) =
          (if take ?n (c # cs) = [CHR 0xE2, CHR 0x80, CHR 0xA8] then backslash # ''u2028''
           else if take ?n (c # cs) = [CHR 0xE2, CHR 0x80, CHR 0xA9] then backslash # ''u2029''
           else take ?n (c # cs)) @ escape (drop ?n (c # cs))"
        using 3 by (simp add: escape.simps(2) Let_def)
      have rune: "read_str (take ?n (c # cs) @ t) = prepend (take ?n (c # cs)) (read_str t)" for t
        using 3 c by (intro read_str_rune) auto
      have "read_str ((if take ?n (c # cs) = [CHR 0xE2, CHR 0x80, CHR 0xA8] then backslash # ''u2028''
           else if take ?n (c # cs) = [CHR 0xE2, CHR 0x80, CHR 0xA9] then backslash # ''u2029''
           else take ?n (c # cs)) @ t) = prepend (take ?n (c # cs)) (read_str t)" for t
        using rune [of t] read_str_separator [of t] by simp
      moreover have "0 < ?n" using 3 by simp
      ultimately show ?thesis unfolding Cons esc san append_assoc by (simp only: rest prepend_simps)
    qed
  qed
qed

section \<open>Numbers\<close>

text \<open>What may follow a value in the encoder's output.\<close>

definition value_end :: "string \<Rightarrow> bool" where
  "value_end r \<longleftrightarrow> r = [] \<or> hd r \<in> {CHR '','', CHR '']'', CHR ''}''}"

lemma value_end_digits: "value_end r \<Longrightarrow> takeWhile is_digit r = [] \<and> dropWhile is_digit r = r"
  by (cases r) (auto simp: value_end_def is_digit_def digit_val_def)

lemma value_end_number: "value_end r \<Longrightarrow> number_frac r = Some ([], r) \<and> number_exp r = Some ([], r)"
  by (cases r) (auto simp: value_end_def number_frac_def number_exp_def)

lemma show_nat_all_digits: "\<forall>c \<in> set (show_nat n). is_digit c"
  using show_nat_digits by (auto simp: is_digit_def)

lemma show_nat_zero: "hd (show_nat n) = CHR ''0'' \<Longrightarrow> n = 0"
proof (induction n rule: show_nat.induct)
  case (1 n)
  show ?case
  proof (cases "n < 10")
    case True
    with 1 have "digit_val (digit_char n) = digit_val (CHR ''0'')"
      by (simp add: show_nat.simps [of n])
    with True show ?thesis by (simp add: digit_val_char) (simp add: digit_val_def)
  next
    case False
    with 1 have "n div 10 = 0" by (subst (asm) (2) show_nat.simps) simp
    with False show ?thesis by simp
  qed
qed

lemma number_int_show: "value_end r \<Longrightarrow> number_int (show_nat n @ r) = Some (show_nat n, r)"
proof -
  assume r: "value_end r"
  obtain c cs where c: "show_nat n = c # cs" by (cases "show_nat n") auto
  show ?thesis
  proof (cases "c = CHR ''0''")
    case True
    with c show_nat_zero [of n] have "show_nat n = ''0''"
      by (simp add: show_nat.simps [of 0] digit_char_def char_of_def)
    then show ?thesis by (simp add: number_int_def)
  next
    case False
    have "\<forall>x \<in> set (c # cs). is_digit x" using show_nat_all_digits [of n] c by simp
    with False r show ?thesis
      by (simp add: c number_int_def digits_prefix_def takeWhile_append2 dropWhile_append2
          value_end_digits)
  qed
qed

lemma read_number_Itoa: "value_end r \<Longrightarrow> read_number (Itoa i @ r) = Some (Itoa i, r)"
proof -
  assume r: "value_end r"
  have pos: "read_number (show_nat n @ r) = Some (show_nat n, r)" for n
  proof -
    obtain c cs where c: "show_nat n = c # cs" by (cases "show_nat n") auto
    then have "c \<noteq> CHR ''-''" using show_nat_no_sign [of n] by auto
    then show ?thesis
      using number_int_show [OF r, of n] value_end_number [OF r] by (simp add: c read_number_def Let_def)
  qed
  have "read_number (CHR ''-'' # show_nat n @ r) = Some (CHR ''-'' # show_nat n, r)" for n
    using number_int_show [OF r, of n] value_end_number [OF r] by (simp add: read_number_def Let_def)
  with pos show ?thesis by (simp add: Itoa_def)
qed

text \<open>A number that is a whole text is read the same before the end of a value.\<close>

lemma digits_prefix_append:
  "value_end r \<Longrightarrow> digits_prefix (s @ r) = (fst (digits_prefix s), snd (digits_prefix s) @ r)"
  using value_end_digits [of r] by (induction s) (auto simp: digits_prefix_def)

lemma number_int_append:
  "number_int s = Some (i, t) \<Longrightarrow> value_end r \<Longrightarrow> number_int (s @ r) = Some (i, t @ r)"
  using digits_prefix_append [of r s]
  by (auto simp: number_int_def split: list.splits if_splits)

lemma number_frac_append:
  "number_frac s = Some (f, t) \<Longrightarrow> value_end r \<Longrightarrow> number_frac (s @ r) = Some (f, t @ r)"
  using value_end_number [of r]
  by (cases s) (auto simp: number_frac_def digits_prefix_append split_beta Let_def split: if_splits)

lemma number_exp_append:
  assumes "number_exp s = Some (e, t)" "value_end r"
  shows "number_exp (s @ r) = Some (e, t @ r)"
proof (cases s)
  case Nil
  with assms value_end_number [OF assms(2)] show ?thesis by (simp add: number_exp_def)
next
  case (Cons c cs)
  show ?thesis
  proof (cases cs)
    case Nil
    with assms Cons show ?thesis
      by (auto simp: number_exp_def digits_prefix_def split: if_splits)
  next
    case (Cons d ds)
    with assms \<open>s = c # cs\<close> show ?thesis
      using digits_prefix_append [OF assms(2), of ds] digits_prefix_append [OF assms(2), of "d # ds"]
      by (auto simp: number_exp_def split_beta Let_def split: if_splits)
  qed
qed

lemma read_number_whole:
  assumes "read_number l = Some (l, [])" "value_end r"
  shows "read_number (l @ r) = Some (l, r)"
proof -
  define sgn where "sgn = (case l of c # _ \<Rightarrow> if c = CHR ''-'' then [c] else [] | [] \<Rightarrow> [])"
  obtain i r1 f r2 e where
    1: "number_int (drop (length sgn) l) = Some (i, r1)" "number_frac r1 = Some (f, r2)"
      "number_exp r2 = Some (e, [])" and l: "l = sgn @ i @ f @ e"
    using assms(1) unfolding read_number_def sgn_def [symmetric] Let_def by (auto split: option.splits)
  have "l \<noteq> []" using assms(1) by (auto simp: read_number_def number_int_def)
  then have "(case l @ r of c # _ \<Rightarrow> if c = CHR ''-'' then [c] else [] | [] \<Rightarrow> []) = sgn"
    and "drop (length sgn) (l @ r) = drop (length sgn) l @ r"
    by (auto simp: sgn_def neq_Nil_conv)
  then show ?thesis
    unfolding read_number_def
    using number_int_append [OF 1(1) assms(2)] number_frac_append [OF 1(2) assms(2)]
      number_exp_append [OF 1(3) assms(2)] l
    by simp
qed

lemma read_number_first:
  "read_number l = Some (l, []) \<Longrightarrow> \<exists>c cs. l = c # cs \<and> (c = CHR ''-'' \<or> is_digit c)"
  by (cases l) (auto simp: read_number_def number_int_def is_digit_def digit_val_def Let_def
      split: if_splits option.splits)

lemma read_number_Itoa_whole: "read_number (Itoa i) = Some (Itoa i, [])"
  using read_number_Itoa [of "[]" i] by (simp add: value_end_def)

section \<open>Values\<close>

fun tree_of :: "json \<Rightarrow> jtree" where
  "tree_of JNull = TNull"
| "tree_of (JBool b) = TBool b"
| "tree_of (JInt i) = TNum (Itoa i)"
| "tree_of (JNum l) = TNum l"
| "tree_of (JStr s) = TStr (sanitize s)"
| "tree_of (JArr xs) = TArr (map tree_of xs)"
| "tree_of (JObj ms) = TObj (map (\<lambda>(k, v). (sanitize k, tree_of v)) ms)"

text \<open>The texts of numbers are JSON numbers.\<close>

fun json_ok :: "json \<Rightarrow> bool" where
  "json_ok (JNum l) = (read_number l = Some (l, []))"
| "json_ok (JArr xs) = list_all json_ok xs"
| "json_ok (JObj ms) = list_all (\<lambda>(k, v). json_ok v) ms"
| "json_ok _ = True"

fun value_fuel :: "json \<Rightarrow> nat"
  and elems_fuel :: "json list \<Rightarrow> nat"
  and members_fuel :: "(string \<times> json) list \<Rightarrow> nat" where
  "value_fuel (JArr xs) = Suc (elems_fuel xs)"
| "value_fuel (JObj ms) = Suc (members_fuel ms)"
| "value_fuel _ = 1"
| "elems_fuel [] = 0"
| "elems_fuel (x # xs) = Suc (value_fuel x + elems_fuel xs)"
| "members_fuel [] = 0"
| "members_fuel ((k, v) # ms) = Suc (value_fuel v + members_fuel ms)"

lemma skip_ws_visible: "\<not> json_ws c \<Longrightarrow> skip_ws (c # s) = c # s"
  by (simp add: skip_ws_def)

lemma encode_first:
  "json_ok j \<Longrightarrow> \<exists>c cs. encode j = c # cs \<and> \<not> json_ws c \<and> c \<noteq> CHR ''}'' \<and> c \<noteq> CHR '']''"
proof (cases j)
  case (JInt i)
  then show ?thesis using read_number_first [OF read_number_Itoa_whole, of i]
    by (auto simp: JInt json_ws_def is_digit_def digit_val_def)
next
  case (JNum l)
  assume "json_ok j"
  with JNum show ?thesis using read_number_first [of l]
    by (auto simp: json_ws_def is_digit_def digit_val_def)
qed (auto simp: json_ws_def json_string_def quote_def)

lemma read_value_num:
  assumes "value_end r" "read_number l = Some (l, [])"
  shows "read_value (Suc n) (l @ r) = Some (TNum l, r)"
proof -
  obtain c cs where c: "l = c # cs" "c = CHR ''-'' \<or> is_digit c"
    using read_number_first [OF assms(2)] by blast
  have "skip_ws (l @ r) = l @ r"
    using c by (auto simp: skip_ws_def json_ws_def is_digit_def digit_val_def)
  moreover have "read_word (l @ r) = Some (TNum l, r)"
    using read_number_whole [OF assms(2,1)] c
    by (auto simp: read_word_def is_digit_def digit_val_def)
  ultimately show ?thesis
    using c by (auto simp: is_digit_def digit_val_def quote_def)
qed

lemma read_value_encode:
  "value_fuel j \<le> n \<Longrightarrow> value_end r \<Longrightarrow> json_ok j \<Longrightarrow> read_value n (encode j @ r) = Some (tree_of j, r)"
  and read_elems_encode:
  "elems_fuel xs \<le> n \<Longrightarrow> xs \<noteq> [] \<Longrightarrow> list_all json_ok xs \<Longrightarrow>
     read_elems n (Join (encode_elems xs) '','' @ CHR '']'' # r) = Some (map tree_of xs, r)"
  and read_members_encode:
  "members_fuel ms \<le> n \<Longrightarrow> ms \<noteq> [] \<Longrightarrow> list_all (\<lambda>(k, v). json_ok v) ms \<Longrightarrow>
     read_members n (Join (encode_members ms) '','' @ CHR ''}'' # r) =
       Some (map (\<lambda>(k, v). (sanitize k, tree_of v)) ms, r)"
proof (induction j and xs and ms arbitrary: n r and n r and n r
    rule: encode_encode_elems_encode_members.induct)
  case 1
  then show ?case by (cases n) (simp_all add: skip_ws_def json_ws_def read_word_def quote_def)
next
  case (2 b)
  then show ?case by (cases n) (simp_all add: skip_ws_def json_ws_def read_word_def quote_def)
next
  case (3 i)
  then show ?case
    by (cases n) (simp_all add: read_value_num read_number_Itoa_whole del: read_value.simps(2))
next
  case (4 l)
  then show ?case by (cases n) (simp_all add: read_value_num del: read_value.simps(2))
next
  case (5 s)
  then obtain m where n: "n = Suc m" by (cases n) auto
  have "skip_ws (encode (JStr s) @ r) = quote # escape s @ quote # r"
    by (simp add: json_string_def skip_ws_def json_ws_def quote_def)
  then show ?case by (simp add: n read_str_escape quote_def [symmetric]) (simp add: quote_def)
next
  case (6 xs)
  then obtain m where n: "n = Suc m" "elems_fuel xs \<le> m" by (cases n) auto
  show ?case
  proof (cases xs)
    case Nil
    then show ?thesis by (simp add: n skip_ws_def json_ws_def)
  next
    case (Cons x ys)
    obtain c cs where c: "encode x = c # cs" "\<not> json_ws c" "c \<noteq> CHR '']''"
      using encode_first [of x] "6.prems" Cons by auto
    have "\<exists>t. Join (encode_elems xs) '','' @ CHR '']'' # r = c # t"
      by (cases ys) (simp_all add: Cons c)
    then obtain t where t: "Join (encode_elems xs) '','' @ CHR '']'' # r = c # t" by blast
    have "read_elems m (c # t) = Some (map tree_of xs, r)"
      using "6.IH" [OF n(2), of r] "6.prems" t Cons by simp
    then show ?thesis
      using t c by (simp add: n skip_ws_def json_ws_def del: read_elems.simps)
  qed
next
  case (7 ms)
  then obtain m where n: "n = Suc m" "members_fuel ms \<le> m" by (cases n) auto
  show ?case
  proof (cases ms)
    case Nil
    then show ?thesis by (simp add: n skip_ws_def json_ws_def)
  next
    case (Cons kv ys)
    obtain k v where kv: "kv = (k, v)" by fastforce
    have "\<exists>t. Join (encode_members ms) '','' @ CHR ''}'' # r = quote # t"
      by (cases ys) (auto simp: Cons kv json_string_def)
    then obtain t where t: "Join (encode_members ms) '','' @ CHR ''}'' # r = quote # t" by blast
    have "read_members m (quote # t) = Some (map (\<lambda>(k, v). (sanitize k, tree_of v)) ms, r)"
      using "7.IH" [OF n(2), of r] "7.prems" t Cons by simp
    then show ?thesis
      using t by (simp add: n skip_ws_def json_ws_def quote_def del: read_members.simps)
  qed
next
  case 8
  then show ?case by simp
next
  case (9 x xs)
  then obtain m where n: "n = Suc m" "value_fuel x \<le> m" "elems_fuel xs \<le> m" by (cases n) auto
  show ?case
  proof (cases xs)
    case Nil
    have "read_value m (encode x @ CHR '']'' # r) = Some (tree_of x, CHR '']'' # r)"
      using n(2) "9.prems" by (intro "9.IH") (simp_all add: value_end_def)
    then show ?thesis by (simp add: Nil n skip_ws_def json_ws_def del: read_value.simps)
  next
    case (Cons y ys)
    let ?t = "Join (encode_elems xs) '','' @ CHR '']'' # r"
    have "read_value m (encode x @ CHR '','' # ?t) = Some (tree_of x, CHR '','' # ?t)"
      using n(2) "9.prems" by (intro "9.IH") (simp_all add: value_end_def)
    moreover have "read_elems m ?t = Some (map tree_of xs, r)" using n(3) Cons "9.prems" by (intro "9.IH") auto
    ultimately show ?thesis
      by (simp add: Cons n skip_ws_def json_ws_def del: read_value.simps)
  qed
next
  case 10
  then show ?case by simp
next
  case (11 k v ms)
  then obtain m where n: "n = Suc m" "value_fuel v \<le> m" "members_fuel ms \<le> m" by (cases n) auto
  have key: "read_str (escape k @ quote # t) = Some (sanitize k, t)" for t by (rule read_str_escape)
  have skip: "skip_ws (quote # t) = quote # t" "skip_ws (CHR '':'' # t) = CHR '':'' # t"
    "skip_ws (CHR '','' # t) = CHR '','' # t" "skip_ws (CHR ''}'' # t) = CHR ''}'' # t" for t
    by (simp_all add: skip_ws_def json_ws_def quote_def)
  show ?case
  proof (cases ms)
    case Nil
    have "read_value m (encode v @ CHR ''}'' # r) = Some (tree_of v, CHR ''}'' # r)"
      using n(2) "11.prems" by (intro "11.IH") (simp_all add: value_end_def)
    then show ?thesis by (simp add: Nil n skip key json_string_def del: read_value.simps)
  next
    case (Cons y ys)
    let ?t = "Join (encode_members ms) '','' @ CHR ''}'' # r"
    have "read_value m (encode v @ CHR '','' # ?t) = Some (tree_of v, CHR '','' # ?t)"
      using n(2) "11.prems" by (intro "11.IH") (simp_all add: value_end_def)
    moreover have "read_members m ?t = Some (map (\<lambda>(k, v). (sanitize k, tree_of v)) ms, r)"
      using n(3) Cons "11.prems" by (intro "11.IH") auto
    moreover obtain l ls where "encode_members ms = l # ls" by (cases y) (auto simp: Cons)
    ultimately show ?thesis
      by (simp add: Cons n skip key json_string_def del: read_value.simps)
  qed
qed

text \<open>The whole text: what the encoder writes is read back as the tree of its value.\<close>

lemma json_read_encode:
  assumes "nesting (tree_of j) \<le> 10000" "json_ok j"
  shows "json_read (encode j) = Some (tree_of j)"
proof -
  let ?n = "max (value_fuel j) (json_fuel (encode j))"
  have "read_value ?n (encode j @ []) = Some (tree_of j, [])"
    by (rule read_value_encode) (simp_all add: value_end_def assms(2))
  then have "read_value (json_fuel (encode j)) (encode j) = Some (tree_of j, [])"
    using read_fuel_enough [of "encode j" ?n] by simp
  with assms show ?thesis by (simp add: json_read_def skip_ws_def)
qed

text \<open>Valid UTF-8 is its own reading.\<close>

lemma sanitize_ascii: "\<forall>c \<in> set s. (of_char c :: nat) < 128 \<Longrightarrow> sanitize s = s"
  by (induction s) (simp_all add: sanitize.simps(2) rune_len_ascii)

end
