(* ===== verification/GoJsonDecode.thy ===== *)
theory GoJsonDecode
  imports GoJsonRound "HOL-Library.Char_ord" "HOL-Library.List_Lexorder"
begin

text \<open>
  The decoder of \<open>encoding/json\<close> onto Go values, as combinators. A decoder takes a tree and
  the value that is there already and returns the new value, with \<open>False\<close> if some part of
  the tree did not fit its Go type; Go then goes on and reports an error at the end. Null
  leaves a scalar or a struct as it is and clears a pointer, a slice or a map. A member
  whose name is not exactly a field's is matched without regard to case.

  Slices decode their elements over the old ones, as Go does when a member is repeated; the
  elements beyond a shortened slice, which Go may bring back on a third repetition, are
  taken as zero.
\<close>

type_synonym 'a dec = "jtree \<Rightarrow> 'a \<Rightarrow> 'a \<times> bool"

section \<open>Scalars\<close>

definition dec_string :: "string dec" where
  "dec_string t old = (case t of TStr s \<Rightarrow> (s, True) | TNull \<Rightarrow> (old, True) | _ \<Rightarrow> (old, False))"

definition dec_bool :: "bool dec" where
  "dec_bool t old = (case t of TBool b \<Rightarrow> (b, True) | TNull \<Rightarrow> (old, True) | _ \<Rightarrow> (old, False))"

definition dec_int :: "int dec" where
  "dec_int t old =
     (case t of
        TNum l \<Rightarrow> (case ParseInt l of Some i \<Rightarrow> (i, True) | None \<Rightarrow> (old, False))
      | TNull \<Rightarrow> (old, True)
      | _ \<Rightarrow> (old, False))"

definition dec_uint :: "64 word dec" where
  "dec_uint t old =
     (case t of
        TNum l \<Rightarrow> (case ParseUint l of Some w \<Rightarrow> (w, True) | None \<Rightarrow> (old, False))
      | TNull \<Rightarrow> (old, True)
      | _ \<Rightarrow> (old, False))"

section \<open>Structs\<close>

text \<open>
  Case folding of a member name, as far as it can reach an ASCII field name: the Kelvin sign
  folds to K and the long s to S.
\<close>

definition ascii_upper :: "char \<Rightarrow> char" where
  "ascii_upper c = (let n = of_char c :: nat in if 97 \<le> n \<and> n \<le> 122 then char_of (n - 32) else c)"

fun fold_name :: "string \<Rightarrow> string" where
  "fold_name [] = []"
| "fold_name (c # cs) =
     (if c = CHR 0xC5 \<and> (case cs of d # _ \<Rightarrow> d = CHR 0xBF | [] \<Rightarrow> False)
      then CHR ''S'' # fold_name (drop 1 cs)
      else if c = CHR 0xE2 \<and> take 2 cs = [CHR 0x84, CHR 0xAA]
      then CHR ''K'' # fold_name (drop 2 cs)
      else ascii_upper c # fold_name cs)"

type_synonym 'r field_dec = "string \<times> 'r dec"

definition find_field :: "'r field_dec list \<Rightarrow> string \<Rightarrow> 'r dec option" where
  "find_field fs k =
     (case map_of fs k of
        Some d \<Rightarrow> Some d
      | None \<Rightarrow> map_option snd (find (\<lambda>f. fold_name (fst f) = fold_name k) fs))"

text \<open>The decoder of a field of a record, from its selector and its update.\<close>

definition field :: "string \<Rightarrow> ('r \<Rightarrow> 'a) \<Rightarrow> (('a \<Rightarrow> 'a) \<Rightarrow> 'r \<Rightarrow> 'r) \<Rightarrow> 'a dec \<Rightarrow> 'r field_dec" where
  "field name get upd d =
     (name, \<lambda>t r. let (v, ok) = d t (get r) in (upd (\<lambda>_. v) r, ok))"

fun dec_members :: "'r field_dec list \<Rightarrow> (string \<times> jtree) list \<Rightarrow> 'r \<Rightarrow> 'r \<times> bool" where
  "dec_members fs [] r = (r, True)"
| "dec_members fs ((k, t) # ms) r =
     (case find_field fs k of
        None \<Rightarrow> dec_members fs ms r
      | Some d \<Rightarrow>
          (let (r1, ok) = d t r; (r2, oks) = dec_members fs ms r1 in (r2, ok \<and> oks)))"

definition dec_struct :: "'r field_dec list \<Rightarrow> 'r dec" where
  "dec_struct fs t old =
     (case t of TObj ms \<Rightarrow> dec_members fs ms old | TNull \<Rightarrow> (old, True) | _ \<Rightarrow> (old, False))"

section \<open>Pointers, slices, maps\<close>

definition dec_ptr :: "'a \<Rightarrow> 'a dec \<Rightarrow> 'a option dec" where
  "dec_ptr zero d t old =
     (case t of
        TNull \<Rightarrow> (None, True)
      | _ \<Rightarrow> (let (v, ok) = d t (case old of None \<Rightarrow> zero | Some v \<Rightarrow> v) in (Some v, ok)))"

fun dec_items :: "'a \<Rightarrow> 'a dec \<Rightarrow> jtree list \<Rightarrow> 'a list \<Rightarrow> 'a list \<times> bool" where
  "dec_items zero d [] old = ([], True)"
| "dec_items zero d (t # ts) old =
     (let (v, ok) = d t (case old of [] \<Rightarrow> zero | v # _ \<Rightarrow> v);
          (vs, oks) = dec_items zero d ts (drop 1 old)
      in (v # vs, ok \<and> oks))"

text \<open>A nil slice and an empty one are both \<open>[]\<close>: the program never tells them apart.\<close>

definition dec_slice :: "'a \<Rightarrow> 'a dec \<Rightarrow> 'a list dec" where
  "dec_slice zero d t old =
     (case t of TArr ts \<Rightarrow> dec_items zero d ts old | TNull \<Rightarrow> ([], True) | _ \<Rightarrow> (old, False))"

text \<open>
  A Go map from strings: nil, or its associations in the order of the keys, which is the
  order in which \<open>json.Marshal\<close> writes them. Every member decodes over a zero element and
  replaces an earlier one of its name.
\<close>

type_synonym 'a go_map = "(string \<times> 'a) list option"

fun put :: "string \<Rightarrow> 'a \<Rightarrow> (string \<times> 'a) list \<Rightarrow> (string \<times> 'a) list" where
  "put k v [] = [(k, v)]"
| "put k v ((l, w) # m) =
     (if k < l then (k, v) # (l, w) # m else if k = l then (k, v) # m else (l, w) # put k v m)"

fun dec_entries ::
  "'a \<Rightarrow> 'a dec \<Rightarrow> (string \<times> jtree) list \<Rightarrow> (string \<times> 'a) list \<Rightarrow> (string \<times> 'a) list \<times> bool" where
  "dec_entries zero d [] m = (m, True)"
| "dec_entries zero d ((k, t) # ms) m =
     (let (v, ok) = d t zero; (m', oks) = dec_entries zero d ms (put k v m) in (m', ok \<and> oks))"

definition dec_map :: "'a \<Rightarrow> 'a dec \<Rightarrow> 'a go_map dec" where
  "dec_map zero d t old =
     (case t of
        TObj ms \<Rightarrow>
          (let (m, ok) = dec_entries zero d ms (case old of None \<Rightarrow> [] | Some m \<Rightarrow> m) in (Some m, ok))
      | TNull \<Rightarrow> (None, True)
      | _ \<Rightarrow> (old, False))"

definition json_map :: "('a \<Rightarrow> json) \<Rightarrow> 'a go_map \<Rightarrow> json" where
  "json_map f m =
     (case m of None \<Rightarrow> JNull | Some kvs \<Rightarrow> JObj (map (\<lambda>(k, v). (k, f v)) kvs))"

section \<open>Unmarshal\<close>

definition Unmarshal :: "'a dec \<Rightarrow> 'a \<Rightarrow> string \<Rightarrow> 'a option" where
  "Unmarshal d zero s =
     (case json_read s of
        None \<Rightarrow> None
      | Some t \<Rightarrow> (let (v, ok) = d t zero in if ok then Some v else None))"

section \<open>Maps\<close>

lemma map_of_put: "map_of (put k v m) = (map_of m)(k \<mapsto> v)"
  by (induction k v m rule: put.induct) auto

lemma put_keys: "fst ` set (put k v m) = insert k (fst ` set m)"
  by (induction k v m rule: put.induct) auto

lemma put_values: "(l, w) \<in> set (put k v m) \<Longrightarrow> (l, w) = (k, v) \<or> (l, w) \<in> set m"
  by (induction k v m rule: put.induct) (auto split: if_splits)

definition map_sorted :: "(string \<times> 'a) list \<Rightarrow> bool" where
  "map_sorted m \<longleftrightarrow> sorted_wrt (<) (map fst m)"

lemma put_sorted: "map_sorted m \<Longrightarrow> map_sorted (put k v m)"
  unfolding map_sorted_def
  by (induction k v m rule: put.induct) (auto simp: put_keys dest: less_trans)

lemma put_last: "\<forall>l \<in> fst ` set m. l < k \<Longrightarrow> put k v m = m @ [(k, v)]"
  by (induction k v m rule: put.induct) auto

lemma dec_entries_append:
  assumes "map_sorted (m @ kvs)" and "\<forall>(k, v) \<in> set kvs. d (f v) zero = (v, True)"
  shows "dec_entries zero d (map (\<lambda>(k, v). (k, f v)) kvs) m = (m @ kvs, True)"
  using assms
proof (induction kvs arbitrary: m)
  case (Cons kv kvs)
  obtain k v where kv: "kv = (k, v)" by fastforce
  have "put k v m = m @ [(k, v)]"
    using Cons.prems(1) by (intro put_last) (auto simp: map_sorted_def sorted_wrt_append kv)
  moreover have "dec_entries zero d (map (\<lambda>(k, v). (k, f v)) kvs) (m @ [(k, v)]) = (m @ kv # kvs, True)"
    using Cons.IH [of "m @ [(k, v)]"] Cons.prems by (simp add: kv)
  ultimately show ?case using Cons.prems(2) by (simp add: kv)
qed simp

lemma dec_entries_sorted: "map_sorted m \<Longrightarrow> map_sorted (fst (dec_entries zero d ms m))"
  by (induction ms arbitrary: m) (auto simp: put_sorted split_beta Let_def)

section \<open>Facts\<close>

lemma dec_struct_Obj: "dec_struct fs (TObj ms) old = dec_members fs ms old"
  by (simp add: dec_struct_def)

lemma find_field_exact [simp]: "map_of fs k = Some d \<Longrightarrow> find_field fs k = Some d"
  by (simp add: find_field_def)

lemma find_field_name:
  "find_field fs k = Some d \<Longrightarrow> \<exists>n. (n, d) \<in> set fs \<and> fold_name n = fold_name k"
  by (auto simp: find_field_def find_Some_iff split: option.splits dest: map_of_SomeD)
    (metis fst_conv nth_mem)

text \<open>Members whose decoders keep a property of the record keep it.\<close>

lemma dec_members_frame:
  assumes "\<And>k t d r. (k, t) \<in> set ms \<Longrightarrow> find_field fs k = Some d \<Longrightarrow> P r \<Longrightarrow> P (fst (d t r))" and "P r"
  shows "P (fst (dec_members fs ms r))"
  using assms
proof (induction ms arbitrary: r)
  case (Cons kt ms)
  obtain k t where kt: "kt = (k, t)" by fastforce
  have IH: "P (fst (dec_members fs ms r'))" if "P r'" for r'
    using Cons.prems(1) that by (intro Cons.IH) (meson list.set_intros(2))+
  show ?case
  proof (cases "find_field fs k")
    case (Some d)
    then have "P (fst (d t r))" using Cons.prems by (auto simp: kt)
    from IH [OF this] show ?thesis by (simp add: kt Some split_beta Let_def)
  qed (use IH Cons.prems(2) in \<open>simp add: kt\<close>)
qed simp

lemma dec_members_append:
  "dec_members fs (ms @ ns) r =
     (let (r1, ok) = dec_members fs ms r; (r2, oks) = dec_members fs ns r1 in (r2, ok \<and> oks))"
  by (induction ms arbitrary: r) (auto simp: split_beta Let_def split: option.split)

lemma nesting_fold_le: "(m :: nat) \<le> fold (\<lambda>x. max (f x)) xs m"
  by (induction xs arbitrary: m) (simp, metis fold_Cons max.bounded_iff o_apply)

lemma nesting_fold: "x \<in> set xs \<Longrightarrow> f x \<le> fold (\<lambda>x. max (f x)) xs (m :: nat)"
proof (induction xs arbitrary: m)
  case (Cons y xs)
  then show ?case using nesting_fold_le [of "max (f y) m" f xs] by auto
qed simp

lemma nesting_member: "(k, t) \<in> set ms \<Longrightarrow> nesting t < nesting (TObj ms)"
  using nesting_fold [of "(k, t)" ms "\<lambda>(k, t). nesting t" 0]
  by (simp add: case_prod_unfold less_Suc_eq_le)

lemma nesting_elem: "t \<in> set ts \<Longrightarrow> nesting t < nesting (TArr ts)"
  using nesting_fold [of t ts nesting 0] by (simp add: less_Suc_eq_le)

text \<open>A decoder depends on the decoders of the parts of its tree only.\<close>

lemma dec_entries_cong:
  "(\<And>k t. (k, t) \<in> set ms \<Longrightarrow> d t zero = d' t zero) \<Longrightarrow>
   dec_entries zero d ms m = dec_entries zero d' ms m"
proof (induction ms arbitrary: m)
  case (Cons kt ms)
  obtain k t where kt: "kt = (k, t)" by fastforce
  have "d t zero = d' t zero" using Cons.prems [of k t] by (simp add: kt)
  moreover have "dec_entries zero d ms m' = dec_entries zero d' ms m'" for m'
    using Cons.prems by (intro Cons.IH) (meson list.set_intros(2))
  ultimately show ?case by (simp add: kt)
qed simp

lemma dec_map_cong:
  assumes "\<And>u. nesting u < nesting t \<Longrightarrow> d u zero = d' u zero"
  shows "dec_map zero d t old = dec_map zero d' t old"
proof (cases t)
  case (TObj ms)
  have "dec_entries zero d ms m = dec_entries zero d' ms m" for m
    using assms nesting_member by (intro dec_entries_cong) (fastforce simp: TObj simp del: nesting.simps)
  then show ?thesis by (simp add: dec_map_def TObj)
qed (simp_all add: dec_map_def)

lemma find_field_all2:
  assumes "list_all2 (\<lambda>f g. fst f = fst g \<and> P (snd f) (snd g)) fs gs"
  shows "rel_option P (find_field fs k) (find_field gs k)"
proof -
  have "rel_option P (map_of fs k) (map_of gs k)"
    using assms by (induction rule: list_all2_induct) auto
  moreover have "rel_option P (map_option snd (find (\<lambda>f. fold_name (fst f) = fold_name k) fs))
      (map_option snd (find (\<lambda>f. fold_name (fst f) = fold_name k) gs))"
    using assms by (induction rule: list_all2_induct) auto
  ultimately show ?thesis
    by (cases "map_of fs k"; cases "map_of gs k") (simp_all add: find_field_def)
qed

lemma dec_members_cong:
  assumes "list_all2 (\<lambda>f g. fst f = fst g \<and> (\<forall>(k, t) \<in> set ms. \<forall>r. snd f t r = snd g t r)) fs gs"
  shows "dec_members fs ms r = dec_members gs ms r"
  using assms
proof (induction ms arbitrary: r)
  case (Cons kt ms)
  obtain k t where kt: "kt = (k, t)" by fastforce
  have IH: "dec_members fs ms r' = dec_members gs ms r'" for r'
    using Cons.prems by (intro Cons.IH) (auto elim!: list_all2_mono)
  have "rel_option (\<lambda>d d'. \<forall>r. d t r = d' t r) (find_field fs k) (find_field gs k)"
    using Cons.prems by (intro find_field_all2) (auto simp: kt elim!: list_all2_mono)
  with IH show ?case
    by (cases "find_field fs k"; cases "find_field gs k") (simp_all add: kt)
qed simp

end
