(* ===== verification/GoCodec.thy ===== *)
theory GoCodec
  imports GoJsonDecode
begin

text \<open>
  What a decoder of a Go type and the encoder of that type owe each other, as the locale
  \<open>codec\<close>: decoding keeps to the values the Go type has, and decoding what was encoded
  gives the value back. The laws hold for trees whose strings are valid UTF-8; the reader
  makes no others (\<open>json_read_valid\<close>). The clauses for scalars are interpretations, those
  for pointers, slices and maps are rules from one codec to another, and a struct is put
  together from its fields by \<open>dec_struct_fits\<close> and the equations of \<open>dec_members\<close>.
\<close>

section \<open>Valid text\<close>

definition valid_utf8 :: "string \<Rightarrow> bool" where
  "valid_utf8 s \<longleftrightarrow> sanitize s = s"

lemma valid_utf8_Nil [simp]: "valid_utf8 []"
  by (simp add: valid_utf8_def)

lemma sanitize_rune:
  "rune_len (p @ s) = length p \<Longrightarrow> p \<noteq> [] \<Longrightarrow> sanitize (p @ s) = p @ sanitize s"
  by (cases p) (simp_all add: sanitize.simps(2))

lemma valid_utf8_rune:
  "rune_len (p @ s) = length p \<Longrightarrow> p \<noteq> [] \<Longrightarrow> valid_utf8 s \<Longrightarrow> valid_utf8 (p @ s)"
  by (simp add: valid_utf8_def sanitize_rune)

lemma rune_len_replacement: "rune_len (replacement @ s) = 3"
  by (simp add: replacement_def rune_len.simps(2) cont_in_def)

lemma valid_utf8_replacement: "valid_utf8 s \<Longrightarrow> valid_utf8 (replacement @ s)"
  by (rule valid_utf8_rune) (simp add: rune_len_replacement, simp_all add: replacement_def)

text \<open>The code points that a string can hold: not the surrogates.\<close>

definition scalar_value :: "nat \<Rightarrow> bool" where
  "scalar_value n \<longleftrightarrow> n < 0xD800 \<or> 0xE000 \<le> n \<and> n < 0x110000"

text \<open>The lengths of the sequences, from their bytes.\<close>

lemma byte_of_char: "n < 256 \<Longrightarrow> of_char (char_of n) = (n :: nat)"
  by simp

lemma cont_in_byte: "b < 256 \<Longrightarrow> cont_in lo hi (char_of b) \<longleftrightarrow> lo \<le> b \<and> b \<le> hi"
  by (simp add: cont_in_def byte_of_char)

lemma rune_len_2:
  "0xC2 \<le> (a :: nat) \<Longrightarrow> a \<le> 0xDF \<Longrightarrow> 0x80 \<le> (b :: nat) \<Longrightarrow> b \<le> 0xBF \<Longrightarrow>
   rune_len (char_of a # char_of b # s) = 2"
  by (simp add: rune_len.simps(2) cont_in_byte byte_of_char Let_def)

lemma rune_len_3:
  "0xE0 \<le> (a :: nat) \<Longrightarrow> a \<le> 0xEF \<Longrightarrow> 0x80 \<le> (b :: nat) \<Longrightarrow> b \<le> 0xBF \<Longrightarrow> 0x80 \<le> (c :: nat) \<Longrightarrow> c \<le> 0xBF \<Longrightarrow>
   (a = 0xE0 \<Longrightarrow> 0xA0 \<le> b) \<Longrightarrow> (a = 0xED \<Longrightarrow> b \<le> 0x9F) \<Longrightarrow>
   rune_len (char_of a # char_of b # char_of c # s) = 3"
  by (simp add: rune_len.simps(2) cont_in_byte byte_of_char Let_def)

lemma rune_len_4:
  "0xF0 \<le> (a :: nat) \<Longrightarrow> a \<le> 0xF4 \<Longrightarrow> 0x80 \<le> (b :: nat) \<Longrightarrow> b \<le> 0xBF \<Longrightarrow> 0x80 \<le> (c :: nat) \<Longrightarrow> c \<le> 0xBF \<Longrightarrow>
   0x80 \<le> (d :: nat) \<Longrightarrow> d \<le> 0xBF \<Longrightarrow> (a = 0xF0 \<Longrightarrow> 0x90 \<le> b) \<Longrightarrow> (a = 0xF4 \<Longrightarrow> b \<le> 0x8F) \<Longrightarrow>
   rune_len (char_of a # char_of b # char_of c # char_of d # s) = 4"
  by (simp add: rune_len.simps(2) cont_in_byte byte_of_char Let_def)

lemma low_bits: "0x80 \<le> 0x80 + m mod (64 :: nat)" "0x80 + m mod (64 :: nat) \<le> 0xBF"
  using mod_less_divisor [of 64 m] by (simp, linarith)

lemma rune_len_utf8:
  assumes n: "scalar_value n" shows "rune_len (utf8 n @ s) = length (utf8 n)"
proof -
  consider "n < 0x80" | "0x80 \<le> n" "n < 0x800" | "0x800 \<le> n" "n < 0x10000"
    | "0x10000 \<le> n" "n < 0x110000"
    using n unfolding scalar_value_def by linarith
  then show ?thesis
  proof cases
    case 1
    then show ?thesis by (simp add: utf8_def rune_len.simps(2))
  next
    case 2
    have "rune_len (char_of (0xC0 + n div 64) # char_of (0x80 + n mod 64) # s) = 2"
      using div_le_mono [of "0x80" n 64] div_le_mono [of n "0x7FF" 64] 2
      by (intro rune_len_2 low_bits) simp_all
    with 2 show ?thesis by (simp add: utf8_def)
  next
    case 3
    have top: "n div 4096 = n div 64 div 64" by (simp add: div_mult2_eq [symmetric])
    have "0xA0 \<le> 0x80 + n div 64 mod 64" if "0xE0 + n div 4096 = 0xE0"
    proof -
      have "n div 64 < 64" using that top by (simp add: div_eq_0_iff)
      with div_le_mono [of "0x800" n 64] 3 show ?thesis by simp
    qed
    moreover have "0x80 + n div 64 mod 64 \<le> 0x9F" if "0xE0 + n div 4096 = 0xED"
    proof -
      have "n < 0xE000" using that div_le_mono [of "0xE000" n 4096] by (cases "n < 0xE000") simp_all
      with n have "n \<le> 0xD7FF" by (simp add: scalar_value_def)
      then have "n div 64 \<le> 64 * 13 + 31" using div_le_mono [of n "0xD7FF" 64] by simp
      moreover have "n div 64 = 64 * 13 + n div 64 mod 64"
        using that top mult_div_mod_eq [of 64 "n div 64"] by simp
      ultimately show ?thesis by linarith
    qed
    ultimately have "rune_len (char_of (0xE0 + n div 4096) # char_of (0x80 + n div 64 mod 64) #
        char_of (0x80 + n mod 64) # s) = 3"
      using div_le_mono [of n "0xFFFF" 4096] 3 by (intro rune_len_3 low_bits) simp_all
    with 3 show ?thesis by (simp add: utf8_def)
  next
    case 4
    have top: "n div 262144 = n div 4096 div 64" by (simp add: div_mult2_eq [symmetric])
    have "0x90 \<le> 0x80 + n div 4096 mod 64" if "0xF0 + n div 262144 = 0xF0"
    proof -
      have "n div 4096 < 64" using that top by (simp add: div_eq_0_iff)
      with div_le_mono [of "0x10000" n 4096] 4 show ?thesis by simp
    qed
    moreover have "0x80 + n div 4096 mod 64 \<le> 0x8F" if "0xF0 + n div 262144 = 0xF4"
    proof -
      have "n div 4096 \<le> 64 * 4 + 15" using div_le_mono [of n "0x10FFFF" 4096] 4 by simp
      moreover have "n div 4096 = 64 * 4 + n div 4096 mod 64"
        using that top mult_div_mod_eq [of 64 "n div 4096"] by simp
      ultimately show ?thesis by linarith
    qed
    ultimately have "rune_len (char_of (0xF0 + n div 262144) # char_of (0x80 + n div 4096 mod 64) #
        char_of (0x80 + n div 64 mod 64) # char_of (0x80 + n mod 64) # s) = 4"
      using div_le_mono [of n "0x10FFFF" 262144] 4 by (intro rune_len_4 low_bits) simp_all
    with 4 show ?thesis by (simp add: utf8_def)
  qed
qed

section \<open>What the reader makes\<close>

definition utf8_chunk :: "string \<Rightarrow> bool" where
  "utf8_chunk p \<longleftrightarrow> (\<forall>s. valid_utf8 s \<longrightarrow> valid_utf8 (p @ s))"

lemma chunk_replacement: "utf8_chunk replacement"
  by (simp add: utf8_chunk_def valid_utf8_replacement)

lemma chunk_utf8: "scalar_value n \<Longrightarrow> utf8_chunk (utf8 n)"
  unfolding utf8_chunk_def
  by (intro allI impI valid_utf8_rune rune_len_utf8) (simp_all add: utf8_def)

lemma chunk_ascii: "(of_char c :: nat) < 128 \<Longrightarrow> utf8_chunk [c]"
  by (simp add: utf8_chunk_def valid_utf8_def sanitize.simps(2) rune_len_ascii)

lemma chunk_rune:
  assumes "rune_len s = n" "0 < n" shows "utf8_chunk (take n s)"
proof -
  have "length (take n s) = n" using rune_len_le [of s] assms(1) by simp
  moreover have "take n s \<noteq> []" using assms by (cases s) simp_all
  ultimately show ?thesis
    using rune_len_take [OF assms]
    unfolding utf8_chunk_def by (intro allI impI valid_utf8_rune) simp_all
qed

lemma hex_val_less: "hex_val c = Some d \<Longrightarrow> d < 16"
  by (auto simp: hex_val_def Let_def split: if_splits)

lemma hex4_less: "hex4 s = Some (n, r) \<Longrightarrow> n < 0x10000"
  by (induction s rule: hex4.induct) (auto split: option.splits dest!: hex_val_less)

lemma simple_escape_ascii: "simple_escape d = Some x \<Longrightarrow> (of_char x :: nat) < 128"
  by (auto simp: simple_escape_def quote_def backslash_def split: if_splits)

lemma low_surrogate_range: "low_surrogate s = Some (m, r) \<Longrightarrow> 0xDC00 \<le> m \<and> m < 0xE000"
  by (auto simp: low_surrogate_def split: list.splits if_splits option.splits)

text \<open>Each character read appends a chunk.\<close>

lemma read_str_chunk:
  assumes "read_str (c # cs) = Some (v, r)"
  obtains "v = []"
  | t p where "length t \<le> length cs" "utf8_chunk p" "prepend p (read_str t) = Some (v, r)"
proof (cases "c = quote")
  case True
  then show ?thesis using assms that(1) by (simp add: read_str.simps(2))
next
  case nquote: False
  show ?thesis
  proof (cases "c = backslash")
    case True
    with nquote assms obtain d ds where cs: "cs = d # ds"
      by (cases cs) (simp_all add: read_str.simps(2))
    show ?thesis
    proof (cases "d = CHR ''u''")
      case du: True
      with True assms cs obtain n r1 where h: "hex4 ds = Some (n, r1)"
        by (cases "hex4 ds") (auto simp: read_str.simps(2) [of backslash])
      have r1: "length r1 \<le> length cs" using hex4_shorter [OF h] cs by simp
      note n = hex4_less [OF h]
      consider "0xD800 \<le> n" "n < 0xDC00" | "0xDC00 \<le> n" "n < 0xE000" | "scalar_value n"
        using n unfolding scalar_value_def by linarith
      then show ?thesis
      proof cases
        case 1
        show ?thesis
        proof (cases "low_surrogate r1")
          case None
          with 1 assms True du cs h that(2) [OF r1 chunk_replacement] show ?thesis
            by (simp add: read_str.simps(2) [of backslash])
        next
          case (Some mr)
          obtain m r2 where m: "low_surrogate r1 = Some (m, r2)" using Some by (cases mr) simp
          have "scalar_value (0x10000 + (n - 0xD800) * 0x400 + (m - 0xDC00))"
            using low_surrogate_range [OF m] 1 unfolding scalar_value_def by linarith
          from that(2) [OF _ chunk_utf8 [OF this], of r2] low_surrogate_shorter [OF m] r1 1 assms True du cs h m
          show ?thesis by (simp add: read_str.simps(2) [of backslash])
        qed
      next
        case 2
        with assms True du cs h that(2) [OF r1 chunk_replacement] show ?thesis
          by (simp add: read_str.simps(2) [of backslash])
      next
        case 3
        then have "\<not> (0xD800 \<le> n \<and> n < 0xDC00)" "\<not> (0xDC00 \<le> n \<and> n < 0xE000)"
          by (auto simp: scalar_value_def)
        with assms True du cs h that(2) [OF r1 chunk_utf8 [OF 3]] show ?thesis
          by (simp add: read_str.simps(2) [of backslash])
      qed
    next
      case False
      with True assms cs obtain x where "simple_escape d = Some x" "prepend [x] (read_str ds) = Some (v, r)"
        by (auto simp: read_str.simps(2) [of backslash] split: option.splits)
      then show ?thesis using that(2) [of ds "[x]"] chunk_ascii [OF simple_escape_ascii] cs by simp
    qed
  next
    case False
    let ?n = "rune_len (c # cs)"
    show ?thesis
    proof (cases "?n = 0")
      case True
      with nquote False assms that(2) [of cs, OF _ chunk_replacement] show ?thesis
        by (simp add: read_str.simps(2) [of c] split: if_splits)
    next
      case n: False
      then obtain m where m: "?n = Suc m" by (cases ?n) auto
      with nquote False n assms that(2) [of "drop ?n (c # cs)", OF _ chunk_rune [of "c # cs" ?n]]
      show ?thesis by (simp add: read_str.simps(2) [of c] split: if_splits)
    qed
  qed
qed

lemma read_str_valid: "read_str s = Some (v, r) \<Longrightarrow> valid_utf8 v"
proof (induction s arbitrary: v rule: length_induct)
  case (1 s)
  show ?case
  proof (cases s)
    case Nil
    with "1.prems" show ?thesis by simp
  next
    case (Cons c cs)
    with "1.prems" have "read_str (c # cs) = Some (v, r)" by simp
    then show ?thesis
    proof (cases rule: read_str_chunk)
      case 1
      then show ?thesis by simp
    next
      case (2 t p)
      then obtain v' where "read_str t = Some (v', r)" "v = p @ v'" by (cases "read_str t") auto
      moreover have "valid_utf8 v'"
        using "1.IH" 2(1) \<open>read_str t = Some (v', r)\<close> by (auto simp: Cons less_Suc_eq_le)
      ultimately show ?thesis using 2(2) by (simp add: utf8_chunk_def)
    qed
  qed
qed

fun valid_tree :: "jtree \<Rightarrow> bool" where
  "valid_tree (TStr s) = valid_utf8 s"
| "valid_tree (TArr ts) = list_all valid_tree ts"
| "valid_tree (TObj ms) = list_all (\<lambda>(k, t). valid_utf8 k \<and> valid_tree t) ms"
| "valid_tree _ = True"

lemma read_word_valid: "read_word s = Some (t, r) \<Longrightarrow> valid_tree t"
  by (auto simp: read_word_def split: if_splits)

lemma read_valid:
  "read_value n s = Some (t, r) \<Longrightarrow> valid_tree t"
  "read_elems n s = Some (vs, r) \<Longrightarrow> list_all valid_tree vs"
  "read_members n s = Some (ms, r) \<Longrightarrow> list_all (\<lambda>(k, t). valid_utf8 k \<and> valid_tree t) ms"
proof (induction n arbitrary: s t r vs ms)
  case 0
  { case 1 then show ?case by simp next case 2 then show ?case by simp next case 3 then show ?case by simp }
next
  case (Suc n)
  { case 1
    then show ?case
      by (fastforce split: list.splits if_splits dest: Suc.IH(2,3) read_str_valid read_word_valid)
  next
    case 2
    then show ?case
      by (fastforce split: list.splits if_splits option.splits dest: Suc.IH(1,2))
  next
    case 3
    then show ?case
      by (fastforce split: list.splits if_splits option.splits dest: Suc.IH(1,3) read_str_valid)
  }
qed

lemma json_read_valid: "json_read s = Some t \<Longrightarrow> valid_tree t"
  by (auto simp: json_read_def read_valid split: option.splits if_splits)

section \<open>Codecs\<close>

locale codec =
  fixes dec :: "'a dec" and enc :: "'a \<Rightarrow> json" and zero :: 'a and fits :: "'a \<Rightarrow> bool"
  assumes fits_zero: "fits zero"
    and fits_dec: "valid_tree t \<Longrightarrow> fits old \<Longrightarrow> fits (fst (dec t old))"
    and dec_enc: "fits v \<Longrightarrow> dec (tree_of (enc v)) zero = (v, True)"
    and enc_ok: "json_ok (enc v)"
begin

lemma Unmarshal_fits: "Unmarshal dec zero s = Some v \<Longrightarrow> fits v"
  using fits_dec [OF json_read_valid fits_zero]
  by (auto simp: Unmarshal_def split: option.splits prod.splits if_splits) (metis fst_conv)

lemma Unmarshal_encode:
  "fits v \<Longrightarrow> nesting (tree_of (enc v)) \<le> 10000 \<Longrightarrow> Unmarshal dec zero (encode (enc v)) = Some v"
  by (simp add: Unmarshal_def json_read_encode dec_enc enc_ok)

lemma Unmarshal_again:
  "Unmarshal dec zero s = Some v \<Longrightarrow> nesting (tree_of (enc v)) \<le> 10000 \<Longrightarrow>
   Unmarshal dec zero (encode (enc v)) = Some v"
  by (rule Unmarshal_encode [OF Unmarshal_fits])

end

subsection \<open>Scalars\<close>

interpretation str: codec dec_string JStr "[]" valid_utf8
  by unfold_locales (auto simp: dec_string_def valid_utf8_def split: jtree.split)

interpretation bit: codec dec_bool JBool False "\<lambda>_. True"
  by unfold_locales (auto simp: dec_bool_def)

definition int64 :: "int \<Rightarrow> bool" where
  "int64 i \<longleftrightarrow> - (2 ^ 63) \<le> i \<and> i < 2 ^ 63"

lemma Atoi_int64: "Atoi s = Some i \<Longrightarrow> int64 i"
  by (auto simp: Atoi_def int64_def split: list.splits if_splits option.splits)

interpretation num: codec dec_int JInt 0 int64
  by unfold_locales
    (auto simp: dec_int_def ParseInt_def Atoi_Itoa int64_def split: jtree.split option.split
      dest: Atoi_int64)

lemma Itoa_uint: "Itoa (uint w) = show_nat (unat w)"
  by (simp add: Itoa_def not_less)

interpretation uns: codec dec_uint json_uint 0 "\<lambda>_. True"
  by unfold_locales (auto simp: dec_uint_def json_uint_def Itoa_uint ParseUint_show_word)

subsection \<open>Slices and maps\<close>

lemma dec_items_fits:
  assumes "codec dec enc zero fits" "list_all valid_tree ts" "list_all fits old"
  shows "list_all fits (fst (dec_items zero dec ts old))"
  using assms(2,3)
proof (induction ts arbitrary: old)
  case (Cons t ts)
  then have "fits (fst (dec t (case old of [] \<Rightarrow> zero | v # _ \<Rightarrow> v)))"
    using codec.fits_dec [OF assms(1)] codec.fits_zero [OF assms(1)] by (cases old) auto
  moreover have "list_all fits (fst (dec_items zero dec ts (drop 1 old)))"
    using Cons by (intro Cons.IH) (auto simp: list_all_iff dest: in_set_dropD)
  ultimately show ?case by (simp add: split_beta Let_def)
qed simp

lemma dec_items_enc:
  assumes "codec dec enc zero fits" "list_all fits vs"
  shows "dec_items zero dec (map (\<lambda>v. tree_of (enc v)) vs) [] = (vs, True)"
  using assms(2) by (induction vs) (simp_all add: codec.dec_enc [OF assms(1)])

lemma slice_codec:
  assumes "codec dec enc zero fits"
  shows "codec (dec_slice zero dec) (\<lambda>vs. JArr (map enc vs)) [] (list_all fits)"
  using dec_items_fits [OF assms] dec_items_enc [OF assms] codec.enc_ok [OF assms]
  by unfold_locales (auto simp: dec_slice_def comp_def list_all_iff split: jtree.split)

definition map_fits :: "('a \<Rightarrow> bool) \<Rightarrow> 'a go_map \<Rightarrow> bool" where
  "map_fits fits m =
     (case m of None \<Rightarrow> True
      | Some kvs \<Rightarrow> map_sorted kvs \<and> list_all (\<lambda>(k, v). valid_utf8 k \<and> fits v) kvs)"

lemma map_fits_simps [simp]:
  "map_fits fits None"
  "map_fits fits (Some kvs) \<longleftrightarrow>
     map_sorted kvs \<and> list_all (\<lambda>(k, v). valid_utf8 k \<and> fits v) kvs"
  by (simp_all add: map_fits_def)

lemma put_fits:
  "list_all (\<lambda>(k, v). valid_utf8 k \<and> fits v) m \<Longrightarrow> valid_utf8 k \<Longrightarrow> fits v \<Longrightarrow>
   list_all (\<lambda>(k, v). valid_utf8 k \<and> fits v) (put k v m)"
  by (induction k v m rule: put.induct) auto

lemma dec_entries_fits:
  assumes dec: "\<And>t. valid_tree t \<Longrightarrow> fits (fst (dec t zero))"
    and "list_all (\<lambda>(k, t). valid_utf8 k \<and> valid_tree t) ms"
    and "list_all (\<lambda>(k, v). valid_utf8 k \<and> fits v) m"
  shows "list_all (\<lambda>(k, v). valid_utf8 k \<and> fits v) (fst (dec_entries zero dec ms m))"
  using assms(2,3)
  by (induction ms arbitrary: m) (auto simp: put_fits dec split_beta Let_def)

lemma dec_map_fits:
  assumes "\<And>t. valid_tree t \<Longrightarrow> fits (fst (dec t zero))" "valid_tree t" "map_fits fits old"
  shows "map_fits fits (fst (dec_map zero dec t old))"
proof (cases t)
  case (TObj ms)
  let ?m = "case old of None \<Rightarrow> [] | Some m \<Rightarrow> m"
  have m: "map_sorted ?m" "list_all (\<lambda>(k, v). valid_utf8 k \<and> fits v) ?m"
    using assms(3) by (auto simp: map_sorted_def split: option.splits)
  have "list_all (\<lambda>(k, t). valid_utf8 k \<and> valid_tree t) ms" using assms(2) TObj by simp
  from dec_entries_fits [of fits dec, OF assms(1) this m(2)] dec_entries_sorted [OF m(1), of zero dec ms]
  show ?thesis by (simp add: dec_map_def TObj split_beta Let_def)
qed (use assms in \<open>auto simp: dec_map_def\<close>)

lemma dec_map_enc:
  assumes "\<And>k v. (k, v) \<in> set kvs \<Longrightarrow> dec (tree_of (enc v)) zero = (v, True)"
    and "map_fits fits (Some kvs)"
  shows "dec_map zero dec (tree_of (json_map enc (Some kvs))) None = (Some kvs, True)"
proof -
  have "map (\<lambda>p. (sanitize (fst p), tree_of (enc (snd p)))) kvs =
      map (\<lambda>p. (fst p, tree_of (enc (snd p)))) kvs"
    using assms(2) by (auto simp: valid_utf8_def list_all_iff)
  moreover have "dec_entries zero dec (map (\<lambda>(k, v). (k, tree_of (enc v))) kvs) [] = ([] @ kvs, True)"
    using assms by (intro dec_entries_append) auto
  ultimately show ?thesis by (simp add: dec_map_def json_map_def comp_def case_prod_unfold Let_def cong: map_cong)
qed

lemma map_codec:
  assumes "codec dec enc zero fits"
  shows "codec (dec_map zero dec) (json_map enc) None (map_fits fits)"
proof
  fix m assume m: "map_fits fits m"
  show "dec_map zero dec (tree_of (json_map enc m)) None = (m, True)"
  proof (cases m)
    case None
    then show ?thesis by (simp add: json_map_def dec_map_def)
  next
    case (Some kvs)
    have "dec (tree_of (enc v)) zero = (v, True)" if "(k, v) \<in> set kvs" for k v
      using m that by (intro codec.dec_enc [OF assms]) (auto simp: Some list_all_iff)
    with m show ?thesis unfolding Some by (rule dec_map_enc [rotated])
  qed
next
  show "map_fits fits (fst (dec_map zero dec t old))" if "valid_tree t" "map_fits fits old" for t old
    using codec.fits_dec [OF assms _ codec.fits_zero [OF assms]] that by (rule dec_map_fits)
next
  show "json_ok (json_map enc m)" for m
    using codec.enc_ok [OF assms] by (auto simp: json_map_def list_all_iff split: option.split)
qed simp

subsection \<open>Structs\<close>

text \<open>A field keeps an invariant of the record if its update does.\<close>

definition field_keeps :: "('r \<Rightarrow> bool) \<Rightarrow> 'r field_dec \<Rightarrow> bool" where
  "field_keeps fits f \<longleftrightarrow> (\<forall>t r. valid_tree t \<longrightarrow> fits r \<longrightarrow> fits (fst (snd f t r)))"

lemma field_keepsI:
  assumes "\<And>t v. valid_tree t \<Longrightarrow> ok v \<Longrightarrow> ok (fst (d t v))"
    and "\<And>r. fits r \<Longrightarrow> ok (get r)" and "\<And>r v. fits r \<Longrightarrow> ok v \<Longrightarrow> fits (upd (\<lambda>_. v) r)"
  shows "field_keeps fits (field name get upd d)"
  using assms by (simp add: field_keeps_def field_def split_beta Let_def)

context codec begin

lemma keeps:
  assumes "\<And>r. P r \<Longrightarrow> fits (get r)" and "\<And>r v. P r \<Longrightarrow> fits v \<Longrightarrow> P (upd (\<lambda>_. v) r)"
  shows "field_keeps P (field name get upd dec)"
  by (rule field_keepsI [where ok = fits]) (use fits_dec assms in blast)+

end

lemma dec_members_fits:
  assumes "list_all (field_keeps fits) fs" "list_all (\<lambda>(k, t). valid_utf8 k \<and> valid_tree t) ms" "fits r"
  shows "fits (fst (dec_members fs ms r))"
  using assms(2,3)
proof (induction ms arbitrary: r)
  case (Cons kt ms)
  obtain k t where kt: "kt = (k, t)" by fastforce
  show ?case
  proof (cases "find_field fs k")
    case (Some d)
    with assms(1) obtain n where "field_keeps fits (n, d)"
      using find_field_name by (force simp: list_all_iff)
    then have "fits (fst (d t r))" using Cons.prems by (simp add: field_keeps_def kt)
    with Cons show ?thesis by (simp add: kt Some split_beta Let_def)
  qed (use Cons in \<open>simp add: kt\<close>)
qed simp

lemma dec_struct_fits:
  "list_all (field_keeps fits) fs \<Longrightarrow> valid_tree t \<Longrightarrow> fits r \<Longrightarrow> fits (fst (dec_struct fs t r))"
  by (cases t) (simp_all add: dec_struct_def dec_members_fits)

section \<open>The depth of what is written\<close>

lemma nesting_Obj_le: "(\<And>k t. (k, t) \<in> set ms \<Longrightarrow> nesting t \<le> n) \<Longrightarrow> nesting (TObj ms) \<le> Suc n"
proof -
  assume *: "\<And>k t. (k, t) \<in> set ms \<Longrightarrow> nesting t \<le> n"
  have "fold (\<lambda>(k, v). max (nesting v)) ms m \<le> n" if "m \<le> n" for m
    using that * by (induction ms arbitrary: m) force+
  from this [of 0] show ?thesis by (simp add: case_prod_unfold)
qed

lemma nesting_Arr_le: "(\<And>t. t \<in> set ts \<Longrightarrow> nesting t \<le> n) \<Longrightarrow> nesting (TArr ts) \<le> Suc n"
proof -
  assume *: "\<And>t. t \<in> set ts \<Longrightarrow> nesting t \<le> n"
  have "fold (\<lambda>v. max (nesting v)) ts m \<le> n" if "m \<le> n" for m
    using that * by (induction ts arbitrary: m) auto
  from this [of 0] show ?thesis by simp
qed

definition deep :: "nat \<Rightarrow> json \<Rightarrow> bool" where
  "deep n j \<longleftrightarrow> nesting (tree_of j) \<le> n"

lemma deep_scalars [simp]:
  "deep n JNull" "deep n (JBool b)" "deep n (JInt i)" "deep n (JStr s)" "deep n (json_uint w)"
  by (simp_all add: deep_def json_uint_def)

lemma deep_Obj: "list_all (\<lambda>(k, v). deep n v) ms \<Longrightarrow> deep (Suc n) (JObj ms)"
  unfolding deep_def tree_of.simps by (rule nesting_Obj_le) (auto simp: list_all_iff)

lemma deep_Arr: "list_all (deep n) xs \<Longrightarrow> deep (Suc n) (JArr xs)"
  unfolding deep_def tree_of.simps by (rule nesting_Arr_le) (auto simp: list_all_iff deep_def)

lemma deep_slice: "(\<And>x. deep n (f x)) \<Longrightarrow> deep (Suc n) (json_slice f m)"
  by (cases m) (simp_all add: json_slice_def deep_Arr list_all_iff)

lemma deep_omit [simp]: "list_all (\<lambda>(k, v). deep n v) (omit b k v) \<longleftrightarrow> b \<or> deep n v"
  by (simp add: omit_def)

lemma json_ok_omit [simp]: "list_all (\<lambda>(k, v). json_ok v) (omit b k v) \<longleftrightarrow> b \<or> json_ok v"
  by (simp add: omit_def)

lemma json_ok_uint [simp]: "json_ok (json_uint w)"
  by (simp add: json_uint_def)

lemma json_ok_ints: "list_all json_ok (map JInt is)"
  by (simp add: list_all_iff)

lemma json_ok_slice: "(\<And>x. json_ok (f x)) \<Longrightarrow> json_ok (json_slice f m)"
  by (simp add: json_slice_def list_all_iff split: option.split)

end
