(* ===== verification/Zpool.thy ===== *)
theory Zpool
  imports Host GoCodec
begin

text \<open>
  The zpool endpoint of \<open>api.go\<close> and \<open>refresher.go\<close>: the records of \<open>zpool list -v --json\<close>,
  their decoders and encoders, \<open>fetchZpool\<close> and \<open>produceZpool\<close>. A Go \<open>VDev\<close> holds a map of
  VDevs; here it is a row of plain fields and that map. Its decoder recurses on the depth of
  the tree it is given, which is fuel enough (lemma \<open>dec_vdev_fuel\<close>).
\<close>

section \<open>Properties\<close>

record Prop =
  Value :: string
  Source :: "string go_map"

definition zero_Prop :: Prop where
  "zero_Prop = \<lparr>Value = [], Source = None\<rparr>"

definition Prop_fields :: "Prop field_dec list" where
  "Prop_fields =
     [field ''value'' Value Value_update dec_string,
      field ''source'' Source Source_update (dec_map [] dec_string)]"

definition Prop_json :: "Prop \<Rightarrow> json" where
  "Prop_json p = JObj [(''value'', JStr (Value p)), (''source'', json_map JStr (Source p))]"

record PoolProperties =
  p_Size :: Prop
  p_Allocated :: Prop
  p_Free :: Prop
  p_Checkpoint :: Prop
  p_ExpandSize :: Prop
  p_Fragmentation :: Prop
  p_Capacity :: Prop
  p_DedupRatio :: Prop
  p_Health :: Prop
  p_AltRoot :: Prop

definition zero_PoolProperties :: PoolProperties where
  "zero_PoolProperties =
     \<lparr>p_Size = zero_Prop, p_Allocated = zero_Prop, p_Free = zero_Prop, p_Checkpoint = zero_Prop,
      p_ExpandSize = zero_Prop, p_Fragmentation = zero_Prop, p_Capacity = zero_Prop,
      p_DedupRatio = zero_Prop, p_Health = zero_Prop, p_AltRoot = zero_Prop\<rparr>"

definition PoolProperties_fields :: "PoolProperties field_dec list" where
  "PoolProperties_fields =
     (let prop = dec_struct Prop_fields in
      [field ''size'' p_Size p_Size_update prop,
       field ''allocated'' p_Allocated p_Allocated_update prop,
       field ''free'' p_Free p_Free_update prop,
       field ''checkpoint'' p_Checkpoint p_Checkpoint_update prop,
       field ''expandsize'' p_ExpandSize p_ExpandSize_update prop,
       field ''fragmentation'' p_Fragmentation p_Fragmentation_update prop,
       field ''capacity'' p_Capacity p_Capacity_update prop,
       field ''dedupratio'' p_DedupRatio p_DedupRatio_update prop,
       field ''health'' p_Health p_Health_update prop,
       field ''altroot'' p_AltRoot p_AltRoot_update prop])"

definition PoolProperties_json :: "PoolProperties \<Rightarrow> json" where
  "PoolProperties_json p = JObj
     [(''size'', Prop_json (p_Size p)),
      (''allocated'', Prop_json (p_Allocated p)),
      (''free'', Prop_json (p_Free p)),
      (''checkpoint'', Prop_json (p_Checkpoint p)),
      (''expandsize'', Prop_json (p_ExpandSize p)),
      (''fragmentation'', Prop_json (p_Fragmentation p)),
      (''capacity'', Prop_json (p_Capacity p)),
      (''dedupratio'', Prop_json (p_DedupRatio p)),
      (''health'', Prop_json (p_Health p)),
      (''altroot'', Prop_json (p_AltRoot p))]"

section \<open>VDevs\<close>

record vdev_row =
  v_Name :: string
  v_VDevType :: string
  v_GUID :: string
  v_Class :: string
  v_State :: string
  v_Path :: string
  v_Properties :: PoolProperties

datatype VDev = VDev (vdev_plain: vdev_row) (v_Vdevs: "(string \<times> VDev) list option")

definition zero_VDev :: VDev where
  "zero_VDev =
     VDev \<lparr>v_Name = [], v_VDevType = [], v_GUID = [], v_Class = [], v_State = [], v_Path = [],
           v_Properties = zero_PoolProperties\<rparr> None"

definition on_row :: "(('a \<Rightarrow> 'a) \<Rightarrow> vdev_row \<Rightarrow> vdev_row) \<Rightarrow> ('a \<Rightarrow> 'a) \<Rightarrow> VDev \<Rightarrow> VDev" where
  "on_row upd f v = VDev (upd f (vdev_plain v)) (v_Vdevs v)"

definition on_Vdevs :: "(VDev go_map \<Rightarrow> VDev go_map) \<Rightarrow> VDev \<Rightarrow> VDev" where
  "on_Vdevs f v = VDev (vdev_plain v) (f (v_Vdevs v))"

definition VDev_fields :: "VDev dec \<Rightarrow> VDev field_dec list" where
  "VDev_fields child =
     [field ''name'' (v_Name \<circ> vdev_plain) (on_row v_Name_update) dec_string,
      field ''vdev_type'' (v_VDevType \<circ> vdev_plain) (on_row v_VDevType_update) dec_string,
      field ''guid'' (v_GUID \<circ> vdev_plain) (on_row v_GUID_update) dec_string,
      field ''class'' (v_Class \<circ> vdev_plain) (on_row v_Class_update) dec_string,
      field ''state'' (v_State \<circ> vdev_plain) (on_row v_State_update) dec_string,
      field ''path'' (v_Path \<circ> vdev_plain) (on_row v_Path_update) dec_string,
      field ''properties'' (v_Properties \<circ> vdev_plain) (on_row v_Properties_update)
        (dec_struct PoolProperties_fields),
      field ''vdevs'' v_Vdevs on_Vdevs (dec_map zero_VDev child)]"

fun dec_vdev :: "nat \<Rightarrow> VDev dec" where
  "dec_vdev 0 t old = (old, False)"
| "dec_vdev (Suc n) t old = dec_struct (VDev_fields (dec_vdev n)) t old"

definition dec_VDev :: "VDev dec" where
  "dec_VDev t old = dec_vdev (Suc (nesting t)) t old"

fun VDev_json :: "VDev \<Rightarrow> json" where
  "VDev_json (VDev r kids) = JObj
     [(''name'', JStr (v_Name r)),
      (''vdev_type'', JStr (v_VDevType r)),
      (''guid'', JStr (v_GUID r)),
      (''class'', JStr (v_Class r)),
      (''state'', JStr (v_State r)),
      (''path'', JStr (v_Path r)),
      (''properties'', PoolProperties_json (v_Properties r)),
      (''vdevs'', case kids of None \<Rightarrow> JNull
                  | Some kvs \<Rightarrow> JObj (map (\<lambda>(k, v). (k, VDev_json v)) kvs))]"

section \<open>Pools\<close>

record Pool =
  o_Name :: string
  o_Type :: string
  o_State :: string
  o_PoolGUID :: string
  o_TXG :: string
  o_SPAVersion :: string
  o_ZPLVersion :: string
  o_Properties :: PoolProperties
  o_Vdevs :: "VDev go_map"

definition zero_Pool :: Pool where
  "zero_Pool =
     \<lparr>o_Name = [], o_Type = [], o_State = [], o_PoolGUID = [], o_TXG = [], o_SPAVersion = [],
      o_ZPLVersion = [], o_Properties = zero_PoolProperties, o_Vdevs = None\<rparr>"

definition Pool_fields :: "Pool field_dec list" where
  "Pool_fields =
     [field ''name'' o_Name o_Name_update dec_string,
      field ''type'' o_Type o_Type_update dec_string,
      field ''state'' o_State o_State_update dec_string,
      field ''pool_guid'' o_PoolGUID o_PoolGUID_update dec_string,
      field ''txg'' o_TXG o_TXG_update dec_string,
      field ''spa_version'' o_SPAVersion o_SPAVersion_update dec_string,
      field ''zpl_version'' o_ZPLVersion o_ZPLVersion_update dec_string,
      field ''properties'' o_Properties o_Properties_update (dec_struct PoolProperties_fields),
      field ''vdevs'' o_Vdevs o_Vdevs_update (dec_map zero_VDev dec_VDev)]"

definition Pool_json :: "Pool \<Rightarrow> json" where
  "Pool_json p = JObj
     [(''name'', JStr (o_Name p)),
      (''type'', JStr (o_Type p)),
      (''state'', JStr (o_State p)),
      (''pool_guid'', JStr (o_PoolGUID p)),
      (''txg'', JStr (o_TXG p)),
      (''spa_version'', JStr (o_SPAVersion p)),
      (''zpl_version'', JStr (o_ZPLVersion p)),
      (''properties'', PoolProperties_json (o_Properties p)),
      (''vdevs'', json_map VDev_json (o_Vdevs p))]"

record output_version =
  Command :: string
  VersMajor :: int
  VersMinor :: int

definition zero_output_version :: output_version where
  "zero_output_version = \<lparr>Command = [], VersMajor = 0, VersMinor = 0\<rparr>"

definition output_version_fields :: "output_version field_dec list" where
  "output_version_fields =
     [field ''command'' Command Command_update dec_string,
      field ''vers_major'' VersMajor VersMajor_update dec_int,
      field ''vers_minor'' VersMinor VersMinor_update dec_int]"

definition output_version_json :: "output_version \<Rightarrow> json" where
  "output_version_json v = JObj
     [(''command'', JStr (Command v)),
      (''vers_major'', JInt (VersMajor v)),
      (''vers_minor'', JInt (VersMinor v))]"

record ZPoolOutput =
  OutputVersion :: output_version
  Pools :: "Pool go_map"

definition zero_ZPoolOutput :: ZPoolOutput where
  "zero_ZPoolOutput = \<lparr>OutputVersion = zero_output_version, Pools = None\<rparr>"

definition ZPoolOutput_fields :: "ZPoolOutput field_dec list" where
  "ZPoolOutput_fields =
     [field ''output_version'' OutputVersion OutputVersion_update (dec_struct output_version_fields),
      field ''pools'' Pools Pools_update (dec_map zero_Pool (dec_struct Pool_fields))]"

definition ZPoolOutput_json :: "ZPoolOutput \<Rightarrow> json" where
  "ZPoolOutput_json z = JObj
     [(''output_version'', output_version_json (OutputVersion z)),
      (''pools'', json_map Pool_json (Pools z))]"

section \<open>The producer\<close>

definition nixpath :: string where
  "nixpath = ''/run/current-system/sw/bin/zpool''"

definition resolveZpoolBin :: "host \<Rightarrow> string" where
  "resolveZpoolBin h = (if stat_ok h nixpath then nixpath else ''zpool'')"

definition fetchZpool :: "duration list \<Rightarrow> string \<Rightarrow> host \<Rightarrow> string + ZPoolOutput" where
  "fetchZpool ctx bin h =
     (case run h ctx bin [''list'', ''-v'', ''--json''] of
        (_, Some e) \<Rightarrow> Inl (''zpool exec: '' @ e)
      | (out, None) \<Rightarrow>
          (case Unmarshal (dec_struct ZPoolOutput_fields) zero_ZPoolOutput out of
             None \<Rightarrow> Inl (''parse zpool json: '' @ json_error h ''ZPoolOutput'' out)
           | Some data \<Rightarrow> Inr data))"

definition zpool_failure :: string where
  "zpool_failure = ''Failed to execute zpool command. Ensure it'' @ [CHR 0x27] @ ''s installed and you have sufficient permissions (usually root or zfs group).''"

definition zpoolTimeout :: duration where
  "zpoolTimeout = 5 * second"

definition produceZpool :: "duration list \<Rightarrow> host \<Rightarrow> body \<times> status" where
  "produceZpool ctx h =
     (case fetchZpool (ctx @ [zpoolTimeout]) (resolveZpoolBin h) h of
        Inl _ \<Rightarrow> (errBody zpool_failure, StatusInternalServerError)
      | Inr data \<Rightarrow> (encode (ZPoolOutput_json data), StatusOK))"

end
