(* ===== verification/ZpoolCodec.thy ===== *)
theory ZpoolCodec
  imports Zpool
begin

text \<open>
  The codecs of the zpool types: what the decoder makes is a value of its Go type, with valid
  UTF-8 text, 64-bit integers and maps in key order, and what the encoder writes decodes to
  the value it was written from.
\<close>

lemmas struct_simps = dec_struct_Obj field_def sanitize_ascii

lemmas struct_keeps = str.keeps num.keeps uns.keeps bit.keeps

section \<open>Properties\<close>

definition Prop_fits :: "Prop \<Rightarrow> bool" where
  "Prop_fits p \<longleftrightarrow> valid_utf8 (Value p) \<and> map_fits valid_utf8 (Source p)"

interpretation sources: codec "dec_map [] dec_string" "json_map JStr" None "map_fits valid_utf8"
  by (rule map_codec [OF str.codec_axioms])

interpretation pprop: codec "dec_struct Prop_fields" Prop_json zero_Prop Prop_fits
proof
  show "Prop_fits zero_Prop" by (simp add: Prop_fits_def zero_Prop_def)
next
  fix t old assume "valid_tree t" "Prop_fits old"
  then show "Prop_fits (fst (dec_struct Prop_fields t old))"
    by (rule dec_struct_fits [rotated])
      (auto simp: Prop_fields_def Prop_fits_def intro!: struct_keeps sources.keeps)
next
  fix p assume "Prop_fits p"
  then show "dec_struct Prop_fields (tree_of (Prop_json p)) zero_Prop = (p, True)"
    using sources.dec_enc [of "Source p"]
    by (simp add: Prop_fields_def Prop_json_def Prop_fits_def zero_Prop_def struct_simps
        str.dec_enc [of "Value p", simplified])
next
  show "json_ok (Prop_json p)" for p using sources.enc_ok by (simp add: Prop_json_def)
qed

definition PoolProperties_fits :: "PoolProperties \<Rightarrow> bool" where
  "PoolProperties_fits p \<longleftrightarrow> list_all Prop_fits
     [p_Size p, p_Allocated p, p_Free p, p_Checkpoint p, p_ExpandSize p, p_Fragmentation p,
      p_Capacity p, p_DedupRatio p, p_Health p, p_AltRoot p]"

interpretation props:
  codec "dec_struct PoolProperties_fields" PoolProperties_json zero_PoolProperties PoolProperties_fits
proof
  show "PoolProperties_fits zero_PoolProperties"
    by (simp add: PoolProperties_fits_def zero_PoolProperties_def pprop.fits_zero)
next
  fix t old assume "valid_tree t" "PoolProperties_fits old"
  then show "PoolProperties_fits (fst (dec_struct PoolProperties_fields t old))"
    by (rule dec_struct_fits [rotated])
      (simp add: PoolProperties_fields_def Let_def; intro conjI pprop.keeps;
        simp add: PoolProperties_fits_def)
next
  fix p assume "PoolProperties_fits p"
  then show "dec_struct PoolProperties_fields (tree_of (PoolProperties_json p)) zero_PoolProperties = (p, True)"
    by (simp add: PoolProperties_fields_def PoolProperties_json_def PoolProperties_fits_def
        zero_PoolProperties_def struct_simps pprop.dec_enc Let_def)
next
  show "json_ok (PoolProperties_json p)" for p
    by (simp add: PoolProperties_json_def pprop.enc_ok)
qed

section \<open>VDevs\<close>

lemma zero_VDev:
  "v_Vdevs zero_VDev = None" "v_Name (vdev_plain zero_VDev) = []" "v_VDevType (vdev_plain zero_VDev) = []"
  "v_GUID (vdev_plain zero_VDev) = []" "v_Class (vdev_plain zero_VDev) = []"
  "v_State (vdev_plain zero_VDev) = []" "v_Path (vdev_plain zero_VDev) = []"
  "v_Properties (vdev_plain zero_VDev) = zero_PoolProperties"
  by (simp_all add: zero_VDev_def)

fun VDev_fits :: "VDev \<Rightarrow> bool" where
  "VDev_fits (VDev r kids) \<longleftrightarrow>
     list_all valid_utf8 [v_Name r, v_VDevType r, v_GUID r, v_Class r, v_State r, v_Path r] \<and>
     PoolProperties_fits (v_Properties r) \<and>
     (case kids of None \<Rightarrow> True
      | Some kvs \<Rightarrow> map_sorted kvs \<and> list_all (\<lambda>(k, v). valid_utf8 k \<and> VDev_fits v) kvs)"

lemma VDev_fits_map:
  "VDev_fits v \<longleftrightarrow>
     list_all valid_utf8 [v_Name (vdev_plain v), v_VDevType (vdev_plain v), v_GUID (vdev_plain v),
       v_Class (vdev_plain v), v_State (vdev_plain v), v_Path (vdev_plain v)] \<and>
     PoolProperties_fits (v_Properties (vdev_plain v)) \<and> map_fits VDev_fits (v_Vdevs v)"
  by (cases v) (simp add: map_fits_def)

lemma VDev_fits_zero: "VDev_fits zero_VDev"
  by (simp add: zero_VDev_def props.fits_zero)

lemma VDev_fields_keep:
  assumes child: "\<And>t. valid_tree t \<Longrightarrow> VDev_fits (fst (child t zero_VDev))"
  shows "list_all (field_keeps VDev_fits) (VDev_fields child)"
proof -
  have "field_keeps VDev_fits (field ''vdevs'' v_Vdevs on_Vdevs (dec_map zero_VDev child))"
    by (rule field_keepsI [where ok = "map_fits VDev_fits"])
      (use dec_map_fits [of VDev_fits child, OF child] in
        \<open>auto simp: on_Vdevs_def VDev_fits_map simp del: VDev_fits.simps\<close>)
  then show ?thesis
    by (simp add: VDev_fields_def, intro conjI str.keeps props.keeps)
      (simp_all add: on_row_def VDev_fits_map del: VDev_fits.simps)
qed

lemma dec_vdev_fits: "valid_tree t \<Longrightarrow> VDev_fits old \<Longrightarrow> VDev_fits (fst (dec_vdev n t old))"
proof (induction n arbitrary: t old)
  case (Suc n)
  have "list_all (field_keeps VDev_fits) (VDev_fields (dec_vdev n))"
    by (rule VDev_fields_keep) (rule Suc.IH [OF _ VDev_fits_zero])
  from dec_struct_fits [OF this Suc.prems] show ?case by simp
qed simp

lemma dec_vdev_enc:
  "VDev_fits v \<Longrightarrow> nesting (tree_of (VDev_json v)) < n \<Longrightarrow>
   dec_vdev n (tree_of (VDev_json v)) zero_VDev = (v, True)"
proof (induction n arbitrary: v)
  case (Suc n)
  obtain r kids where v: "v = VDev r kids" by (cases v)
  let ?kids = "json_map VDev_json kids"
  have json: "VDev_json v = JObj
     [(''name'', JStr (v_Name r)), (''vdev_type'', JStr (v_VDevType r)), (''guid'', JStr (v_GUID r)),
      (''class'', JStr (v_Class r)), (''state'', JStr (v_State r)), (''path'', JStr (v_Path r)),
      (''properties'', PoolProperties_json (v_Properties r)), (''vdevs'', ?kids)]"
    by (simp add: v json_map_def)
  have "(''vdevs'', tree_of ?kids) \<in> set (map (\<lambda>(k, v). (sanitize k, tree_of v))
      [(''name'', JStr (v_Name r)), (''vdev_type'', JStr (v_VDevType r)), (''guid'', JStr (v_GUID r)),
      (''class'', JStr (v_Class r)), (''state'', JStr (v_State r)), (''path'', JStr (v_Path r)),
      (''properties'', PoolProperties_json (v_Properties r)), (''vdevs'', ?kids)])"
    by (simp add: sanitize_ascii)
  from nesting_member [OF this] have depth: "nesting (tree_of ?kids) < nesting (tree_of (VDev_json v))"
    unfolding json by (simp only: tree_of.simps)
  have kids: "dec_map zero_VDev (dec_vdev n) (tree_of ?kids) None = (kids, True)"
  proof (cases kids)
    case None
    then show ?thesis by (simp add: json_map_def dec_map_def)
  next
    case (Some kvs)
    have "dec_vdev n (tree_of (VDev_json w)) zero_VDev = (w, True)" if "(k, w) \<in> set kvs" for k w
    proof (rule Suc.IH)
      show "VDev_fits w" using Suc.prems(1) that by (auto simp: v Some list_all_iff)
      have "(sanitize k, tree_of (VDev_json w)) \<in>
          set (map (\<lambda>(k, v). (sanitize k, tree_of v)) (map (\<lambda>(k, v). (k, VDev_json v)) kvs))"
        using that by force
      from nesting_member [OF this] have "nesting (tree_of (VDev_json w)) < nesting (tree_of ?kids)"
        by (simp add: Some json_map_def)
      with depth Suc.prems(2) show "nesting (tree_of (VDev_json w)) < n" by simp
    qed
    moreover have "map_fits VDev_fits (Some kvs)"
      using Suc.prems(1) by (simp add: v Some)
    ultimately show ?thesis unfolding Some by (rule dec_map_enc)
  qed
  show ?case
    unfolding json using Suc.prems(1) kids
    by (simp add: v VDev_fields_def struct_simps on_row_def on_Vdevs_def zero_VDev
        str.dec_enc [simplified] props.dec_enc)
qed simp

text \<open>The depth of the tree is fuel enough.\<close>

lemma dec_vdev_fuel_step: "nesting t < n \<Longrightarrow> dec_vdev (Suc n) t old = dec_vdev n t old"
proof (induction n arbitrary: t old)
  case (Suc n)
  show ?case
  proof (cases t)
    case (TObj ms)
    have "dec_map zero_VDev (dec_vdev (Suc n)) u m = dec_map zero_VDev (dec_vdev n) u m"
      if "(k, u) \<in> set ms" for k u m
    proof (rule dec_map_cong)
      fix w assume "nesting w < nesting u"
      with nesting_member [OF that] Suc.prems have "nesting w < n" by (simp add: TObj del: nesting.simps)
      then show "dec_vdev (Suc n) w zero_VDev = dec_vdev n w zero_VDev" by (rule Suc.IH)
    qed
    then have "dec_members (VDev_fields (dec_vdev (Suc n))) ms old =
        dec_members (VDev_fields (dec_vdev n)) ms old"
      by (intro dec_members_cong)
        (auto simp: VDev_fields_def field_def split_beta Let_def simp del: dec_vdev.simps)
    then show ?thesis by (simp add: TObj dec_struct_Obj del: dec_vdev.simps add: dec_vdev.simps(2))
  qed (simp_all add: dec_struct_def)
qed simp

lemma dec_vdev_fuel: "nesting t < n \<Longrightarrow> dec_vdev n t old = dec_VDev t old"
  unfolding dec_VDev_def
proof (induction n)
  case (Suc n)
  then show ?case
    by (cases "nesting t = n") (simp_all add: dec_vdev_fuel_step del: dec_vdev.simps)
qed simp

lemma VDev_json_ok: "json_ok (VDev_json v)"
  by (induction v rule: VDev_json.induct)
    (auto simp: props.enc_ok list_all_iff split: option.split)

interpretation vdev: codec dec_VDev VDev_json zero_VDev VDev_fits
  by unfold_locales (simp_all add: VDev_fits_zero dec_VDev_def dec_vdev_fits dec_vdev_enc
    VDev_json_ok del: dec_vdev.simps)

interpretation vdevs: codec "dec_map zero_VDev dec_VDev" "json_map VDev_json" None "map_fits VDev_fits"
  by (rule map_codec [OF vdev.codec_axioms])

section \<open>Pools\<close>

definition Pool_fits :: "Pool \<Rightarrow> bool" where
  "Pool_fits p \<longleftrightarrow>
     list_all valid_utf8 [o_Name p, o_Type p, o_State p, o_PoolGUID p, o_TXG p, o_SPAVersion p,
       o_ZPLVersion p] \<and>
     PoolProperties_fits (o_Properties p) \<and> map_fits VDev_fits (o_Vdevs p)"

interpretation pool: codec "dec_struct Pool_fields" Pool_json zero_Pool Pool_fits
proof
  show "Pool_fits zero_Pool" by (simp add: Pool_fits_def zero_Pool_def props.fits_zero)
next
  fix t old assume "valid_tree t" "Pool_fits old"
  then show "Pool_fits (fst (dec_struct Pool_fields t old))"
    by (rule dec_struct_fits [rotated])
      (simp add: Pool_fields_def; intro conjI str.keeps props.keeps vdevs.keeps;
        simp add: Pool_fits_def)
next
  fix p assume "Pool_fits p"
  then show "dec_struct Pool_fields (tree_of (Pool_json p)) zero_Pool = (p, True)"
    by (simp add: Pool_fields_def Pool_json_def Pool_fits_def zero_Pool_def struct_simps
        str.dec_enc [simplified] props.dec_enc vdevs.dec_enc)
next
  show "json_ok (Pool_json p)" for p
    by (simp add: Pool_json_def props.enc_ok vdevs.enc_ok)
qed

interpretation pools:
  codec "dec_map zero_Pool (dec_struct Pool_fields)" "json_map Pool_json" None "map_fits Pool_fits"
  by (rule map_codec [OF pool.codec_axioms])

definition output_version_fits :: "output_version \<Rightarrow> bool" where
  "output_version_fits v \<longleftrightarrow> valid_utf8 (Command v) \<and> int64 (VersMajor v) \<and> int64 (VersMinor v)"

interpretation version:
  codec "dec_struct output_version_fields" output_version_json zero_output_version output_version_fits
proof
  show "output_version_fits zero_output_version"
    by (simp add: output_version_fits_def zero_output_version_def num.fits_zero)
next
  fix t old assume "valid_tree t" "output_version_fits old"
  then show "output_version_fits (fst (dec_struct output_version_fields t old))"
    by (rule dec_struct_fits [rotated])
      (auto simp: output_version_fields_def output_version_fits_def intro!: struct_keeps)
next
  fix v assume "output_version_fits v"
  then show "dec_struct output_version_fields (tree_of (output_version_json v)) zero_output_version = (v, True)"
    by (simp add: output_version_fields_def output_version_json_def output_version_fits_def
        zero_output_version_def struct_simps str.dec_enc [simplified] num.dec_enc [simplified])
next
  show "json_ok (output_version_json v)" for v by (simp add: output_version_json_def)
qed

definition ZPoolOutput_fits :: "ZPoolOutput \<Rightarrow> bool" where
  "ZPoolOutput_fits z \<longleftrightarrow> output_version_fits (OutputVersion z) \<and> map_fits Pool_fits (Pools z)"

interpretation zpool:
  codec "dec_struct ZPoolOutput_fields" ZPoolOutput_json zero_ZPoolOutput ZPoolOutput_fits
proof
  show "ZPoolOutput_fits zero_ZPoolOutput"
    by (simp add: ZPoolOutput_fits_def zero_ZPoolOutput_def version.fits_zero)
next
  fix t old assume "valid_tree t" "ZPoolOutput_fits old"
  then show "ZPoolOutput_fits (fst (dec_struct ZPoolOutput_fields t old))"
    by (rule dec_struct_fits [rotated])
      (auto simp: ZPoolOutput_fields_def ZPoolOutput_fits_def intro!: version.keeps pools.keeps)
next
  fix z assume "ZPoolOutput_fits z"
  then show "dec_struct ZPoolOutput_fields (tree_of (ZPoolOutput_json z)) zero_ZPoolOutput = (z, True)"
    by (simp add: ZPoolOutput_fields_def ZPoolOutput_json_def ZPoolOutput_fits_def
        zero_ZPoolOutput_def struct_simps version.dec_enc pools.dec_enc)
next
  show "json_ok (ZPoolOutput_json z)" for z
    by (simp add: ZPoolOutput_json_def version.enc_ok pools.enc_ok)
qed

end
