(* ===== verification/ZpoolGuarantees.thy ===== *)
theory ZpoolGuarantees
  imports ZpoolCodec
begin

text \<open>
  What the zpool endpoint promises, whatever the subprocess prints: when it answers 200, when
  it answers its fixed 500, and that nothing the program decoded is lost on the way to the
  body.
\<close>

abbreviation zpool_run :: "duration list \<Rightarrow> host \<Rightarrow> string \<times> string option" where
  "zpool_run ctx h \<equiv>
     run h (ctx @ [zpoolTimeout]) (resolveZpoolBin h) [''list'', ''-v'', ''--json'']"

abbreviation zpool_read :: "string \<Rightarrow> ZPoolOutput option" where
  "zpool_read \<equiv> Unmarshal (dec_struct ZPoolOutput_fields) zero_ZPoolOutput"

lemma produceZpool_cases:
  "produceZpool ctx h =
     (case zpool_run ctx h of
        (_, Some _) \<Rightarrow> (errBody zpool_failure, StatusInternalServerError)
      | (out, None) \<Rightarrow>
          (case zpool_read out of
             None \<Rightarrow> (errBody zpool_failure, StatusInternalServerError)
           | Some z \<Rightarrow> (encode (ZPoolOutput_json z), StatusOK)))"
  by (simp add: produceZpool_def fetchZpool_def split: prod.split option.split)

text \<open>A small output of zpool, and the host that prints it.\<close>

definition zpool_sample :: string where
  "zpool_sample =
     ''{ '' @ [quote] @ ''pools'' @ [quote] @ '':{'' @ [quote] @ ''tank'' @ [quote] @ '':{'' @
     [quote] @ ''STATE'' @ [quote] @ '':'' @ [quote] @ ''ONLINE'' @ [quote] @ '','' @
     [quote] @ ''extra'' @ [quote] @ '':[1.5e3,null]}}}''"

definition zpool_host :: host where
  "zpool_host = bare_host\<lparr>run := \<lambda>_ _ _. (zpool_sample, None)\<rparr>"

definition zpool_sample_value :: ZPoolOutput where
  "zpool_sample_value = zero_ZPoolOutput\<lparr>Pools := Some [(''tank'', zero_Pool\<lparr>o_State := ''ONLINE''\<rparr>)]\<rparr>"

lemma zpool_sample_read: "zpool_read zpool_sample = Some zpool_sample_value"
  by code_simp

lemma zpool_sample_run: "zpool_run ctx zpool_host = (zpool_sample, None)"
  by (simp add: zpool_host_def)

lemma zpool_sample_fits: "ZPoolOutput_fits zpool_sample_value"
  by (rule zpool.Unmarshal_fits [OF zpool_sample_read])

section \<open>Guarantees\<close>

text \<open>
  Property C21: the zpool body is what zpool reported. Whenever the subprocess succeeds and
  prints a text that decodes, the endpoint answers 200, and a reader that decodes the body
  into the same Go types gets exactly the pools, properties and nested vdevs that the
  program decoded: no field, map entry or level is lost or changed by decoding and encoding
  again. (The limit of 10000 levels is the one \<open>encoding/json\<close> has for a reader.)
\<close>

theorem zpool_passed_through:
  assumes "zpool_run ctx h = (out, None)" and "zpool_read out = Some z"
    and "nesting (tree_of (ZPoolOutput_json z)) \<le> 10000"
  shows "snd (produceZpool ctx h) = StatusOK \<and> zpool_read (fst (produceZpool ctx h)) = Some z"
  using zpool.Unmarshal_again [OF assms(2,3)] assms(1,2) by (simp add: produceZpool_cases)

lemma zpool_passed_through_witness:
  "snd (produceZpool [] zpool_host) = StatusOK \<and>
   zpool_read (fst (produceZpool [] zpool_host)) = Some zpool_sample_value"
proof (rule zpool_passed_through [OF zpool_sample_run zpool_sample_read])
  have "nesting (tree_of (ZPoolOutput_json zpool_sample_value)) = 5" by code_simp
  then show "nesting (tree_of (ZPoolOutput_json zpool_sample_value)) \<le> 10000" by simp
qed



text \<open>
  The zpool endpoint answers 200 exactly when the subprocess reports no error
  within its five seconds and its output decodes; a failing exit status gives the fixed 500
  body even if something was printed, and no partial report is ever served.
\<close>

theorem produceZpool_status:
  "(snd (produceZpool ctx h) = StatusOK \<longleftrightarrow>
      snd (zpool_run ctx h) = None \<and> zpool_read (fst (zpool_run ctx h)) \<noteq> None) \<and>
   (snd (produceZpool ctx h) \<noteq> StatusOK \<longrightarrow>
      produceZpool ctx h = (errBody zpool_failure, StatusInternalServerError))"
  by (cases "zpool_run ctx h")
    (auto simp: produceZpool_cases StatusOK_def StatusInternalServerError_def split: option.split)

lemma produceZpool_status_witness:
  "produceZpool [] bare_host = (errBody zpool_failure, StatusInternalServerError)"
proof -
  have "snd (produceZpool [] bare_host) \<noteq> StatusOK"
    using produceZpool_status [of "[]" bare_host] by (simp add: bare_host_def)
  with produceZpool_status [of "[]" bare_host] show ?thesis by blast
qed



end
