(* ===== verification/SmartRaw.thy ===== *)
theory SmartRaw
  imports GoCodec
begin

text \<open>
  What \<open>smart.go\<close> decodes from smartctl: \<open>rawSmartScan\<close> and \<open>rawSmartAll\<close> with their nested
  structs, each as a record with its zero value and the decoders of its fields, in the order
  of the source and with the names of its JSON tags. A pointer is an option.
\<close>

section \<open>The output of the scan\<close>

record scan_smartctl =
  c_Version :: "int list"
  c_ExitStatus :: int

definition zero_scan_smartctl :: scan_smartctl where
  "zero_scan_smartctl =
     \<lparr>c_Version = [], c_ExitStatus = 0\<rparr>"

definition scan_smartctl_fields :: "scan_smartctl field_dec list" where
  "scan_smartctl_fields =
     [field ''version'' c_Version c_Version_update (dec_slice 0 dec_int),
      field ''exit_status'' c_ExitStatus c_ExitStatus_update dec_int]"

record SmartScanDevice =
  s_Name :: string
  s_InfoName :: string
  s_Type :: string
  s_Protocol :: string

definition zero_SmartScanDevice :: SmartScanDevice where
  "zero_SmartScanDevice =
     \<lparr>s_Name = [], s_InfoName = [], s_Type = [], s_Protocol = []\<rparr>"

definition SmartScanDevice_fields :: "SmartScanDevice field_dec list" where
  "SmartScanDevice_fields =
     [field ''name'' s_Name s_Name_update dec_string,
      field ''info_name'' s_InfoName s_InfoName_update dec_string,
      field ''type'' s_Type s_Type_update dec_string,
      field ''protocol'' s_Protocol s_Protocol_update dec_string]"

record rawSmartScan =
  Smartctl :: scan_smartctl
  scan_Devices :: "SmartScanDevice list"

definition zero_rawSmartScan :: rawSmartScan where
  "zero_rawSmartScan =
     \<lparr>Smartctl = zero_scan_smartctl, scan_Devices = []\<rparr>"

definition rawSmartScan_fields :: "rawSmartScan field_dec list" where
  "rawSmartScan_fields =
     [field ''smartctl'' Smartctl Smartctl_update (dec_struct scan_smartctl_fields),
      field ''devices'' scan_Devices scan_Devices_update
        (dec_slice zero_SmartScanDevice (dec_struct SmartScanDevice_fields))]"

section \<open>The output for one device\<close>

text \<open>The nested anonymous structs of \<open>rawSmartAll\<close>, each a record.\<close>

record raw_form_factor =
  r_FormName :: string

definition zero_raw_form_factor :: raw_form_factor where
  "zero_raw_form_factor =
     \<lparr>r_FormName = []\<rparr>"

definition raw_form_factor_fields :: "raw_form_factor field_dec list" where
  "raw_form_factor_fields =
     [field ''name'' r_FormName r_FormName_update dec_string]"

record raw_user_capacity =
  r_Bytes :: "64 word"

definition zero_raw_user_capacity :: raw_user_capacity where
  "zero_raw_user_capacity =
     \<lparr>r_Bytes = 0\<rparr>"

definition raw_user_capacity_fields :: "raw_user_capacity field_dec list" where
  "raw_user_capacity_fields =
     [field ''bytes'' r_Bytes r_Bytes_update dec_uint]"

record raw_device =
  r_Type :: string
  r_Protocol :: string

definition zero_raw_device :: raw_device where
  "zero_raw_device =
     \<lparr>r_Type = [], r_Protocol = []\<rparr>"

definition raw_device_fields :: "raw_device field_dec list" where
  "raw_device_fields =
     [field ''type'' r_Type r_Type_update dec_string,
      field ''protocol'' r_Protocol r_Protocol_update dec_string]"

record raw_smart_status =
  r_Passed :: bool

definition zero_raw_smart_status :: raw_smart_status where
  "zero_raw_smart_status =
     \<lparr>r_Passed = False\<rparr>"

definition raw_smart_status_fields :: "raw_smart_status field_dec list" where
  "raw_smart_status_fields =
     [field ''passed'' r_Passed r_Passed_update dec_bool]"

record raw_temperature =
  r_Current :: int
  r_OpLimitMax :: int
  r_CriticalLimitMax :: int

definition zero_raw_temperature :: raw_temperature where
  "zero_raw_temperature =
     \<lparr>r_Current = 0, r_OpLimitMax = 0, r_CriticalLimitMax = 0\<rparr>"

definition raw_temperature_fields :: "raw_temperature field_dec list" where
  "raw_temperature_fields =
     [field ''current'' r_Current r_Current_update dec_int,
      field ''op_limit_max'' r_OpLimitMax r_OpLimitMax_update dec_int,
      field ''critical_limit_max'' r_CriticalLimitMax r_CriticalLimitMax_update dec_int]"

record raw_thresholds =
  r_Warning :: int
  r_Critical :: int

definition zero_raw_thresholds :: raw_thresholds where
  "zero_raw_thresholds =
     \<lparr>r_Warning = 0, r_Critical = 0\<rparr>"

definition raw_thresholds_fields :: "raw_thresholds field_dec list" where
  "raw_thresholds_fields =
     [field ''warning'' r_Warning r_Warning_update dec_int,
      field ''critical'' r_Critical r_Critical_update dec_int]"

record raw_power_on_time =
  r_Hours :: "64 word"

definition zero_raw_power_on_time :: raw_power_on_time where
  "zero_raw_power_on_time =
     \<lparr>r_Hours = 0\<rparr>"

definition raw_power_on_time_fields :: "raw_power_on_time field_dec list" where
  "raw_power_on_time_fields =
     [field ''hours'' r_Hours r_Hours_update dec_uint]"

record raw_nvme =
  r_CriticalWarning :: int
  r_Temperature :: int
  r_AvailableSpare :: int
  r_AvailableSpareThreshold :: int
  r_PercentageUsed :: int
  r_DataUnitsRead :: "64 word"
  r_DataUnitsWritten :: "64 word"
  r_HostReads :: "64 word"
  r_HostWrites :: "64 word"
  r_ControllerBusyTime :: "64 word"
  r_PowerCycles :: "64 word"
  r_PowerOnHours :: "64 word"
  r_UnsafeShutdowns :: "64 word"
  r_MediaErrors :: "64 word"
  r_NumErrLogEntries :: "64 word"
  r_WarningTempTime :: "64 word"
  r_CriticalCompTime :: "64 word"
  r_TemperatureSensors :: "int list"

definition zero_raw_nvme :: raw_nvme where
  "zero_raw_nvme =
     \<lparr>r_CriticalWarning = 0, r_Temperature = 0, r_AvailableSpare = 0,
      r_AvailableSpareThreshold = 0, r_PercentageUsed = 0, r_DataUnitsRead = 0,
      r_DataUnitsWritten = 0, r_HostReads = 0, r_HostWrites = 0,
      r_ControllerBusyTime = 0, r_PowerCycles = 0, r_PowerOnHours = 0,
      r_UnsafeShutdowns = 0, r_MediaErrors = 0, r_NumErrLogEntries = 0,
      r_WarningTempTime = 0, r_CriticalCompTime = 0, r_TemperatureSensors = []\<rparr>"

definition raw_nvme_fields :: "raw_nvme field_dec list" where
  "raw_nvme_fields =
     [field ''critical_warning'' r_CriticalWarning r_CriticalWarning_update dec_int,
      field ''temperature'' r_Temperature r_Temperature_update dec_int,
      field ''available_spare'' r_AvailableSpare r_AvailableSpare_update dec_int,
      field ''available_spare_threshold'' r_AvailableSpareThreshold r_AvailableSpareThreshold_update
        dec_int,
      field ''percentage_used'' r_PercentageUsed r_PercentageUsed_update dec_int,
      field ''data_units_read'' r_DataUnitsRead r_DataUnitsRead_update dec_uint,
      field ''data_units_written'' r_DataUnitsWritten r_DataUnitsWritten_update dec_uint,
      field ''host_reads'' r_HostReads r_HostReads_update dec_uint,
      field ''host_writes'' r_HostWrites r_HostWrites_update dec_uint,
      field ''controller_busy_time'' r_ControllerBusyTime r_ControllerBusyTime_update dec_uint,
      field ''power_cycles'' r_PowerCycles r_PowerCycles_update dec_uint,
      field ''power_on_hours'' r_PowerOnHours r_PowerOnHours_update dec_uint,
      field ''unsafe_shutdowns'' r_UnsafeShutdowns r_UnsafeShutdowns_update dec_uint,
      field ''media_errors'' r_MediaErrors r_MediaErrors_update dec_uint,
      field ''num_err_log_entries'' r_NumErrLogEntries r_NumErrLogEntries_update dec_uint,
      field ''warning_temp_time'' r_WarningTempTime r_WarningTempTime_update dec_uint,
      field ''critical_comp_time'' r_CriticalCompTime r_CriticalCompTime_update dec_uint,
      field ''temperature_sensors'' r_TemperatureSensors r_TemperatureSensors_update
        (dec_slice 0 dec_int)]"

record raw_ata_raw =
  r_RawValue :: "64 word"
  r_RawString :: string

definition zero_raw_ata_raw :: raw_ata_raw where
  "zero_raw_ata_raw =
     \<lparr>r_RawValue = 0, r_RawString = []\<rparr>"

definition raw_ata_raw_fields :: "raw_ata_raw field_dec list" where
  "raw_ata_raw_fields =
     [field ''value'' r_RawValue r_RawValue_update dec_uint,
      field ''string'' r_RawString r_RawString_update dec_string]"

record raw_ata_row =
  r_ID :: int
  r_Name :: string
  r_Value :: int
  r_Worst :: int
  r_Thresh :: int
  r_WhenFailed :: string
  r_Raw :: raw_ata_raw

definition zero_raw_ata_row :: raw_ata_row where
  "zero_raw_ata_row =
     \<lparr>r_ID = 0, r_Name = [], r_Value = 0, r_Worst = 0, r_Thresh = 0, r_WhenFailed = [],
      r_Raw = zero_raw_ata_raw\<rparr>"

definition raw_ata_row_fields :: "raw_ata_row field_dec list" where
  "raw_ata_row_fields =
     [field ''id'' r_ID r_ID_update dec_int,
      field ''name'' r_Name r_Name_update dec_string,
      field ''value'' r_Value r_Value_update dec_int,
      field ''worst'' r_Worst r_Worst_update dec_int,
      field ''thresh'' r_Thresh r_Thresh_update dec_int,
      field ''when_failed'' r_WhenFailed r_WhenFailed_update dec_string,
      field ''raw'' r_Raw r_Raw_update (dec_struct raw_ata_raw_fields)]"

record raw_ata_attributes =
  r_Table :: "raw_ata_row list"

definition zero_raw_ata_attributes :: raw_ata_attributes where
  "zero_raw_ata_attributes =
     \<lparr>r_Table = []\<rparr>"

definition raw_ata_attributes_fields :: "raw_ata_attributes field_dec list" where
  "raw_ata_attributes_fields =
     [field ''table'' r_Table r_Table_update
        (dec_slice zero_raw_ata_row (dec_struct raw_ata_row_fields))]"

record raw_test_status =
  r_TestPassed :: bool
  r_TestString :: string

definition zero_raw_test_status :: raw_test_status where
  "zero_raw_test_status =
     \<lparr>r_TestPassed = False, r_TestString = []\<rparr>"

definition raw_test_status_fields :: "raw_test_status field_dec list" where
  "raw_test_status_fields =
     [field ''passed'' r_TestPassed r_TestPassed_update dec_bool,
      field ''string'' r_TestString r_TestString_update dec_string]"

record raw_test_row =
  r_Status :: raw_test_status
  r_LifetimeHours :: int

definition zero_raw_test_row :: raw_test_row where
  "zero_raw_test_row =
     \<lparr>r_Status = zero_raw_test_status, r_LifetimeHours = 0\<rparr>"

definition raw_test_row_fields :: "raw_test_row field_dec list" where
  "raw_test_row_fields =
     [field ''status'' r_Status r_Status_update (dec_struct raw_test_status_fields),
      field ''lifetime_hours'' r_LifetimeHours r_LifetimeHours_update dec_int]"

record raw_test_extended =
  r_TestTable :: "raw_test_row list"

definition zero_raw_test_extended :: raw_test_extended where
  "zero_raw_test_extended =
     \<lparr>r_TestTable = []\<rparr>"

definition raw_test_extended_fields :: "raw_test_extended field_dec list" where
  "raw_test_extended_fields =
     [field ''table'' r_TestTable r_TestTable_update
        (dec_slice zero_raw_test_row (dec_struct raw_test_row_fields))]"

record raw_test_log =
  r_Extended :: raw_test_extended

definition zero_raw_test_log :: raw_test_log where
  "zero_raw_test_log =
     \<lparr>r_Extended = zero_raw_test_extended\<rparr>"

definition raw_test_log_fields :: "raw_test_log field_dec list" where
  "raw_test_log_fields =
     [field ''extended'' r_Extended r_Extended_update (dec_struct raw_test_extended_fields)]"

record rawSmartAll =
  ModelName :: string
  ModelFamily :: string
  SerialNumber :: string
  Firmware :: string
  FormFactor :: raw_form_factor
  RotationRate :: int
  UserCapacity :: raw_user_capacity
  Device :: raw_device
  SmartStatus :: raw_smart_status
  Temperature :: raw_temperature
  NVMeThresholds :: raw_thresholds
  PowerOnTime :: raw_power_on_time
  PowerCycleCount :: "64 word"
  RawNVMe :: "raw_nvme option"
  ATAAttributes :: "raw_ata_attributes option"
  ATASelfTestLog :: "raw_test_log option"

definition zero_rawSmartAll :: rawSmartAll where
  "zero_rawSmartAll =
     \<lparr>ModelName = [], ModelFamily = [], SerialNumber = [], Firmware = [],
      FormFactor = zero_raw_form_factor, RotationRate = 0,
      UserCapacity = zero_raw_user_capacity, Device = zero_raw_device,
      SmartStatus = zero_raw_smart_status, Temperature = zero_raw_temperature,
      NVMeThresholds = zero_raw_thresholds, PowerOnTime = zero_raw_power_on_time,
      PowerCycleCount = 0, RawNVMe = None, ATAAttributes = None, ATASelfTestLog = None\<rparr>"

definition rawSmartAll_fields :: "rawSmartAll field_dec list" where
  "rawSmartAll_fields =
     [field ''model_name'' ModelName ModelName_update dec_string,
      field ''model_family'' ModelFamily ModelFamily_update dec_string,
      field ''serial_number'' SerialNumber SerialNumber_update dec_string,
      field ''firmware_version'' Firmware Firmware_update dec_string,
      field ''form_factor'' FormFactor FormFactor_update (dec_struct raw_form_factor_fields),
      field ''rotation_rate'' RotationRate RotationRate_update dec_int,
      field ''user_capacity'' UserCapacity UserCapacity_update
        (dec_struct raw_user_capacity_fields),
      field ''device'' Device Device_update (dec_struct raw_device_fields),
      field ''smart_status'' SmartStatus SmartStatus_update
        (dec_struct raw_smart_status_fields),
      field ''temperature'' Temperature Temperature_update (dec_struct raw_temperature_fields),
      field ''nvme_composite_temperature_threshold'' NVMeThresholds NVMeThresholds_update
        (dec_struct raw_thresholds_fields),
      field ''power_on_time'' PowerOnTime PowerOnTime_update
        (dec_struct raw_power_on_time_fields),
      field ''power_cycle_count'' PowerCycleCount PowerCycleCount_update dec_uint,
      field ''nvme_smart_health_information_log'' RawNVMe RawNVMe_update
        (dec_ptr zero_raw_nvme (dec_struct raw_nvme_fields)),
      field ''ata_smart_attributes'' ATAAttributes ATAAttributes_update
        (dec_ptr zero_raw_ata_attributes (dec_struct raw_ata_attributes_fields)),
      field ''ata_smart_self_test_log'' ATASelfTestLog ATASelfTestLog_update
        (dec_ptr zero_raw_test_log (dec_struct raw_test_log_fields))]"

end
