(* ===== verification/Smart.thy ===== *)
theory Smart
  imports Host SmartRaw
begin

text \<open>
  The SMART endpoint of \<open>smart.go\<close>: the report and its JSON, the runs of smartctl,
  \<open>parseSmartAll\<close> and \<open>produceSmart\<close>. The goroutines that probe the devices store their
  reports in slots of their own, in any order; each meets the host in its own state.
\<close>

section \<open>The report\<close>

record NVMeHealth =
  n_CriticalWarning :: int
  n_Temperature :: int
  n_AvailableSpare :: int
  n_AvailableSpareThreshold :: int
  n_PercentageUsed :: int
  n_DataUnitsRead :: "64 word"
  n_DataUnitsWritten :: "64 word"
  n_HostReads :: "64 word"
  n_HostWrites :: "64 word"
  n_ControllerBusyTime :: "64 word"
  n_PowerCycles :: "64 word"
  n_PowerOnHours :: "64 word"
  n_UnsafeShutdowns :: "64 word"
  n_MediaErrors :: "64 word"
  n_NumErrLogEntries :: "64 word"
  n_WarningTempTime :: "64 word"
  n_CriticalCompTime :: "64 word"
  n_TemperatureSensors :: "int list"

definition NVMeHealth_json :: "NVMeHealth \<Rightarrow> json" where
  "NVMeHealth_json h = JObj
    ([(''critical_warning'', JInt (n_CriticalWarning h)),
      (''temperature'', JInt (n_Temperature h)),
      (''available_spare'', JInt (n_AvailableSpare h)),
      (''available_spare_threshold'', JInt (n_AvailableSpareThreshold h)),
      (''percentage_used'', JInt (n_PercentageUsed h)),
      (''data_units_read'', json_uint (n_DataUnitsRead h)),
      (''data_units_written'', json_uint (n_DataUnitsWritten h)),
      (''host_reads'', json_uint (n_HostReads h)),
      (''host_writes'', json_uint (n_HostWrites h)),
      (''controller_busy_time'', json_uint (n_ControllerBusyTime h)),
      (''power_cycles'', json_uint (n_PowerCycles h)),
      (''power_on_hours'', json_uint (n_PowerOnHours h)),
      (''unsafe_shutdowns'', json_uint (n_UnsafeShutdowns h)),
      (''media_errors'', json_uint (n_MediaErrors h)),
      (''num_err_log_entries'', json_uint (n_NumErrLogEntries h)),
      (''warning_temp_time'', json_uint (n_WarningTempTime h)),
      (''critical_comp_time'', json_uint (n_CriticalCompTime h))] @
     omit (n_TemperatureSensors h = []) ''temperature_sensors'' (JArr (map JInt (n_TemperatureSensors h))))"

record ATAAttribute =
  a_ID :: int
  a_Name :: string
  a_Value :: int
  a_Worst :: int
  a_Thresh :: int
  a_WhenFailed :: string
  a_RawValue :: "64 word"
  a_RawString :: string

definition ATAAttribute_json :: "ATAAttribute \<Rightarrow> json" where
  "ATAAttribute_json a = JObj
    ([(''id'', JInt (a_ID a)),
      (''name'', JStr (a_Name a)),
      (''value'', JInt (a_Value a)),
      (''worst'', JInt (a_Worst a)),
      (''thresh'', JInt (a_Thresh a))] @
     omit (a_WhenFailed a = []) ''when_failed'' (JStr (a_WhenFailed a)) @
     [(''raw'', json_uint (a_RawValue a)),
      (''raw_string'', JStr (a_RawString a))])"

record ATASelfTest =
  t_Passed :: bool
  t_StatusString :: string
  t_Hours :: int

definition zero_ATASelfTest :: ATASelfTest where
  "zero_ATASelfTest =
     \<lparr>t_Passed = False, t_StatusString = [], t_Hours = 0\<rparr>"

definition ATASelfTest_json :: "ATASelfTest \<Rightarrow> json" where
  "ATASelfTest_json t = JObj
    ([(''passed'', JBool (t_Passed t)),
      (''status'', JStr (t_StatusString t))] @
     omit (t_Hours t = 0) ''hours'' (JInt (t_Hours t)))"

record ATAHealth =
  Attributes :: "ATAAttribute list option"
  SelfTest :: ATASelfTest

definition ATAHealth_json :: "ATAHealth \<Rightarrow> json" where
  "ATAHealth_json a = JObj
    ([(''attributes'', json_slice ATAAttribute_json (Attributes a)),
      (''self_test'', ATASelfTest_json (SelfTest a))])"

record SmartDetails =
  d_ModelName :: string
  d_ModelFamily :: string
  d_SerialNumber :: string
  d_FirmwareVersion :: string
  d_FormFactor :: string
  d_RotationRate :: int
  d_CapacityBytes :: "64 word"
  d_Protocol :: string
  d_DeviceType :: string
  d_SmartPassed :: bool
  d_TemperatureCurrent :: int
  d_TemperatureWarning :: int
  d_TemperatureCritical :: int
  d_PowerOnHours :: "64 word"
  d_PowerCycleCount :: "64 word"
  d_NVMe :: "NVMeHealth option"
  d_ATA :: "ATAHealth option"

definition SmartDetails_json :: "SmartDetails \<Rightarrow> json" where
  "SmartDetails_json d = JObj
    ([(''model_name'', JStr (d_ModelName d))] @
     omit (d_ModelFamily d = []) ''model_family'' (JStr (d_ModelFamily d)) @
     [(''serial_number'', JStr (d_SerialNumber d)),
      (''firmware_version'', JStr (d_FirmwareVersion d))] @
     omit (d_FormFactor d = []) ''form_factor'' (JStr (d_FormFactor d)) @
     omit (d_RotationRate d = 0) ''rotation_rate'' (JInt (d_RotationRate d)) @
     [(''capacity_bytes'', json_uint (d_CapacityBytes d)),
      (''protocol'', JStr (d_Protocol d)),
      (''device_type'', JStr (d_DeviceType d)),
      (''smart_passed'', JBool (d_SmartPassed d))] @
     omit (d_TemperatureCurrent d = 0) ''temperature_current'' (JInt (d_TemperatureCurrent d)) @
     omit (d_TemperatureWarning d = 0) ''temperature_warning'' (JInt (d_TemperatureWarning d)) @
     omit (d_TemperatureCritical d = 0) ''temperature_critical'' (JInt (d_TemperatureCritical d)) @
     omit (d_PowerOnHours d = 0) ''power_on_hours'' (json_uint (d_PowerOnHours d)) @
     omit (d_PowerCycleCount d = 0) ''power_cycle_count'' (json_uint (d_PowerCycleCount d)) @
     omit (d_NVMe d = None) ''nvme'' (NVMeHealth_json (the (d_NVMe d))) @
     omit (d_ATA d = None) ''ata'' (ATAHealth_json (the (d_ATA d))))"

record SmartDeviceReport =
  p_Name :: string
  p_Type :: string
  p_Protocol :: string
  p_OK :: bool
  p_Error :: string
  p_Details :: "SmartDetails option"

definition SmartDeviceReport_json :: "SmartDeviceReport \<Rightarrow> json" where
  "SmartDeviceReport_json r = JObj
    ([(''name'', JStr (p_Name r)),
      (''type'', JStr (p_Type r)),
      (''protocol'', JStr (p_Protocol r)),
      (''ok'', JBool (p_OK r))] @
     omit (p_Error r = []) ''error'' (JStr (p_Error r)) @
     omit (p_Details r = None) ''details'' (SmartDetails_json (the (p_Details r))))"

record SmartReport =
  SmartctlAvailable :: bool
  SmartctlVersion :: string
  ScanError :: string
  Timestamp :: int
  Devices :: "SmartDeviceReport list option"

definition SmartReport_json :: "SmartReport \<Rightarrow> json" where
  "SmartReport_json r = JObj
    ([(''smartctl_available'', JBool (SmartctlAvailable r))] @
     omit (SmartctlVersion r = []) ''smartctl_version'' (JStr (SmartctlVersion r)) @
     omit (ScanError r = []) ''scan_error'' (JStr (ScanError r)) @
     [(''timestamp_ms'', JInt (Timestamp r)),
      (''devices'', json_slice SmartDeviceReport_json (Devices r))])"

definition nvme_of :: "raw_nvme \<Rightarrow> NVMeHealth" where
  "nvme_of h =
     \<lparr>n_CriticalWarning = r_CriticalWarning h,
      n_Temperature = r_Temperature h,
      n_AvailableSpare = r_AvailableSpare h,
      n_AvailableSpareThreshold = r_AvailableSpareThreshold h,
      n_PercentageUsed = r_PercentageUsed h,
      n_DataUnitsRead = r_DataUnitsRead h,
      n_DataUnitsWritten = r_DataUnitsWritten h,
      n_HostReads = r_HostReads h,
      n_HostWrites = r_HostWrites h,
      n_ControllerBusyTime = r_ControllerBusyTime h,
      n_PowerCycles = r_PowerCycles h,
      n_PowerOnHours = r_PowerOnHours h,
      n_UnsafeShutdowns = r_UnsafeShutdowns h,
      n_MediaErrors = r_MediaErrors h,
      n_NumErrLogEntries = r_NumErrLogEntries h,
      n_WarningTempTime = r_WarningTempTime h,
      n_CriticalCompTime = r_CriticalCompTime h,
      n_TemperatureSensors = r_TemperatureSensors h\<rparr>"

definition ata_row :: "raw_ata_row \<Rightarrow> ATAAttribute" where
  "ata_row a =
     \<lparr>a_ID = r_ID a, a_Name = r_Name a, a_Value = r_Value a, a_Worst = r_Worst a,
      a_Thresh = r_Thresh a, a_WhenFailed = r_WhenFailed a, a_RawValue = r_RawValue (r_Raw a),
      a_RawString = r_RawString (r_Raw a)\<rparr>"

section \<open>parseSmartAll\<close>

definition details_base :: "rawSmartAll \<Rightarrow> SmartDetails" where
  "details_base raw =
     \<lparr>d_ModelName = ModelName raw,
      d_ModelFamily = ModelFamily raw,
      d_SerialNumber = SerialNumber raw,
      d_FirmwareVersion = Firmware raw,
      d_FormFactor = r_FormName (FormFactor raw),
      d_RotationRate = RotationRate raw,
      d_CapacityBytes = r_Bytes (UserCapacity raw),
      d_Protocol = r_Protocol (Device raw),
      d_DeviceType = r_Type (Device raw),
      d_SmartPassed = r_Passed (SmartStatus raw),
      d_TemperatureCurrent = r_Current (Temperature raw),
      d_TemperatureWarning = max (r_Warning (NVMeThresholds raw)) (r_OpLimitMax (Temperature raw)),
      d_TemperatureCritical =
        max (r_Critical (NVMeThresholds raw)) (r_CriticalLimitMax (Temperature raw)),
      d_PowerOnHours = r_Hours (PowerOnTime raw),
      d_PowerCycleCount = PowerCycleCount raw,
      d_NVMe = None,
      d_ATA = None\<rparr>"

definition add_nvme :: "raw_nvme \<Rightarrow> SmartDetails \<Rightarrow> SmartDetails" where
  "add_nvme h d =
     (let d1 = d\<lparr>d_NVMe := Some (nvme_of h)\<rparr>;
          d2 = (if d_PowerOnHours d1 = 0 then d1\<lparr>d_PowerOnHours := r_PowerOnHours h\<rparr> else d1);
          d3 = (if d_PowerCycleCount d2 = 0 then d2\<lparr>d_PowerCycleCount := r_PowerCycles h\<rparr> else d2)
      in if d_TemperatureCurrent d3 = 0 then d3\<lparr>d_TemperatureCurrent := r_Temperature h\<rparr> else d3)"

text \<open>Appending to a nil slice: it stays nil when there is no row.\<close>

definition ata_of :: "raw_ata_attributes \<Rightarrow> raw_test_log option \<Rightarrow> ATAHealth" where
  "ata_of t log =
     \<lparr>Attributes = (if r_Table t = [] then None else Some (map ata_row (r_Table t))),
      SelfTest =
        (case log of
           None \<Rightarrow> zero_ATASelfTest
         | Some l \<Rightarrow>
             (let rows = r_TestTable (r_Extended l) in
              if rows = [] then zero_ATASelfTest
              else \<lparr>t_Passed = r_TestPassed (r_Status (last rows)),
                    t_StatusString = r_TestString (r_Status (last rows)),
                    t_Hours = r_LifetimeHours (last rows)\<rparr>))\<rparr>"

definition parseSmartAll :: "rawSmartAll \<Rightarrow> SmartDetails" where
  "parseSmartAll raw =
     (let d = (case RawNVMe raw of None \<Rightarrow> details_base raw
               | Some h \<Rightarrow> add_nvme h (details_base raw)) in
      case ATAAttributes raw of None \<Rightarrow> d
      | Some t \<Rightarrow> d\<lparr>d_ATA := Some (ata_of t (ATASelfTestLog raw))\<rparr>)"

section \<open>Running smartctl\<close>

definition nixSmartctl :: string where
  "nixSmartctl = ''/run/current-system/sw/bin/smartctl''"

definition smartTimeout :: duration where
  "smartTimeout = 30 * second"

definition perDeviceTimeout :: duration where
  "perDeviceTimeout = 12 * second"

definition resolveSmartctlBin :: "host \<Rightarrow> string" where
  "resolveSmartctlBin h = (if stat_ok h nixSmartctl then nixSmartctl else ''smartctl'')"

definition smartctlVersion :: "int list \<Rightarrow> string" where
  "smartctlVersion v = (if v = [] then [] else Join (map Itoa v) ''.'')"

definition fetchSmartScan :: "duration list \<Rightarrow> string \<Rightarrow> host \<Rightarrow> string + rawSmartScan" where
  "fetchSmartScan ctx bin h =
     (let (out, err) = run h ctx bin [''--scan'', ''--json''] in
      if err \<noteq> None \<and> out = [] then Inl (''smartctl scan exec: '' @ the err)
      else case Unmarshal (dec_struct rawSmartScan_fields) zero_rawSmartScan out of
             None \<Rightarrow> Inl (''parse smartctl scan json: '' @ json_error h ''rawSmartScan'' out)
           | Some data \<Rightarrow> Inr data)"

definition fetchSmartDevice :: "duration list \<Rightarrow> string \<Rightarrow> string \<Rightarrow> host \<Rightarrow> string + SmartDetails" where
  "fetchSmartDevice ctx bin dev h =
     (let (out, err) = run h ctx bin [''--xall'', ''--json'', dev] in
      if err \<noteq> None \<and> out = [] then Inl (''smartctl exec '' @ dev @ '': '' @ the err)
      else case Unmarshal (dec_struct rawSmartAll_fields) zero_rawSmartAll out of
             None \<Rightarrow> Inl (''parse smartctl json '' @ dev @ '': '' @ json_error h ''rawSmartAll'' out)
           | Some raw \<Rightarrow> Inr (parseSmartAll raw))"

section \<open>The producer\<close>

definition probe :: "duration list \<Rightarrow> string \<Rightarrow> host \<Rightarrow> SmartScanDevice \<Rightarrow> SmartDeviceReport" where
  "probe ctx bin h dev =
     (let rep = \<lparr>p_Name = s_Name dev, p_Type = s_Type dev, p_Protocol = s_Protocol dev,
                 p_OK = False, p_Error = [], p_Details = None\<rparr> in
      case fetchSmartDevice (ctx @ [perDeviceTimeout]) bin (s_Name dev) h of
        Inl e \<Rightarrow> rep\<lparr>p_OK := False, p_Error := e\<rparr>
      | Inr d \<Rightarrow> rep\<lparr>p_OK := True, p_Details := Some d\<rparr>)"

definition zero_SmartDeviceReport :: SmartDeviceReport where
  "zero_SmartDeviceReport =
     \<lparr>p_Name = [], p_Type = [], p_Protocol = [], p_OK = False, p_Error = [], p_Details = None\<rparr>"

text \<open>
  The goroutines: number \<open>i\<close> probes device \<open>i\<close>, in the host \<open>hs i\<close>, and stores into slot
  \<open>i\<close>. They are taken in the order in which they store.
\<close>

definition store_probe ::
  "duration list \<Rightarrow> string \<Rightarrow> (nat \<Rightarrow> host) \<Rightarrow> SmartScanDevice list \<Rightarrow> nat \<Rightarrow>
   SmartDeviceReport list \<Rightarrow> SmartDeviceReport list" where
  "store_probe ctx bin hs devs i slots = slots[i := probe ctx bin (hs i) (devs ! i)]"

definition probes ::
  "duration list \<Rightarrow> string \<Rightarrow> (nat \<Rightarrow> host) \<Rightarrow> SmartScanDevice list \<Rightarrow> nat list \<Rightarrow>
   SmartDeviceReport list" where
  "probes ctx bin hs devs order =
     fold (store_probe ctx bin hs devs) order (replicate (length devs) zero_SmartDeviceReport)"

text \<open>
  \<open>sched\<close> gives, for a number of goroutines, the order in which they store; \<open>wg.Wait\<close>
  returns when all have.
\<close>

definition smart_report ::
  "duration list \<Rightarrow> host \<Rightarrow> (nat \<Rightarrow> host) \<Rightarrow> (nat \<Rightarrow> nat list) \<Rightarrow> SmartReport" where
  "smart_report ctx h hs sched =
     (let ctx = ctx @ [smartTimeout];
          bin = resolveSmartctlBin h;
          report = \<lparr>SmartctlAvailable = False, SmartctlVersion = [], ScanError = [],
                    Timestamp = unix_milli h, Devices = None\<rparr> in
      case fetchSmartScan ctx bin h of
        Inl e \<Rightarrow> report\<lparr>ScanError := e\<rparr>
      | Inr scan \<Rightarrow>
          report\<lparr>SmartctlAvailable := True,
                 SmartctlVersion := smartctlVersion (c_Version (Smartctl scan)),
                 Devices := Some (probes ctx bin hs (scan_Devices scan)
                                    (sched (length (scan_Devices scan))))\<rparr>)"

definition produceSmart ::
  "duration list \<Rightarrow> host \<Rightarrow> (nat \<Rightarrow> host) \<Rightarrow> (nat \<Rightarrow> nat list) \<Rightarrow> body \<times> status" where
  "produceSmart ctx h hs sched = (encode (SmartReport_json (smart_report ctx h hs sched)), StatusOK)"

end
