(* ===== verification/SmartGuarantees.thy ===== *)
theory SmartGuarantees
  imports Smart
begin

text \<open>
  What the SMART endpoint promises: an answer in every case, the devices in the order of the
  scan whatever the order in which their probes end, a failing drive reported and not
  dropped, and the values of smartctl unchanged on their way into the report.
\<close>

section \<open>Slots\<close>

lemma probes_nth:
  "j < length devs \<Longrightarrow> length slots = length devs \<Longrightarrow>
   fold (store_probe ctx bin hs devs) order slots ! j =
     (if j \<in> set order then probe ctx bin (hs j) (devs ! j) else slots ! j)"
  by (induction order arbitrary: slots) (auto simp: store_probe_def nth_list_update)

lemma probes_length [simp]:
  "length (fold (store_probe ctx bin hs devs) order slots) = length slots"
  by (induction order arbitrary: slots) (simp_all add: store_probe_def)

lemma probes_complete:
  assumes "{..<length devs} \<subseteq> set order"
  shows "probes ctx bin hs devs order =
    map (\<lambda>(i, dev). probe ctx bin (hs i) dev) (List.enumerate 0 devs)"
proof (rule nth_equalityI)
  fix j assume j: "j < length (probes ctx bin hs devs order)"
  then have "j < length devs" by (simp add: probes_def)
  moreover from this assms have "j \<in> set order" by auto
  ultimately show "probes ctx bin hs devs order ! j =
      map (\<lambda>(i, dev). probe ctx bin (hs i) dev) (List.enumerate 0 devs) ! j"
    by (simp add: probes_def probes_nth nth_enumerate_eq)
qed (simp add: probes_def)

section \<open>The depth of a report\<close>

lemma deep_suc: "deep n j \<Longrightarrow> deep (Suc n) j"
  by (simp add: deep_def)

lemma NVMeHealth_deep: "deep 2 (NVMeHealth_json h)"
proof -
  have "deep 1 (JArr (map JInt (n_TemperatureSensors h)))"
    using deep_Arr [of 0] by (simp add: list_all_iff)
  then have "deep (Suc 1) (NVMeHealth_json h)" unfolding NVMeHealth_json_def by (intro deep_Obj) simp
  then show ?thesis by (simp add: numeral_2_eq_2)
qed

lemma ATAHealth_deep: "deep 3 (ATAHealth_json a)"
proof -
  have row: "deep (Suc 0) (ATAAttribute_json a)" for a
    unfolding ATAAttribute_json_def by (intro deep_Obj) simp
  have "deep (Suc 0) (ATASelfTest_json t)" for t
    unfolding ATASelfTest_json_def by (intro deep_Obj) simp
  then have "deep (Suc (Suc (Suc 0))) (ATAHealth_json a)"
    unfolding ATAHealth_json_def using deep_slice [of "Suc 0", OF row]
    by (intro deep_Obj) (simp add: deep_suc)
  then show ?thesis by (simp add: numeral_3_eq_3)
qed

lemma SmartDetails_deep: "deep 4 (SmartDetails_json d)"
proof -
  have "deep 3 (NVMeHealth_json h)" for h
    using deep_suc [OF NVMeHealth_deep [of h]] by simp
  then have "deep (Suc 3) (SmartDetails_json d)"
    unfolding SmartDetails_json_def by (intro deep_Obj) (simp add: ATAHealth_deep)
  then show ?thesis by simp
qed

lemma SmartReport_deep: "deep 7 (SmartReport_json r)"
proof -
  have "deep (Suc 4) (SmartDeviceReport_json d)" for d
    unfolding SmartDeviceReport_json_def by (intro deep_Obj) (simp add: SmartDetails_deep)
  from deep_slice [OF this] have "deep (Suc 6) (SmartReport_json r)"
    unfolding SmartReport_json_def by (intro deep_Obj) simp
  then show ?thesis by simp
qed

lemma NVMeHealth_ok: "json_ok (NVMeHealth_json h)"
  by (simp add: NVMeHealth_json_def json_ok_ints)

lemma ATAHealth_ok: "json_ok (ATAHealth_json a)"
proof -
  have "json_ok (ATAAttribute_json r)" for r by (simp add: ATAAttribute_json_def)
  then show ?thesis by (simp add: ATAHealth_json_def ATASelfTest_json_def json_ok_slice)
qed

lemma SmartReport_ok: "json_ok (SmartReport_json r)"
proof -
  have "json_ok (SmartDetails_json d)" for d
    by (simp add: SmartDetails_json_def NVMeHealth_ok ATAHealth_ok)
  then have "json_ok (SmartDeviceReport_json d)" for d by (simp add: SmartDeviceReport_json_def)
  then show ?thesis by (simp add: SmartReport_json_def json_ok_slice)
qed

lemma smart_body_read: "json_read (encode (SmartReport_json r)) = Some (tree_of (SmartReport_json r))"
  using SmartReport_deep [of r] by (intro json_read_encode) (simp_all add: deep_def SmartReport_ok)

section \<open>An NVMe log\<close>

definition raw_nvme_fits :: "raw_nvme \<Rightarrow> bool" where
  "raw_nvme_fits h \<longleftrightarrow>
     int64 (r_CriticalWarning h) \<and> int64 (r_Temperature h) \<and> int64 (r_AvailableSpare h) \<and>
     int64 (r_AvailableSpareThreshold h) \<and> int64 (r_PercentageUsed h) \<and>
     list_all int64 (r_TemperatureSensors h)"

interpretation nums: codec "dec_slice 0 dec_int" "\<lambda>vs. JArr (map JInt vs)" "[]" "list_all int64"
  by (rule slice_codec [OF num.codec_axioms])

lemmas nvme_keeps = num.keeps uns.keeps nums.keeps

interpretation nvme:
  codec "dec_struct raw_nvme_fields" "\<lambda>h. NVMeHealth_json (nvme_of h)" zero_raw_nvme raw_nvme_fits
proof
  show "raw_nvme_fits zero_raw_nvme"
    by (simp add: raw_nvme_fits_def zero_raw_nvme_def int64_def)
next
  fix t old assume "valid_tree t" "raw_nvme_fits old"
  then show "raw_nvme_fits (fst (dec_struct raw_nvme_fields t old))"
    by (rule dec_struct_fits [rotated])
      (simp add: raw_nvme_fields_def, intro conjI nvme_keeps; simp add: raw_nvme_fits_def)
next
  fix h assume "raw_nvme_fits h"
  then show "dec_struct raw_nvme_fields (tree_of (NVMeHealth_json (nvme_of h))) zero_raw_nvme = (h, True)"
    using nums.dec_enc [of "r_TemperatureSensors h"]
    by (cases "r_TemperatureSensors h = []")
      (simp_all add: raw_nvme_fields_def NVMeHealth_json_def nvme_of_def raw_nvme_fits_def
        zero_raw_nvme_def dec_struct_Obj field_def sanitize_ascii omit_def
        num.dec_enc [simplified] uns.dec_enc)
next
  show "json_ok (NVMeHealth_json (nvme_of h))" for h
    by (rule NVMeHealth_ok)
qed

abbreviation smart_read :: "string \<Rightarrow> rawSmartAll option" where
  "smart_read \<equiv> Unmarshal (dec_struct rawSmartAll_fields) zero_rawSmartAll"

abbreviation smart_scanned :: "duration list \<Rightarrow> host \<Rightarrow> string + rawSmartScan" where
  "smart_scanned ctx h \<equiv> fetchSmartScan (ctx @ [smartTimeout]) (resolveSmartctlBin h) h"

definition nvme_key :: string where
  "nvme_key = ''nvme_smart_health_information_log''"



lemma nvme_member:
  assumes "raw_nvme_fits h" "RawNVMe r = None"
  shows "dec_members rawSmartAll_fields [(nvme_key, tree_of (NVMeHealth_json (nvme_of h)))] r
    = (r\<lparr>RawNVMe := Some h\<rparr>, True)"
proof -
  have "dec_ptr zero_raw_nvme (dec_struct raw_nvme_fields) (tree_of (NVMeHealth_json (nvme_of h))) None
      = (Some h, True)"
    using nvme.dec_enc [OF assms(1)] by (simp add: dec_ptr_def NVMeHealth_json_def)
  then show ?thesis
    using assms(2) by (simp add: rawSmartAll_fields_def nvme_key_def field_def)
qed


section \<open>Guarantees\<close>


definition sample_log :: raw_nvme where
  "sample_log = zero_raw_nvme\<lparr>r_MediaErrors := 18446744073709551615\<rparr>"

definition sample_drive :: string where
  "sample_drive = encode (JObj [(nvme_key, NVMeHealth_json (nvme_of sample_log))])"

lemma sample_log_fits: "raw_nvme_fits sample_log"
  using nvme.fits_zero by (simp add: sample_log_def raw_nvme_fits_def)

lemma sample_drive_tree:
  "json_read sample_drive = Some (TObj [(nvme_key, tree_of (NVMeHealth_json (nvme_of sample_log)))])"
proof -
  let ?j = "JObj [(nvme_key, NVMeHealth_json (nvme_of sample_log))]"
  have "deep (Suc 2) ?j" by (intro deep_Obj) (simp add: NVMeHealth_deep)
  then have "json_read sample_drive = Some (tree_of ?j)"
    unfolding sample_drive_def by (intro json_read_encode) (simp_all add: deep_def NVMeHealth_ok)
  then show ?thesis by (simp add: nvme_key_def sanitize_ascii)
qed

lemma sample_drive_read: "smart_read sample_drive = Some (zero_rawSmartAll\<lparr>RawNVMe := Some sample_log\<rparr>)"
  using nvme_member [OF sample_log_fits, of zero_rawSmartAll]
  by (simp add: Unmarshal_def sample_drive_tree dec_struct_Obj zero_rawSmartAll_def del: dec_members.simps)




text \<open>
  Property C22: the report is the same for every interleaving of the probes. Each scanned
  device has one entry, in the order of the scan, made by the probe of that device alone;
  neither the order in which the goroutines end nor what happens to another device changes
  an entry, and none is left out or overwritten.
\<close>

theorem smart_probes_in_order:
  assumes "smart_scanned ctx h = Inr scan"
    and "{..<length (scan_Devices scan)} \<subseteq> set (sched (length (scan_Devices scan)))"
  shows "Devices (smart_report ctx h hs sched) =
    Some (map (\<lambda>(i, dev). probe (ctx @ [smartTimeout]) (resolveSmartctlBin h) (hs i) dev)
           (List.enumerate 0 (scan_Devices scan)))"
  using assms probes_complete by (simp add: smart_report_def)

definition scan_sample :: string where
  "scan_sample = encode (JObj [(''devices'', JArr [JObj [(''name'', JStr ''/dev/sda'')],
     JObj [(''name'', JStr ''/dev/sdb'')]])])"

definition sda :: SmartScanDevice where
  "sda = zero_SmartScanDevice\<lparr>s_Name := ''/dev/sda''\<rparr>"

definition sdb :: SmartScanDevice where
  "sdb = zero_SmartScanDevice\<lparr>s_Name := ''/dev/sdb''\<rparr>"

definition smart_host :: host where
  "smart_host = bare_host\<lparr>run := \<lambda>_ _ args.
     (if args = [''--scan'', ''--json''] then scan_sample
      else if args = [''--xall'', ''--json'', ''/dev/sda''] then sample_drive else [],
      Some ''exit status 8'')\<rparr>"

lemma smart_host_scan: "smart_scanned [] smart_host = Inr (zero_rawSmartScan\<lparr>scan_Devices := [sda, sdb]\<rparr>)"
proof -
  have "Unmarshal (dec_struct rawSmartScan_fields) zero_rawSmartScan scan_sample =
      Some (zero_rawSmartScan\<lparr>scan_Devices := [sda, sdb]\<rparr>)"
    by code_simp
  then show ?thesis by (simp add: fetchSmartScan_def smart_host_def scan_sample_def)
qed

lemma smart_probes_in_order_witness:
  "Devices (smart_report [] smart_host (\<lambda>_. smart_host) (\<lambda>_. [1, 0])) =
     Some [probe [smartTimeout] ''smartctl'' smart_host sda, probe [smartTimeout] ''smartctl'' smart_host sdb]"
  using smart_probes_in_order [OF smart_host_scan, of "\<lambda>_. [1, 0]" "\<lambda>_. smart_host"]
  by (force simp: smart_host_def resolveSmartctlBin_def bare_host_def)

text \<open>
  Property C23: a failing drive is reported, not dropped. If smartctl prints a decodable
  report for device number \<open>i\<close>, then whatever its exit status, and whatever the probes of the
  other devices give, entry \<open>i\<close> is marked as ok, has no error and carries the normalised
  details of that output, the failed health status included.
\<close>

theorem smart_failing_drive_reported:
  assumes "smart_scanned ctx h = Inr scan" and "i < length (scan_Devices scan)"
    and "{..<length (scan_Devices scan)} \<subseteq> set (sched (length (scan_Devices scan)))"
    and "run (hs i) (ctx @ [smartTimeout, perDeviceTimeout]) (resolveSmartctlBin h)
           [''--xall'', ''--json'', s_Name (scan_Devices scan ! i)] = (out, err)"
    and "smart_read out = Some raw"
  shows "\<exists>ds. Devices (smart_report ctx h hs sched) = Some ds \<and>
    length ds = length (scan_Devices scan) \<and>
    ds ! i = \<lparr>p_Name = s_Name (scan_Devices scan ! i), p_Type = s_Type (scan_Devices scan ! i),
              p_Protocol = s_Protocol (scan_Devices scan ! i), p_OK = True, p_Error = [],
              p_Details = Some (parseSmartAll raw)\<rparr> \<and>
    d_SmartPassed (parseSmartAll raw) = r_Passed (SmartStatus raw)"
proof -
  have "out \<noteq> []" using assms(5) by (auto simp: Unmarshal_def json_read_def json_fuel_def skip_ws_def
      numeral_2_eq_2 split: option.splits)
  then have "fetchSmartDevice (ctx @ [smartTimeout, perDeviceTimeout]) (resolveSmartctlBin h)
      (s_Name (scan_Devices scan ! i)) (hs i) = Inr (parseSmartAll raw)"
    using assms(4,5) by (simp add: fetchSmartDevice_def)
  then show ?thesis
    using assms(1-3) probes_complete
    by (simp add: smart_report_def probe_def nth_enumerate_eq parseSmartAll_def add_nvme_def
        details_base_def Let_def split: option.split)
qed

lemma smart_failing_drive_reported_witness:
  "\<exists>ds. Devices (smart_report [] smart_host (\<lambda>_. smart_host) (\<lambda>_. [1, 0])) = Some ds \<and> p_OK (ds ! 0)"
proof -
  let ?scan = "zero_rawSmartScan\<lparr>scan_Devices := [sda, sdb]\<rparr>"
  have "run smart_host ([] @ [smartTimeout, perDeviceTimeout]) (resolveSmartctlBin smart_host)
      [''--xall'', ''--json'', s_Name (scan_Devices ?scan ! 0)] = (sample_drive, Some ''exit status 8'')"
    by (simp add: smart_host_def sda_def)
  moreover have "{..<length (scan_Devices ?scan)} \<subseteq> set ((\<lambda>_. [1, 0]) (length (scan_Devices ?scan)))"
    by auto
  ultimately show ?thesis
    using smart_failing_drive_reported [OF smart_host_scan, of 0 "\<lambda>_. [1, 0]" "\<lambda>_. smart_host",
        OF _ _ _ sample_drive_read]
    by auto
qed

text \<open>
  Property C24: the SMART endpoint always answers 200 with a JSON object a dashboard can rely
  on: \<open>smartctl_available\<close> is true exactly when the scan gave a device list, and \<open>devices\<close>
  is then an array with one element per scanned device, and null otherwise. A missing
  smartctl, a failed scan or a failed probe never turns into an error status.
\<close>

theorem smart_always_answers:
  "snd (produceSmart ctx h hs sched) = StatusOK \<and>
   (\<exists>ms. json_read (fst (produceSmart ctx h hs sched)) = Some (TObj ms) \<and>
      (case smart_scanned ctx h of
         Inl e \<Rightarrow> map_of ms ''smartctl_available'' = Some (TBool False) \<and> map_of ms ''devices'' = Some TNull
       | Inr scan \<Rightarrow> map_of ms ''smartctl_available'' = Some (TBool True) \<and>
           (\<exists>ds. map_of ms ''devices'' = Some (TArr ds) \<and> length ds = length (scan_Devices scan))))"
proof -
  let ?r = "smart_report ctx h hs sched"
  obtain ms where ms: "tree_of (SmartReport_json ?r) = TObj ms"
    by (simp add: SmartReport_json_def)
  have "map_of ms ''smartctl_available'' = Some (TBool (SmartctlAvailable ?r))"
    "map_of ms ''devices'' = Some (tree_of (json_slice SmartDeviceReport_json (Devices ?r)))"
    using ms by (auto simp: SmartReport_json_def omit_def sanitize_ascii split: if_splits)
  moreover have "json_read (fst (produceSmart ctx h hs sched)) = Some (TObj ms)"
    by (simp add: produceSmart_def smart_body_read ms)
  ultimately show ?thesis
    by (cases "smart_scanned ctx h")
      (auto simp: produceSmart_def smart_report_def json_slice_def probes_def)
qed

text \<open>
  The probe does not look at the type the scan found: entries of one name, such as the
  members of a RAID controller, are probed by the same command and get the same details.
\<close>

lemma smart_type_ignored:
  "s_Name dev = s_Name dev' \<Longrightarrow>
   p_Details (probe ctx bin h dev) = p_Details (probe ctx bin h dev') \<and>
   p_Error (probe ctx bin h dev) = p_Error (probe ctx bin h dev')"
  by (simp add: probe_def Let_def split: sum.split)

end
