(* ===== verification/SysText.thy ===== *)
theory SysText
  imports Host LineScan
begin

text \<open>
  The text scrapers of \<open>sysinfo.go\<close> whose results are strings and integers:
  \<open>/etc/os-release\<close>, \<open>/proc/meminfo\<close>, \<open>/proc/stat\<close>, the directory of processes, the
  routing table and the FIB trie, and the host-name and fallback helpers. Memory sizes are
  \<open>uint64\<close>, so scaling to bytes wraps.
\<close>

section \<open>/etc/os-release\<close>

record os_release =
  os_id :: string
  os_pretty :: string
  os_version :: string
  os_codename :: string
  os_variant :: string
  os_buildID :: string

definition quotes :: "char list" where
  "quotes = [CHR 0x22, CHR 0x27]"

definition os_assign :: "string \<Rightarrow> string \<Rightarrow> os_release \<Rightarrow> os_release" where
  "os_assign key val r =
     (if key = ''ID'' then r\<lparr>os_id := val\<rparr>
      else if key = ''PRETTY_NAME'' then r\<lparr>os_pretty := val\<rparr>
      else if key = ''VERSION'' then r\<lparr>os_version := val\<rparr>
      else if key = ''VERSION_CODENAME'' then r\<lparr>os_codename := val\<rparr>
      else if key = ''VARIANT'' then r\<lparr>os_variant := val\<rparr>
      else if key = ''VARIANT_ID'' then (if os_variant r = [] then r\<lparr>os_variant := val\<rparr> else r)
      else if key = ''BUILD_ID'' then r\<lparr>os_buildID := val\<rparr>
      else r)"

definition os_step :: "string \<Rightarrow> os_release \<Rightarrow> os_release" where
  "os_step raw_line r =
     (let line = TrimSpace raw_line in
      if line = [] \<or> HasPrefix line ''#'' then r
      else case Cut line ''='' of
        None \<Rightarrow> r
      | Some (key, val) \<Rightarrow> os_assign key (Trim val quotes) r)"

definition parseOSRelease :: "string \<Rightarrow> os_release" where
  "parseOSRelease raw =
     fold os_step (lines_of raw)
       \<lparr>os_id = [], os_pretty = [], os_version = [], os_codename = [], os_variant = [],
        os_buildID = []\<rparr>"

section \<open>/proc/meminfo\<close>

record mem_info =
  mem_total :: "64 word"
  mem_free :: "64 word"
  mem_available :: "64 word"
  mem_cached :: "64 word"
  swap_total :: "64 word"
  swap_free :: "64 word"

definition mem_scan :: "string \<Rightarrow> string \<Rightarrow> 64 word option" where
  "mem_scan line pre =
     (if \<not> HasPrefix line pre then None
      else case Fields line of
        _ # val # _ \<Rightarrow> map_option (\<lambda>v. v * 1024) (ParseUint val)
      | _ \<Rightarrow> None)"

definition mem_step :: "string \<Rightarrow> mem_info \<Rightarrow> mem_info" where
  "mem_step line m =
     (case mem_scan line ''MemTotal:'' of Some v \<Rightarrow> m\<lparr>mem_total := v\<rparr> | None \<Rightarrow>
      case mem_scan line ''MemFree:'' of Some v \<Rightarrow> m\<lparr>mem_free := v\<rparr> | None \<Rightarrow>
      case mem_scan line ''MemAvailable:'' of Some v \<Rightarrow> m\<lparr>mem_available := v\<rparr> | None \<Rightarrow>
      case mem_scan line ''Cached:'' of Some v \<Rightarrow> m\<lparr>mem_cached := v\<rparr> | None \<Rightarrow>
      case mem_scan line ''SwapTotal:'' of Some v \<Rightarrow> m\<lparr>swap_total := v\<rparr> | None \<Rightarrow>
      case mem_scan line ''SwapFree:'' of Some v \<Rightarrow> m\<lparr>swap_free := v\<rparr> | None \<Rightarrow> m)"

definition parseMemInfo :: "string \<Rightarrow> mem_info" where
  "parseMemInfo raw =
     fold mem_step (lines_of raw)
       \<lparr>mem_total = 0, mem_free = 0, mem_available = 0, mem_cached = 0, swap_total = 0,
        swap_free = 0\<rparr>"

definition satSub :: "64 word \<Rightarrow> 64 word \<Rightarrow> 64 word" where
  "satSub a b = (if a \<le> b then 0 else a - b)"

text \<open>The choice that \<open>fetchSysInfo\<close> makes for the used memory.\<close>

definition memory_used :: "mem_info \<Rightarrow> 64 word" where
  "memory_used m =
     (if 0 < mem_available m then satSub (mem_total m) (mem_available m)
      else satSub (mem_total m) (mem_free m + mem_cached m))"

section \<open>Names and numbers\<close>

definition fqdn :: "string \<Rightarrow> string \<Rightarrow> string" where
  "fqdn host0 domain0 =
     (let hst = TrimSuffix (TrimSpace host0) ''.'';
          dmn = TrimSuffix (TrimSpace domain0) ''.'' in
      if dmn = [] \<or> dmn = ''(none)'' \<or> dmn = ''none'' then hst
      else if hst = [] \<or> hst = dmn \<or> HasSuffix hst (''.'' @ dmn) then hst
      else hst @ ''.'' @ dmn)"

fun btime_lines :: "string list \<Rightarrow> int" where
  "btime_lines [] = 0"
| "btime_lines (l # ls) =
     (case CutPrefix (TrimSpace l) ''btime '' of
        None \<Rightarrow> btime_lines ls
      | Some v \<Rightarrow> (case ParseInt (TrimSpace v) of None \<Rightarrow> 0 | Some b \<Rightarrow> b))"

definition parseBtime :: "string \<Rightarrow> int" where
  "parseBtime raw = btime_lines (lines_of raw)"

definition countProcesses :: "host \<Rightarrow> string \<Rightarrow> int" where
  "countProcesses h dir =
     (case read_dir h dir of
        None \<Rightarrow> 0
      | Some es \<Rightarrow> fold (\<lambda>(name, is_dir) n. if \<not> is_dir then n
                           else if Atoi name \<noteq> None then n + 1 else n) es 0)"

definition readTrim :: "host \<Rightarrow> string \<Rightarrow> string" where
  "readTrim h path = file_or [] TrimSpace (read_file h path)"

fun firstNonEmpty :: "string list \<Rightarrow> string" where
  "firstNonEmpty [] = []"
| "firstNonEmpty (v # vs) = (if v \<noteq> [] then v else firstNonEmpty vs)"

section \<open>The network\<close>

fun route_lines :: "string list \<Rightarrow> string" where
  "route_lines [] = []"
| "route_lines (l # ls) =
     (let fs = Fields l in
      if length fs < 4 then route_lines ls
      else if EqualFold (fs ! 1) ''00000000'' then fs ! 0
      else route_lines ls)"

definition parseDefaultRoute :: "string \<Rightarrow> string" where
  "parseDefaultRoute raw =
     (let ls = lines_of raw in if length ls < 2 then [] else route_lines (drop 1 ls))"

fun fib_lines :: "string \<Rightarrow> string list \<Rightarrow> string" where
  "fib_lines lastIP [] = []"
| "fib_lines lastIP (l # ls) =
     (case Cut l ''|--'' of
        Some (_, after) \<Rightarrow> fib_lines (TrimSpace after) ls
      | None \<Rightarrow>
          (if \<not> Contains l ''host LOCAL'' then fib_lines lastIP ls
           else if lastIP = [] \<or> lastIP = ''127.0.0.1'' \<or> lastIP = ''0.0.0.0'' \<or>
                   HasPrefix lastIP ''127.''
           then fib_lines lastIP ls
           else lastIP))"

definition parseIPv4ForIface :: "string \<Rightarrow> string \<Rightarrow> string" where
  "parseIPv4ForIface raw iface = fib_lines [] (lines_of raw)"

end
