(* ===== verification/SysInfo.thy ===== *)
theory SysInfo
  imports SysText
begin

text \<open>
  The rest of \<open>sysinfo.go\<close>: the parsers with \<open>float64\<close> results, the record \<open>SysInfo\<close> with
  its JSON, \<open>fetchSysInfo\<close> and \<open>produceSysInfo\<close>. \<open>fetchSysInfo\<close> is the composition of its
  blocks, each a function on the snapshot; a file that cannot be read leaves its fields.
\<close>

section \<open>Paths\<close>

definition procOSRelease :: string where
  "procOSRelease = ''/etc/os-release''"

definition procUptime :: string where
  "procUptime = ''/proc/uptime''"

definition procMemInfo :: string where
  "procMemInfo = ''/proc/meminfo''"

definition procCPUInfo :: string where
  "procCPUInfo = ''/proc/cpuinfo''"

definition procLoadAvg :: string where
  "procLoadAvg = ''/proc/loadavg''"

definition procStat :: string where
  "procStat = ''/proc/stat''"

definition procNetRoute :: string where
  "procNetRoute = ''/proc/net/route''"

definition procNetIPv4 :: string where
  "procNetIPv4 = ''/proc/net/fib_trie''"

definition procRoot :: string where
  "procRoot = ''/proc''"

definition cpuFreqBase :: string where
  "cpuFreqBase = ''/sys/devices/system/cpu/cpu0/cpufreq/scaling_min_freq''"

definition cpuFreqMax :: string where
  "cpuFreqMax = ''/sys/devices/system/cpu/cpu0/cpufreq/scaling_max_freq''"

definition cpuFreqCur :: string where
  "cpuFreqCur = ''/sys/devices/system/cpu/cpu0/cpufreq/scaling_cur_freq''"

definition dmiSysVendor :: string where
  "dmiSysVendor = ''/sys/class/dmi/id/sys_vendor''"

definition dmiProductName :: string where
  "dmiProductName = ''/sys/class/dmi/id/product_name''"

definition dmiProductVer :: string where
  "dmiProductVer = ''/sys/class/dmi/id/product_version''"

definition dmiBoardName :: string where
  "dmiBoardName = ''/sys/class/dmi/id/board_name''"

definition zfsDev :: string where
  "zfsDev = ''/dev/zfs''"

lemmas sysinfo_paths =
  procOSRelease_def procUptime_def procMemInfo_def procCPUInfo_def procLoadAvg_def procStat_def
  procNetRoute_def procNetIPv4_def procRoot_def cpuFreqBase_def cpuFreqMax_def cpuFreqCur_def
  dmiSysVendor_def dmiProductName_def dmiProductVer_def dmiBoardName_def zfsDev_def

section \<open>Parsers\<close>

record cpu_info =
  cpu_model :: string
  cpu_vendor :: string
  cpu_logical :: int
  cpu_physical :: int
  cpu_freqMHz :: float64

text \<open>The value of a line with a given key: what follows the first colon after it.\<close>

definition cpu_value :: "string \<Rightarrow> string \<Rightarrow> string option" where
  "cpu_value line key =
     (case CutPrefix line key of
        None \<Rightarrow> None
      | Some v \<Rightarrow> (case Cut v '':'' of None \<Rightarrow> None | Some (_, val) \<Rightarrow> Some (TrimSpace val)))"

definition cpu_step :: "string \<Rightarrow> cpu_info \<Rightarrow> cpu_info" where
  "cpu_step raw_line c0 =
     (let line = TrimSpace raw_line;
          c1 = (if cpu_model c0 = [] then
                  (case cpu_value line ''model name'' of None \<Rightarrow> c0 | Some v \<Rightarrow> c0\<lparr>cpu_model := v\<rparr>)
                else c0);
          c2 = (if cpu_vendor c1 = [] then
                  (case cpu_value line ''vendor_id'' of None \<Rightarrow> c1 | Some v \<Rightarrow> c1\<lparr>cpu_vendor := v\<rparr>)
                else c1);
          c3 = (if cpu_physical c2 = 0 then
                  (case cpu_value line ''cpu cores'' of
                     None \<Rightarrow> c2
                   | Some v \<Rightarrow> (case Atoi v of None \<Rightarrow> c2 | Some n \<Rightarrow> c2\<lparr>cpu_physical := n\<rparr>))
                else c2);
          c4 = (if fis_zero (cpu_freqMHz c3) then
                  (case cpu_value line ''cpu MHz'' of
                     None \<Rightarrow> c3
                   | Some v \<Rightarrow> (let (f, ok) = ParseFloat v in if ok then c3\<lparr>cpu_freqMHz := f\<rparr> else c3))
                else c3)
      in if HasPrefix line ''processor'' then c4\<lparr>cpu_logical := cpu_logical c4 + 1\<rparr> else c4)"

definition parseCPUInfo :: "string \<Rightarrow> cpu_info" where
  "parseCPUInfo raw =
     fold cpu_step (lines_of raw)
       \<lparr>cpu_model = [], cpu_vendor = [], cpu_logical = 0, cpu_physical = 0, cpu_freqMHz = fzero\<rparr>"

definition parseUptime :: "string \<Rightarrow> float64" where
  "parseUptime raw =
     (case Fields raw of
        [] \<Rightarrow> fzero
      | f # _ \<Rightarrow> (let (v, ok) = ParseFloat f in if ok then v else fzero))"

definition parseLoadAvg :: "string \<Rightarrow> float64 \<times> float64 \<times> float64" where
  "parseLoadAvg raw =
     (case Fields raw of
        a # b # c # _ \<Rightarrow> (fst (ParseFloat a), fst (ParseFloat b), fst (ParseFloat c))
      | _ \<Rightarrow> (fzero, fzero, fzero))"

definition khzToMHz :: "string \<Rightarrow> float64" where
  "khzToMHz s = (let (v, ok) = ParseFloat (TrimSpace s) in if ok then fdiv v 1000 else fzero)"

text \<open>The argument is the platform's conversion of values out of range.\<close>

definition em_dash :: string where
  "em_dash = [CHR 0xE2, CHR 0x80, CHR 0x94]"

definition formatUptime :: "(float64 \<Rightarrow> 64 word) \<Rightarrow> float64 \<Rightarrow> string" where
  "formatUptime other sec =
     (if fless sec 1 then em_dash
      else let u = to_uint64 other sec;
               d = u div 86400; h = (u mod 86400) div 3600; m = (u mod 3600) div 60; s = u mod 60;
               num = (\<lambda>w. show_nat (unat w))
           in (if 0 < d then num d @ ''d '' else []) @
              (if 0 < h \<or> 0 < d then num h @ ''h '' else []) @
              (if 0 < m \<or> 0 < h \<or> 0 < d then num m @ ''m '' else []) @
              num s @ ''s'')"

section \<open>The snapshot\<close>

record SysInfo =
  y_Hostname :: string
  y_FQDN :: string
  y_OS :: string
  y_OSID :: string
  y_OSVersion :: string
  y_OSCodename :: string
  y_OSVariant :: string
  y_OSBuildID :: string
  y_Kernel :: string
  y_KernelRelease :: string
  y_KernelVersion :: string
  y_Machine :: string
  y_HostVendor :: string
  y_HostProduct :: string
  y_HostVersion :: string
  y_HostFamily :: string
  y_UptimeSeconds :: float64
  y_Uptime :: string
  y_BootTime :: int
  y_CPUModel :: string
  y_CPUVendor :: string
  y_CPUCores :: int
  y_CPUPhysicalCores :: int
  y_CPUFreqMHz :: float64
  y_CPUBaseMHz :: float64
  y_CPUMaxMHz :: float64
  y_Load1 :: float64
  y_Load5 :: float64
  y_Load15 :: float64
  y_MemoryTotalBytes :: "64 word"
  y_MemoryFreeBytes :: "64 word"
  y_MemoryAvailableBytes :: "64 word"
  y_MemoryUsedBytes :: "64 word"
  y_MemoryCachedBytes :: "64 word"
  y_SwapTotalBytes :: "64 word"
  y_SwapFreeBytes :: "64 word"
  y_Shell :: string
  y_Terminal :: string
  y_Locale :: string
  y_Processes :: int
  y_NetIface :: string
  y_NetIPv4 :: string
  y_ZFSAvailable :: bool
  y_ARCAvailable :: bool
  y_Timestamp :: int

definition zero_SysInfo :: SysInfo where
  "zero_SysInfo =
     \<lparr>y_Hostname = [], y_FQDN = [], y_OS = [], y_OSID = [], y_OSVersion = [],
      y_OSCodename = [], y_OSVariant = [], y_OSBuildID = [], y_Kernel = [],
      y_KernelRelease = [], y_KernelVersion = [], y_Machine = [], y_HostVendor = [],
      y_HostProduct = [], y_HostVersion = [], y_HostFamily = [], y_UptimeSeconds = fzero,
      y_Uptime = [], y_BootTime = 0, y_CPUModel = [], y_CPUVendor = [], y_CPUCores = 0,
      y_CPUPhysicalCores = 0, y_CPUFreqMHz = fzero, y_CPUBaseMHz = fzero,
      y_CPUMaxMHz = fzero, y_Load1 = fzero, y_Load5 = fzero, y_Load15 = fzero,
      y_MemoryTotalBytes = 0, y_MemoryFreeBytes = 0, y_MemoryAvailableBytes = 0,
      y_MemoryUsedBytes = 0, y_MemoryCachedBytes = 0, y_SwapTotalBytes = 0,
      y_SwapFreeBytes = 0, y_Shell = [], y_Terminal = [], y_Locale = [], y_Processes = 0,
      y_NetIface = [], y_NetIPv4 = [], y_ZFSAvailable = False, y_ARCAvailable = False,
      y_Timestamp = 0\<rparr>"

definition SysInfo_json :: "SysInfo \<Rightarrow> json" where
  "SysInfo_json s = JObj
     [(''hostname'', JStr (y_Hostname s)),
      (''fqdn'', JStr (y_FQDN s)),
      (''os'', JStr (y_OS s)),
      (''os_id'', JStr (y_OSID s)),
      (''os_version'', JStr (y_OSVersion s)),
      (''os_codename'', JStr (y_OSCodename s)),
      (''os_variant'', JStr (y_OSVariant s)),
      (''os_build_id'', JStr (y_OSBuildID s)),
      (''kernel'', JStr (y_Kernel s)),
      (''kernel_release'', JStr (y_KernelRelease s)),
      (''kernel_version'', JStr (y_KernelVersion s)),
      (''machine'', JStr (y_Machine s)),
      (''host_vendor'', JStr (y_HostVendor s)),
      (''host_product'', JStr (y_HostProduct s)),
      (''host_version'', JStr (y_HostVersion s)),
      (''host_family'', JStr (y_HostFamily s)),
      (''uptime_seconds'', json_float (y_UptimeSeconds s)),
      (''uptime'', JStr (y_Uptime s)),
      (''boot_time'', JInt (y_BootTime s)),
      (''cpu_model'', JStr (y_CPUModel s)),
      (''cpu_vendor'', JStr (y_CPUVendor s)),
      (''cpu_cores'', JInt (y_CPUCores s)),
      (''cpu_physical_cores'', JInt (y_CPUPhysicalCores s)),
      (''cpu_freq_mhz'', json_float (y_CPUFreqMHz s)),
      (''cpu_base_mhz'', json_float (y_CPUBaseMHz s)),
      (''cpu_max_mhz'', json_float (y_CPUMaxMHz s)),
      (''load1'', json_float (y_Load1 s)),
      (''load5'', json_float (y_Load5 s)),
      (''load15'', json_float (y_Load15 s)),
      (''memory_total_bytes'', json_uint (y_MemoryTotalBytes s)),
      (''memory_free_bytes'', json_uint (y_MemoryFreeBytes s)),
      (''memory_available_bytes'', json_uint (y_MemoryAvailableBytes s)),
      (''memory_used_bytes'', json_uint (y_MemoryUsedBytes s)),
      (''memory_cached_bytes'', json_uint (y_MemoryCachedBytes s)),
      (''swap_total_bytes'', json_uint (y_SwapTotalBytes s)),
      (''swap_free_bytes'', json_uint (y_SwapFreeBytes s)),
      (''shell'', JStr (y_Shell s)),
      (''terminal'', JStr (y_Terminal s)),
      (''locale'', JStr (y_Locale s)),
      (''processes'', JInt (y_Processes s)),
      (''net_iface'', JStr (y_NetIface s)),
      (''net_ipv4'', JStr (y_NetIPv4 s)),
      (''zfs_available'', JBool (y_ZFSAvailable s)),
      (''arc_available'', JBool (y_ARCAvailable s)),
      (''timestamp_ms'', JInt (y_Timestamp s))]"
section \<open>Reading the host\<close>

definition sys_start :: "host \<Rightarrow> SysInfo" where
  "sys_start h = zero_SysInfo\<lparr>y_Machine := goarch h, y_Timestamp := unix_milli h\<rparr>"

definition sys_names :: "host \<Rightarrow> SysInfo \<Rightarrow> SysInfo" where
  "sys_names h s =
     (let s1 = (case os_hostname h of None \<Rightarrow> s | Some n \<Rightarrow> s\<lparr>y_Hostname := n\<rparr>)
      in file_or s1 (\<lambda>b. s1\<lparr>y_FQDN := fqdn (y_Hostname s1) b\<rparr>)
           (read_file h ''/proc/sys/kernel/domainname''))"

definition sys_release :: "host \<Rightarrow> SysInfo \<Rightarrow> SysInfo" where
  "sys_release h s =
     file_or s (\<lambda>b. let r = parseOSRelease b in
         s\<lparr>y_OSID := os_id r, y_OS := os_pretty r, y_OSVersion := os_version r,
           y_OSCodename := os_codename r, y_OSVariant := os_variant r, y_OSBuildID := os_buildID r\<rparr>)
       (read_file h procOSRelease)"

definition sys_uptime :: "host \<Rightarrow> SysInfo \<Rightarrow> SysInfo" where
  "sys_uptime h s =
     file_or s (\<lambda>b. let s1 = s\<lparr>y_UptimeSeconds := parseUptime b\<rparr>
                     in s1\<lparr>y_Uptime := formatUptime (float_uint64 h) (y_UptimeSeconds s1)\<rparr>)
       (read_file h procUptime)"

definition sys_memory :: "host \<Rightarrow> SysInfo \<Rightarrow> SysInfo" where
  "sys_memory h s =
     file_or s (\<lambda>b. let m = parseMemInfo b in
         s\<lparr>y_MemoryTotalBytes := mem_total m, y_MemoryFreeBytes := mem_free m,
           y_MemoryAvailableBytes := mem_available m, y_MemoryCachedBytes := mem_cached m,
           y_SwapTotalBytes := swap_total m, y_SwapFreeBytes := swap_free m,
           y_MemoryUsedBytes := memory_used m\<rparr>)
       (read_file h procMemInfo)"

definition sys_cpu :: "host \<Rightarrow> SysInfo \<Rightarrow> SysInfo" where
  "sys_cpu h s =
     (let s1 = file_or s (\<lambda>b. let c = parseCPUInfo b in
                  s\<lparr>y_CPUModel := cpu_model c, y_CPUVendor := cpu_vendor c,
                    y_CPUCores := cpu_logical c, y_CPUPhysicalCores := cpu_physical c,
                    y_CPUFreqMHz := cpu_freqMHz c\<rparr>)
                (read_file h procCPUInfo)
      in if y_CPUCores s1 = 0 then s1\<lparr>y_CPUCores := num_cpu h\<rparr> else s1)"

definition readCPUFreqLimits :: "host \<Rightarrow> float64 \<times> float64" where
  "readCPUFreqLimits h =
     (file_or fzero khzToMHz
        (read_file h cpuFreqBase),
      file_or fzero khzToMHz
        (read_file h cpuFreqMax))"

definition sys_freq :: "host \<Rightarrow> SysInfo \<Rightarrow> SysInfo" where
  "sys_freq h s =
     (let (lo, hi) = readCPUFreqLimits h;
          s1 = s\<lparr>y_CPUBaseMHz := lo, y_CPUMaxMHz := hi\<rparr>
      in if fis_zero (y_CPUFreqMHz s1) then
           file_or s1 (\<lambda>b. s1\<lparr>y_CPUFreqMHz := khzToMHz b\<rparr>)
             (read_file h cpuFreqCur)
         else s1)"

definition sys_dmi :: "host \<Rightarrow> SysInfo \<Rightarrow> SysInfo" where
  "sys_dmi h s =
     s\<lparr>y_HostVendor := readTrim h dmiSysVendor,
       y_HostProduct := readTrim h dmiProductName,
       y_HostVersion := readTrim h dmiProductVer,
       y_HostFamily := readTrim h dmiBoardName\<rparr>"

definition sys_load :: "host \<Rightarrow> SysInfo \<Rightarrow> SysInfo" where
  "sys_load h s =
     file_or s (\<lambda>b. let (l1, l5, l15) = parseLoadAvg b in
         s\<lparr>y_Load1 := l1, y_Load5 := l5, y_Load15 := l15\<rparr>)
       (read_file h procLoadAvg)"

definition sys_boot :: "host \<Rightarrow> SysInfo \<Rightarrow> SysInfo" where
  "sys_boot h s = file_or s (\<lambda>b. s\<lparr>y_BootTime := parseBtime b\<rparr>) (read_file h procStat)"

definition sys_kernel :: "host \<Rightarrow> SysInfo \<Rightarrow> SysInfo" where
  "sys_kernel h s =
     (let s1 = file_or s (\<lambda>b. s\<lparr>y_Kernel := TrimSpace b\<rparr>) (read_file h ''/proc/sys/kernel/ostype'');
          s2 = file_or s1 (\<lambda>b. s1\<lparr>y_KernelRelease := TrimSpace b\<rparr>)
                 (read_file h ''/proc/sys/kernel/osrelease'')
      in file_or s2 (\<lambda>b. s2\<lparr>y_KernelVersion := TrimSpace b\<rparr>) (read_file h ''/proc/sys/kernel/version''))"

definition sys_env :: "host \<Rightarrow> SysInfo \<Rightarrow> SysInfo" where
  "sys_env h s =
     s\<lparr>y_Shell := getenv h ''SHELL'', y_Terminal := getenv h ''TERM'',
       y_Locale := firstNonEmpty [getenv h ''LC_ALL'', getenv h ''LC_MESSAGES'', getenv h ''LANG''],
       y_Processes := countProcesses h procRoot\<rparr>"

definition sys_net :: "host \<Rightarrow> SysInfo \<Rightarrow> SysInfo" where
  "sys_net h s =
     file_or s (\<lambda>b. let iface = parseDefaultRoute b in
         if iface \<noteq> [] then
           (let s1 = s\<lparr>y_NetIface := iface\<rparr>
            in file_or s1 (\<lambda>fb. s1\<lparr>y_NetIPv4 := parseIPv4ForIface fb iface\<rparr>)
                 (read_file h procNetIPv4))
         else s)
       (read_file h procNetRoute)"

definition sys_zfs :: "host \<Rightarrow> SysInfo \<Rightarrow> SysInfo" where
  "sys_zfs h s =
     (let s1 = (if stat_ok h zfsDev then s\<lparr>y_ZFSAvailable := True\<rparr> else s)
      in if stat_ok h arcstatsPath then s1\<lparr>y_ARCAvailable := True\<rparr> else s1)"

definition fetchSysInfo :: "host \<Rightarrow> string + SysInfo" where
  "fetchSysInfo h =
     (case ctx_err h of
        Some e \<Rightarrow> Inl (''sysinfo context: '' @ e)
      | None \<Rightarrow>
          Inr (sys_zfs h (sys_net h (sys_env h (sys_kernel h (sys_boot h (sys_load h (sys_dmi h
                (sys_freq h (sys_cpu h (sys_memory h (sys_uptime h (sys_release h (sys_names h
                  (sys_start h)))))))))))))))"

definition sysinfo_failure :: string where
  "sysinfo_failure = ''Failed to gather system information. The host may not expose /proc (non-Linux).''"

definition sysinfo_encode_failure :: string where
  "sysinfo_encode_failure = ''Failed to encode system information.''"

definition produceSysInfo :: "host \<Rightarrow> body \<times> status" where
  "produceSysInfo h =
     (case fetchSysInfo h of
        Inl _ \<Rightarrow> (errBody sysinfo_failure, StatusInternalServerError)
      | Inr s \<Rightarrow>
          (case Marshal (SysInfo_json s) of
             None \<Rightarrow> (errBody sysinfo_encode_failure, StatusInternalServerError)
           | Some b \<Rightarrow> (b, StatusOK)))"

end
