(* ===== verification/GoFloatReal.thy ===== *)
theory GoFloatReal
  imports GoFloat Complex_Main
begin

text \<open>
  The meaning of the integer algorithms of \<open>GoFloat\<close> in the real numbers: rounding is to the
  nearest value of the type, and depends on the quotient only, not on the fraction.
\<close>

section \<open>Powers\<close>

lemma powi_pos [simp]: "0 < (2 :: real) powi e" "0 < (10 :: real) powi e"
  by simp_all

lemma powi_Suc: "(2 :: real) powi (e + 1) = 2 * 2 powi e" "(10 :: real) powi (e + 1) = 10 * 10 powi e"
  by (simp_all add: power_int_add)

lemma powi_nat: "0 \<le> e \<Longrightarrow> (x :: real) powi e = x ^ nat e"
  by (simp add: power_int_def)

lemma powi_neg: "e < 0 \<Longrightarrow> (x :: real) powi e = 1 / x ^ nat (- e)"
  by (simp add: power_int_def power_one_over inverse_eq_divide)

lemma powi_powr: "(2 :: real) powi e = 2 powr e"
  by (rule powr_real_of_int' [symmetric]) simp_all

text \<open>The power of two below a positive number is unique.\<close>

lemma powi_bracket:
  assumes "2 powi k \<le> (x :: real)" "x < 2 powi (k + 1)" shows "\<lfloor>log 2 x\<rfloor> = k"
proof -
  have "0 < x" using assms(1) powi_pos(1) [of k] by linarith
  then show ?thesis
    using assms unfolding powi_powr by (simp add: floor_eq_iff le_log_iff log_less_iff)
qed

lemma powi_log:
  assumes "0 < (x :: real)" shows "2 powi \<lfloor>log 2 x\<rfloor> \<le> x" "x < 2 powi (\<lfloor>log 2 x\<rfloor> + 1)"
  unfolding powi_powr using assms by (simp_all add: powr_le_iff less_powr_iff)

lemma powi_mono: "a \<le> b \<Longrightarrow> (2 :: real) powi a \<le> 2 powi b"
  by (simp add: powi_powr)

section \<open>Fractions\<close>

lemma scaled_frac:
  assumes "scaled p q e = (a, b)" "0 < q"
  shows "0 < b" "real_of_int a / real_of_int b = real_of_int p / real_of_int q / 2 powi e"
    "0 \<le> p \<Longrightarrow> 0 \<le> a"
  using assms by (auto simp: scaled_def powi_nat powi_neg split: if_splits)

lemma int_step: "real_of_int i < real_of_int j \<Longrightarrow> real_of_int i + 1 \<le> real_of_int j"
  by (simp add: int_less_real_le)

lemma ilog2_bracket: "0 < n \<Longrightarrow> 2 powi ilog2 n \<le> real_of_int n \<and> real_of_int n < 2 powi (ilog2 n + 1)"
proof (induction n rule: ilog2.induct)
  case (1 n)
  show ?case
  proof (cases "n < 2")
    case True
    with 1 have "n = 1" by simp
    then show ?thesis by (simp add: ilog2.simps)
  next
    case False
    then have IH: "2 powi ilog2 (n div 2) \<le> real_of_int (n div 2)"
      "real_of_int (n div 2) < 2 powi (ilog2 (n div 2) + 1)"
      using 1 by auto
    have nonneg: "0 \<le> ilog2 k" for k
      by (induction k rule: ilog2.induct) (subst ilog2.simps, simp)
    obtain P where P: "2 powi (ilog2 (n div 2) + 1) = real_of_int P"
    proof
      show "2 powi (ilog2 (n div 2) + 1) = real_of_int (2 ^ nat (ilog2 (n div 2) + 1))"
        using nonneg [of "n div 2"] by (simp add: powi_nat)
    qed
    have "real_of_int (n div 2) + 1 \<le> 2 powi (ilog2 (n div 2) + 1)"
      using IH(2) unfolding P by (rule int_step)
    moreover have "2 * (n div 2) \<le> n" "n < 2 * (n div 2) + 2" by presburger+
    then have "2 * real_of_int (n div 2) \<le> real_of_int n" "real_of_int n < 2 * real_of_int (n div 2) + 2"
      by linarith+
    moreover have "ilog2 n = ilog2 (n div 2) + 1" using False by (subst ilog2.simps) simp
    ultimately show ?thesis using IH(1) by (simp add: power_int_add)
  qed
qed

lemma floor_log_real:
  assumes "0 < p" "0 < q" shows "floor_log p q = \<lfloor>log 2 (real_of_int p / real_of_int q)\<rfloor>"
proof -
  let ?k = "ilog2 p - ilog2 q" and ?x = "real_of_int p / real_of_int q"
  obtain a b where ab: "scaled p q ?k = (a, b)" by fastforce
  note f = scaled_frac [OF ab assms(2)]
  have p: "2 powi ilog2 p \<le> real_of_int p" "real_of_int p < 2 * 2 powi ilog2 p"
    and q: "2 powi ilog2 q \<le> real_of_int q" "real_of_int q < 2 * 2 powi ilog2 q"
    using ilog2_bracket assms by (simp_all add: powi_Suc)
  have k: "2 powi ?k = (2 powi ilog2 p / 2 powi ilog2 q :: real)" by (simp add: power_int_diff)
  have hi: "?x < 2 * 2 powi ?k"
  proof -
    have "?x \<le> real_of_int p / 2 powi ilog2 q" using q assms by (intro divide_left_mono) auto
    also have "\<dots> < 2 * 2 powi ilog2 p / 2 powi ilog2 q" using p by (intro divide_strict_right_mono) auto
    finally show ?thesis by (simp add: k)
  qed
  have lo: "2 powi ?k / 2 < ?x"
  proof -
    have "2 powi ilog2 p / (2 * 2 powi ilog2 q) < 2 powi ilog2 p / real_of_int q"
      using q assms by (intro divide_strict_left_mono) auto
    also have "\<dots> \<le> ?x" using p assms by (intro divide_right_mono) auto
    finally show ?thesis by (simp add: k)
  qed
  have "b \<le> a \<longleftrightarrow> 1 \<le> real_of_int a / real_of_int b" using f(1) by (simp add: le_divide_eq)
  also have "\<dots> \<longleftrightarrow> 2 powi ?k \<le> ?x" unfolding f(2) by (rule le_divide_eq_1_pos) simp
  finally have *: "b \<le> a \<longleftrightarrow> 2 powi ?k \<le> ?x" .
  have half: "(2 :: real) powi (?k - 1) = 2 powi ?k / 2" by (simp add: power_int_diff)
  show ?thesis
  proof (cases "b \<le> a")
    case True
    then have "\<lfloor>log 2 ?x\<rfloor> = ?k" using * hi by (intro powi_bracket) (simp_all add: powi_Suc)
    with True show ?thesis by (simp add: floor_log_def ab Let_def)
  next
    case False
    then have "\<lfloor>log 2 ?x\<rfloor> = ?k - 1" using * lo by (intro powi_bracket) (simp_all add: half)
    with False show ?thesis by (simp add: floor_log_def ab Let_def)
  qed
qed

section \<open>Rounding\<close>

text \<open>To the nearest integer, the even one of two.\<close>

definition rnd :: "real \<Rightarrow> int" where
  "rnd x = (let k = \<lfloor>x\<rfloor>; r = x - real_of_int k in
     if r < 1 / 2 then k else if 1 / 2 < r then k + 1 else if even k then k else k + 1)"

lemma round_even_real:
  assumes "0 < d" shows "round_even n d = rnd (real_of_int n / real_of_int d)"
proof -
  have k: "\<lfloor>real_of_int n / real_of_int d\<rfloor> = n div d" by (rule floor_divide_of_int_eq)
  have "n = d * (n div d) + n mod d" by simp
  then have "real_of_int n = real_of_int d * real_of_int (n div d) + real_of_int (n mod d)"
    by (metis of_int_add of_int_mult)
  then have r: "real_of_int n / real_of_int d - real_of_int (n div d) = real_of_int (n mod d) / real_of_int d"
    using assms by (simp add: field_simps)
  have half: "real_of_int (n mod d) / real_of_int d < 1 / 2 \<longleftrightarrow> 2 * (n mod d) < d"
    "1 / 2 < real_of_int (n mod d) / real_of_int d \<longleftrightarrow> d < 2 * (n mod d)"
    using assms by (simp_all add: divide_less_eq less_divide_eq, linarith+)
  show ?thesis by (simp only: round_even_def rnd_def Let_def k r half)
qed

lemma rnd_near: "\<bar>x - real_of_int (rnd x)\<bar> \<le> 1 / 2"
proof -
  have "real_of_int \<lfloor>x\<rfloor> \<le> x" "x < real_of_int \<lfloor>x\<rfloor> + 1" by linarith+
  moreover have "rnd x = \<lfloor>x\<rfloor> \<and> x - real_of_int \<lfloor>x\<rfloor> \<le> 1 / 2 \<or>
      rnd x = \<lfloor>x\<rfloor> + 1 \<and> 1 / 2 \<le> x - real_of_int \<lfloor>x\<rfloor>"
    unfolding rnd_def Let_def by (simp split: if_split)
  ultimately show ?thesis by (elim disjE conjE) (simp_all add: abs_le_iff)
qed

lemma rnd_unique: "\<bar>x - real_of_int m\<bar> < 1 / 2 \<Longrightarrow> rnd x = m"
proof -
  assume *: "\<bar>x - real_of_int m\<bar> < 1 / 2"
  have "\<bar>real_of_int (rnd x) - real_of_int m\<bar> < 1" using * rnd_near [of x] by linarith
  then show ?thesis by linarith
qed

definition round_real :: "bool \<Rightarrow> real \<Rightarrow> float64" where
  "round_real neg x =
     (if x = 0 then FFin neg 0 (- 1074)
      else let e = max (- 1074) (\<lfloor>log 2 x\<rfloor> - 52);
               m = rnd (x / 2 powi e);
               (m', e') = (if m = 2 ^ 53 then (2 ^ 52, e + 1) else (m, e))
           in if 971 < e' then FInf neg else FFin neg m' e')"

lemma round64_real:
  assumes "0 \<le> p" "0 < q"
  shows "round64 neg p q = round_real neg (real_of_int p / real_of_int q)"
proof (cases "p = 0")
  case False
  let ?e = "max (- 1074) (floor_log p q - 52)"
  obtain a b where ab: "scaled p q ?e = (a, b)" by fastforce
  note f = scaled_frac [OF ab assms(2)]
  have "round_even a b = rnd (real_of_int p / real_of_int q / 2 powi ?e)"
    using round_even_real [OF f(1)] f(2) by simp
  with False assms show ?thesis
    by (simp add: round64_def round_real_def ab floor_log_real [symmetric] Let_def)
qed (simp add: round64_def round_real_def)

section \<open>The values of the type\<close>

definition fcanon :: "int \<Rightarrow> int \<Rightarrow> bool" where
  "fcanon m e \<longleftrightarrow> 0 \<le> m \<and> m < 2 ^ 53 \<and> - 1074 \<le> e \<and> e \<le> 971 \<and> (m < 2 ^ 52 \<longrightarrow> e = - 1074)"

definition is_float64 :: "float64 \<Rightarrow> bool" where
  "is_float64 f \<longleftrightarrow> (case f of FFin _ m e \<Rightarrow> fcanon m e | _ \<Rightarrow> True)"

lemma rnd_mono_int: "real_of_int a \<le> x \<Longrightarrow> a \<le> rnd x" "x \<le> real_of_int b \<Longrightarrow> rnd x \<le> b"
proof -
  have "real_of_int a < real_of_int (rnd x) + 1" if "real_of_int a \<le> x"
    using rnd_near [of x] that by linarith
  then show "real_of_int a \<le> x \<Longrightarrow> a \<le> rnd x" by linarith
  have "real_of_int (rnd x) < real_of_int b + 1" if "x \<le> real_of_int b"
    using rnd_near [of x] that by linarith
  then show "x \<le> real_of_int b \<Longrightarrow> rnd x \<le> b" by linarith
qed

lemma round_real_canon:
  assumes "0 \<le> x" shows "is_float64 (round_real neg x)"
proof (cases "x = 0")
  case True
  then show ?thesis by (simp add: round_real_def is_float64_def fcanon_def)
next
  case False
  with assms have x: "0 < x" by simp
  define L where "L = \<lfloor>log 2 x\<rfloor>"
  define e where "e = max (- 1074) (L - 52)"
  define m where "m = rnd (x / 2 powi e)"
  have L: "2 powi L \<le> x" "x < 2 powi (L + 1)" using powi_log [OF x] by (simp_all add: L_def)
  have "x / 2 powi e \<le> real_of_int (2 ^ 53)"
  proof -
    have "L + 1 \<le> e + 53" by (simp add: e_def max_def)
    from powi_mono [OF this] L(2) have "x \<le> 2 powi (e + 53)" by linarith
    then show ?thesis by (simp add: power_int_add divide_le_eq mult.commute)
  qed
  then have hi: "m \<le> 2 ^ 53" unfolding m_def by (rule rnd_mono_int(2))
  have "0 \<le> m" unfolding m_def using x by (intro rnd_mono_int(1)) simp
  have lo: "2 ^ 52 \<le> m" if "e \<noteq> - 1074"
  proof -
    have "2 powi (e + 52) \<le> x" using that L(1) by (simp add: e_def max_def split: if_splits)
    then have "real_of_int (2 ^ 52) \<le> x / 2 powi e"
      by (simp add: power_int_add le_divide_eq mult.commute)
    then show ?thesis unfolding m_def by (rule rnd_mono_int(1))
  qed
  have "- 1074 \<le> e" by (simp add: e_def)
  moreover have "round_real neg x =
      (case (if m = 2 ^ 53 then (2 ^ 52, e + 1) else (m, e)) of (m', e') \<Rightarrow>
         if 971 < e' then FInf neg else FFin neg m' e')"
    using False by (simp only: round_real_def Let_def m_def e_def L_def if_False)
  ultimately show ?thesis
    using hi lo \<open>0 \<le> m\<close> by (cases "m = 2 ^ 53"; cases "e = - 1074") (auto simp: is_float64_def fcanon_def)
qed

text \<open>A real number near enough to a value is rounded to it.\<close>

lemma round_real_near:
  assumes c: "fcanon m e" and m: "0 < m" and x: "0 < x"
    and near: "\<bar>x - real_of_int m * 2 powi e\<bar> < 2 powi e / 2"
    and low: "m = 2 ^ 52 \<Longrightarrow> real_of_int m * 2 powi e - x < 2 powi e / 4"
  shows "round_real neg x = FFin neg m e"
proof -
  define u where "u = (2 :: real) powi e"
  define y where "y = x / u"
  have u: "0 < u" by (simp add: u_def)
  have xy: "x = y * u" using u by (simp add: y_def)
  have near': "\<bar>y - real_of_int m\<bar> < 1 / 2"
  proof -
    have "x - real_of_int m * u = (y - real_of_int m) * u" by (simp add: xy left_diff_distrib)
    then have "\<bar>y - real_of_int m\<bar> * u < 1 / 2 * u" using near u by (simp add: u_def [symmetric] abs_mult)
    then show ?thesis using u by simp
  qed
  have low': "real_of_int m - y < 1 / 4" if "m = 2 ^ 52"
  proof -
    have "(real_of_int m - y) * u < 1 / 4 * u" using low [OF that] by (simp add: u_def [symmetric] xy left_diff_distrib)
    then show ?thesis using u by simp
  qed
  have m53: "real_of_int m \<le> 2 ^ 53 - 1" "e \<le> 971" "- 1074 \<le> e"
    using c by (simp_all add: fcanon_def)
  have pow: "(2 :: real) powi (e + 52) = 2 ^ 52 * u" "(2 :: real) powi (e + 53) = 2 ^ 53 * u"
    "(2 :: real) powi (e + 51) = 2 ^ 51 * u" "(2 :: real) powi (e - 1) = u / 2"
    by (simp_all add: u_def power_int_add power_int_diff)
  have same: "round_real neg x = FFin neg m e" if "max (- 1074) (\<lfloor>log 2 x\<rfloor> - 52) = e"
  proof -
    have "rnd (x / 2 powi e) = m" using rnd_unique [OF near'] by (simp add: y_def u_def)
    moreover have "m \<noteq> 2 ^ 53" using c by (simp add: fcanon_def)
    ultimately show ?thesis using x m53(2) by (simp add: round_real_def that)
  qed
  have top: "x < 2 powi (e + 53)"
  proof -
    have "y < 2 ^ 53" using near' m53(1) by linarith
    then show ?thesis using u by (simp add: pow xy)
  qed
  show ?thesis
  proof (cases "2 powi (e + 52) \<le> x")
    case True
    then have "\<lfloor>log 2 x\<rfloor> = e + 52" using top by (intro powi_bracket) (simp_all add: add.commute)
    then show ?thesis using m53(3) by (intro same) simp
  next
    case False
    show ?thesis
    proof (cases "e = - 1074")
      case True
      have "2 powi \<lfloor>log 2 x\<rfloor> < (2 :: real) powi (e + 52)" using powi_log(1) [OF x] False by linarith
      then have "\<lfloor>log 2 x\<rfloor> < e + 52" by (simp add: powi_powr)
      with True have "\<lfloor>log 2 x\<rfloor> - 52 \<le> - 1074" by linarith
      then show ?thesis using True by (intro same) (simp only: max_absorb1)
    next
      case normal: False
      have "2 ^ 52 \<le> m" using c normal by (auto simp: fcanon_def not_less)
      then have m52: "(2 :: real) ^ 52 \<le> real_of_int m" by (metis numeral_power_le_of_int_cancel_iff)
      have y52: "y < 2 ^ 52" using False u by (simp add: pow xy)
      have "real_of_int m < 2 ^ 52 + 1" using near' y52 by linarith
      then have "real_of_int m < real_of_int (2 ^ 52 + 1)" by simp
      then have "m < 2 ^ 52 + 1" by (rule of_int_less_iff [THEN iffD1])
      with \<open>2 ^ 52 \<le> m\<close> have m': "m = 2 ^ 52" by simp
      have y: "2 ^ 52 - 1 / 4 < y" using low' [OF m'] m52 by linarith
      have "2 ^ 51 * u \<le> x"
        unfolding xy by (rule mult_right_mono) (use y u in simp_all)
      then have "2 powi (e + 51) \<le> x" by (simp only: pow)
      moreover have "x < 2 powi (e + 51 + 1)" using False by (simp add: add.commute not_le)
      ultimately have "\<lfloor>log 2 x\<rfloor> = e + 51" by (rule powi_bracket)
      then have e: "max (- 1074) (\<lfloor>log 2 x\<rfloor> - 52) = e - 1" using normal m53(3) by simp
      have "rnd (x / 2 powi (e - 1)) = 2 ^ 53"
        by (rule rnd_unique) (use y y52 u in \<open>simp add: pow xy abs_less_iff\<close>)
      then show ?thesis using x m53(2) m' unfolding round_real_def e by simp
    qed
  qed
qed

end
