(* ===== verification/GoFloatText.thy ===== *)
theory GoFloatText
  imports GoFloatReal GoJsonRound
begin

text \<open>
  The shortest decimal of a finite \<open>float64\<close>: it exists, seventeen digits being enough, it is
  a JSON number, and \<open>ParseFloat\<close> reads it as the value it was written from.
\<close>

section \<open>Powers of ten\<close>

lemma dec_up_bracket:
  "0 < n \<Longrightarrow> 0 \<le> dec_up n \<and> (10 :: real) powi dec_up n \<le> real_of_int n \<and>
     real_of_int n + 1 \<le> 10 powi (dec_up n + 1)"
proof (induction n rule: dec_up.induct)
  case (1 n)
  show ?case
  proof (cases "n < 10")
    case True
    then have "real_of_int n \<le> 9" by linarith
    moreover have "1 \<le> real_of_int n" using 1(2) by linarith
    ultimately show ?thesis using True by (simp add: dec_up.simps)
  next
    case False
    then have IH: "0 \<le> dec_up (n div 10)" "(10 :: real) powi dec_up (n div 10) \<le> real_of_int (n div 10)"
      "real_of_int (n div 10) + 1 \<le> 10 powi (dec_up (n div 10) + 1)"
      using 1 by auto
    have "10 * (n div 10) \<le> n" "n + 1 \<le> 10 * (n div 10 + 1)" by presburger+
    then have "real_of_int (10 * (n div 10)) \<le> real_of_int n"
      "real_of_int (n + 1) \<le> real_of_int (10 * (n div 10 + 1))"
      by (simp_all only: of_int_le_iff)
    then have "10 * real_of_int (n div 10) \<le> real_of_int n"
      "real_of_int n + 1 \<le> 10 * (real_of_int (n div 10) + 1)"
      by simp_all
    moreover have "dec_up n = dec_up (n div 10) + 1" using False by (subst dec_up.simps) simp
    ultimately show ?thesis using IH by (simp add: power_int_add)
  qed
qed

lemma dec_down_bracket:
  "0 < p \<Longrightarrow> 0 < q \<Longrightarrow> p < 10 * q \<Longrightarrow>
   (10 :: real) powi dec_down p q \<le> real_of_int p / real_of_int q \<and>
   real_of_int p / real_of_int q < 10 powi (dec_down p q + 1)"
proof (induction p q rule: dec_down.induct)
  case (1 p q)
  show ?case
  proof (cases "q \<le> p")
    case True
    moreover have "real_of_int p < 10 * real_of_int q" using 1(4) by linarith
    ultimately show ?thesis
      using 1 by (simp add: dec_down.simps [of p q] divide_less_eq le_divide_eq)
  next
    case False
    have "(10 :: real) powi dec_down (10 * p) q \<le> real_of_int (10 * p) / real_of_int q \<and>
        real_of_int (10 * p) / real_of_int q < 10 powi (dec_down (10 * p) q + 1)"
      using False 1 by (intro "1.IH") auto
    moreover have "dec_down p q = dec_down (10 * p) q - 1"
      using False 1(2) by (subst dec_down.simps) simp
    then have "(10 :: real) powi dec_down p q = 10 powi dec_down (10 * p) q / 10"
      "(10 :: real) powi (dec_down (10 * p) q + 1) = 10 * 10 powi dec_down (10 * p) q"
      "(10 :: real) powi (dec_down p q + 1) = 10 powi dec_down (10 * p) q"
      by (simp_all add: power_int_diff power_int_add)
    moreover have "real_of_int (10 * p) / real_of_int q = 10 * (real_of_int p / real_of_int q)" by simp
    ultimately show ?thesis by linarith
  qed
qed

lemma dec_log_bracket:
  assumes "0 < p" "0 < q"
  shows "(10 :: real) powi dec_log p q \<le> real_of_int p / real_of_int q"
    "real_of_int p / real_of_int q < 10 powi (dec_log p q + 1)"
proof -
  have "(10 :: real) powi dec_log p q \<le> real_of_int p / real_of_int q \<and>
    real_of_int p / real_of_int q < 10 powi (dec_log p q + 1)"
  proof (cases "q \<le> p")
    case True
    then have "0 < p div q" using assms by (simp add: pos_imp_zdiv_pos_iff)
    note b = dec_up_bracket [OF this]
    have "real_of_int (p div q) \<le> real_of_int p / real_of_int q"
      "real_of_int p / real_of_int q < real_of_int (p div q) + 1"
      using floor_correct [of "real_of_int p / real_of_int q"] by (simp_all add: floor_divide_of_int_eq)
    with b True show ?thesis by (simp add: dec_log_def)
  next
    case False
    then show ?thesis using dec_down_bracket [of p q] assms by (simp add: dec_log_def)
  qed
  then show "(10 :: real) powi dec_log p q \<le> real_of_int p / real_of_int q"
    "real_of_int p / real_of_int q < 10 powi (dec_log p q + 1)" by blast+
qed

section \<open>Seventeen digits\<close>

lemma exact_frac_real:
  "exact_frac m e = (p, q) \<Longrightarrow> 0 < q \<and> real_of_int p / real_of_int q = real_of_int m * 2 powi e"
  by (auto simp: exact_frac_def powi_nat powi_neg split: if_splits)

lemma dec_frac_real:
  "dec_frac d k = (p, q) \<Longrightarrow> 0 < q \<and> real_of_int p / real_of_int q = real_of_int d * 10 powi k"
  by (auto simp: dec_frac_def powi_nat powi_neg split: if_splits)

lemma reads_as_real:
  assumes "0 \<le> d" shows "reads_as m e (d, k) \<longleftrightarrow> round_real False (real_of_int d * 10 powi k) = FFin False m e"
proof -
  obtain p q where pq: "dec_frac d k = (p, q)" by fastforce
  then have "0 \<le> p" using assms by (auto simp: dec_frac_def split: if_splits)
  with dec_frac_real [OF pq] show ?thesis by (simp add: reads_as_def pq round64_real)
qed

lemma digits_at_eq:
  assumes "exact_frac m e = (p, q)" and "K = dec_log p q - int n + 1"
    and "(if 0 \<le> K then (p, q * 10 ^ nat K) else (p * 10 ^ nat (- K), q)) = (a, b)"
  shows "digits_at m e n =
    (let near = round_even a b; far = (if near = a div b then a div b + 1 else a div b) in
     if reads_as m e (near, K) then Some (near, K)
     else if reads_as m e (far, K) then Some (far, K) else None)"
  by (simp only: digits_at_def Let_def prod.case assms(1) assms(2) [symmetric] assms(3))

lemma digits_at_SomeD:
  assumes "digits_at m e n = Some (d, k)" "0 < m" "0 < n"
  shows "reads_as m e (d, k)" "0 < d"
proof -
  obtain p q where pq: "exact_frac m e = (p, q)" by fastforce
  note x = exact_frac_real [OF pq]
  have p: "0 < p" using pq assms(2) by (auto simp: exact_frac_def split: if_splits)
  define K where "K = dec_log p q - int n + 1"
  obtain a b where ab: "(if 0 \<le> K then (p, q * 10 ^ nat K) else (p * 10 ^ nat (- K), q)) = (a, b)"
    by fastforce
  have b: "0 < b" using ab x by (auto split: if_splits)
  have frac: "real_of_int a / real_of_int b = real_of_int p / real_of_int q / 10 powi K"
    using ab by (auto simp: powi_nat powi_neg split: if_splits)
  have "(10 :: real) powi (dec_log p q) = 10 powi (int n - 1) * 10 powi K"
    by (simp add: K_def power_int_diff power_int_add)
  moreover have "1 \<le> (10 :: real) powi (int n - 1)" using assms(3) by (simp add: powi_nat)
  ultimately have "(10 :: real) powi K \<le> 10 powi (dec_log p q)" by simp
  then have "(10 :: real) powi K \<le> real_of_int p / real_of_int q"
    using dec_log_bracket(1) [OF p, of q] x by linarith
  then have "1 \<le> real_of_int a / real_of_int b" unfolding frac by (subst le_divide_eq_1_pos) simp_all
  then have "b \<le> a" using b by (simp add: le_divide_eq)
  then have lo: "1 \<le> a div b" using b by (simp add: zdiv_mono1 [of b a b, simplified] pos_imp_zdiv_pos_iff)
  moreover have "a div b \<le> round_even a b" by (simp add: round_even_def Let_def)
  ultimately show "reads_as m e (d, k)" "0 < d"
    using assms(1) unfolding digits_at_eq [OF pq K_def ab] Let_def by (auto split: if_splits)
qed

text \<open>With seventeen digits the nearest decimal is near enough.\<close>

lemma digits_at_17:
  assumes c: "fcanon m e" and m: "0 < m" shows "digits_at m e 17 \<noteq> None"
proof -
  obtain p q where pq: "exact_frac m e = (p, q)" by fastforce
  define x where "x = real_of_int m * 2 powi e"
  have x: "0 < q" "real_of_int p / real_of_int q = x" using exact_frac_real [OF pq] by (simp_all add: x_def)
  have p: "0 < p" using pq m by (auto simp: exact_frac_def split: if_splits)
  define K where "K = dec_log p q - int 17 + 1"
  obtain a b where ab: "(if 0 \<le> K then (p, q * 10 ^ nat K) else (p * 10 ^ nat (- K), q)) = (a, b)"
    by fastforce
  have b: "0 < b" using ab x by (auto split: if_splits)
  have frac: "real_of_int a / real_of_int b = x / 10 powi K"
    using ab x(2) by (auto simp: powi_nat powi_neg split: if_splits)
  define d where "d = round_even a b"
  define t where "t = (10 :: real) powi K"
  have t: "0 < t" by (simp add: t_def)
  have "10 ^ 16 * t = 10 powi (dec_log p q)" by (simp add: t_def K_def power_int_diff power_int_add)
  then have tx: "10000000000000000 * t \<le> x" using dec_log_bracket(1) [OF p x(1)] x(2) by simp
  have d: "\<bar>x / t - real_of_int d\<bar> \<le> 1 / 2"
    using rnd_near [of "x / t"] by (simp add: d_def round_even_real [OF b] frac t_def)
  have "\<bar>x - real_of_int d * t\<bar> \<le> t / 2"
  proof -
    have "x - real_of_int d * t = (x / t - real_of_int d) * t" using t by (simp add: left_diff_distrib)
    then have "\<bar>x - real_of_int d * t\<bar> = \<bar>x / t - real_of_int d\<bar> * t" using t by (simp add: abs_mult)
    also have "\<dots> \<le> 1 / 2 * t" using d t by (intro mult_right_mono) auto
    finally show ?thesis by simp
  qed
  then have near: "\<bar>real_of_int d * t - x\<bar> \<le> t / 2" by (simp add: abs_minus_commute)
  have u: "0 < (2 :: real) powi e" by simp
  have dpos: "0 < real_of_int d * t" using near tx t by linarith
  have "real_of_int m \<le> 9007199254740992" using c by (simp add: fcanon_def)
  then have "x \<le> 9007199254740992 * 2 powi e" unfolding x_def by (rule mult_right_mono) simp
  then have half: "t / 2 < 2 powi e / 2" using tx u by linarith
  have quarter: "t / 2 < 2 powi e / 4" if "m = 2 ^ 52"
  proof -
    have "x = 4503599627370496 * 2 powi e" using that by (simp add: x_def)
    then show ?thesis using tx u by linarith
  qed
  have "round_real False (real_of_int d * t) = FFin False m e"
  proof (rule round_real_near [OF c m dpos])
    show "\<bar>real_of_int d * t - real_of_int m * 2 powi e\<bar> < 2 powi e / 2"
      using near half by (simp add: x_def)
    show "real_of_int m * 2 powi e - real_of_int d * t < 2 powi e / 4" if "m = 2 ^ 52"
      using near quarter [OF that] unfolding x_def [symmetric] by linarith
  qed
  moreover have "0 \<le> d" using dpos t by (simp add: zero_less_mult_iff)
  ultimately have "reads_as m e (d, K)" by (simp add: reads_as_real t_def)
  then show ?thesis
    unfolding digits_at_eq [OF pq K_def ab] d_def [symmetric] Let_def by simp
qed

lemma shortest_from_None:
  "shortest_from m e n j = None \<Longrightarrow> i < j \<Longrightarrow> digits_at m e (n + i) = None"
proof (induction j arbitrary: n i)
  case (Suc j)
  show ?case
  proof (cases i)
    case (Suc i')
    then have "digits_at m e (Suc n + i') = None"
      using Suc.prems by (intro Suc.IH) (auto split: option.splits)
    then show ?thesis by (simp add: \<open>i = Suc i'\<close>)
  qed (use Suc.prems in \<open>auto split: option.splits\<close>)
qed simp

lemma shortest_exists: "fcanon m e \<Longrightarrow> 0 < m \<Longrightarrow> shortest m e \<noteq> None"
  using shortest_from_None [of m e 1 17 16] digits_at_17 [of m e] unfolding shortest_def by force

lemma shortest_from_Some:
  "shortest_from m e n j = Some (d, k) \<Longrightarrow> \<exists>i \<ge> n. digits_at m e i = Some (d, k)"
proof (induction j arbitrary: n)
  case (Suc j)
  show ?case
  proof (cases "digits_at m e n")
    case None
    with Suc.prems obtain i where "Suc n \<le> i" "digits_at m e i = Some (d, k)"
      using Suc.IH [of "Suc n"] by auto
    then show ?thesis by (intro exI [of _ i]) simp
  qed (use Suc.prems in auto)
qed simp

lemma shortest_reads:
  assumes "shortest m e = Some (d, k)" "0 < m" shows "reads_as m e (d, k)" "0 < d"
proof -
  obtain i where "1 \<le> i" "digits_at m e i = Some (d, k)"
    using shortest_from_Some [of m e 1 17 d k] assms(1) by (auto simp: shortest_def)
  then show "reads_as m e (d, k)" "0 < d" using digits_at_SomeD [OF _ assms(2)] by auto
qed

section \<open>Reading a decimal text\<close>

definition dig :: "char \<Rightarrow> int" where
  "dig c = of_char c - 48"

definition dval :: "int \<Rightarrow> string \<Rightarrow> int" where
  "dval m ds = fold (\<lambda>c m. 10 * m + dig c) ds m"

lemma dval_simps [simp]: "dval m [] = m" "dval m (c # ds) = dval (10 * m + dig c) ds"
  by (simp_all add: dval_def)

lemma dval_append: "dval m (a @ b) = dval (dval m a) b"
  by (simp add: dval_def)

definition digits :: "string \<Rightarrow> bool" where
  "digits ds \<longleftrightarrow> (\<forall>c \<in> set ds. is_digit c)"

lemma digits_simps [simp]: "digits []" "digits (c # ds) \<longleftrightarrow> is_digit c \<and> digits ds"
  "digits (a @ b) \<longleftrightarrow> digits a \<and> digits b"
  by (auto simp: digits_def)

lemma is_digit_range: "is_digit c \<longleftrightarrow> 48 \<le> (of_char c :: nat) \<and> (of_char c :: nat) \<le> 57"
  by (auto simp: is_digit_def digit_val_def Let_def)

lemma of_char_int: "(of_char c :: int) = int (of_char c)"
  by (simp add: of_char_def)

lemma float_digit_digit: "is_digit c \<Longrightarrow> float_digit False c = Some (dig c) \<and> 0 \<le> dig c \<and> dig c \<le> 9"
  by (auto simp: is_digit_range float_digit_def dig_def of_char_int Let_def)

lemma dval_mono: "digits ds \<Longrightarrow> 0 \<le> m \<Longrightarrow> m \<le> dval m ds"
proof (induction ds arbitrary: m)
  case (Cons c ds)
  then have "0 \<le> dig c" using float_digit_digit by simp
  then have "10 * m + dig c \<le> dval (10 * m + dig c) ds" using Cons by (intro Cons.IH) auto
  with \<open>0 \<le> dig c\<close> Cons.prems(2) show ?case by simp
qed simp

lemma scan_mant_digits:
  "digits ds \<Longrightarrow> scan_mant False dot (sd, m, f) (ds @ r) =
     scan_mant False dot (sd \<or> ds \<noteq> [], dval m ds, if dot then f + length ds else f) r"
proof (induction ds arbitrary: sd m f)
  case (Cons c ds)
  then have d: "float_digit False c = Some (dig c)" using float_digit_digit by simp
  have "c \<noteq> CHR ''_''" "c \<noteq> CHR ''.''" using Cons.prems by (auto simp: is_digit_range)
  with d Cons show ?case by simp
qed simp

lemma scan_exp_digits: "digits ds \<Longrightarrow> 0 \<le> e \<Longrightarrow> dval e ds < 10000 \<Longrightarrow> scan_exp e ds = (dval e ds, [])"
proof (induction ds arbitrary: e)
  case (Cons c ds)
  then have d: "float_digit False c = Some (dig c)" "0 \<le> dig c" using float_digit_digit by simp_all
  have "c \<noteq> CHR ''_''" using Cons.prems by (auto simp: is_digit_range)
  moreover have "e \<le> dval e (c # ds)" using Cons.prems by (intro dval_mono) auto
  then have "e < 10000" using Cons.prems by simp
  ultimately show ?case using d Cons by simp
qed simp

lemma digits_show: "digits (show_nat n)"
  using show_nat_all_digits by (simp add: digits_def)

lemma digits_from_dval: "digits_from n ds = Some k \<Longrightarrow> dval (int n) ds = int k"
proof (induction ds arbitrary: n)
  case (Cons c ds)
  then obtain d where d: "digit_val c = Some d" "digits_from (10 * n + d) ds = Some k"
    by (auto split: option.splits)
  then have "dig c = int d" by (auto simp: digit_val_def dig_def of_char_int Let_def split: if_splits)
  with Cons.IH [OF d(2)] show ?case by simp
qed simp

lemma dval_show: "dval 0 (show_nat n) = int n"
  using digits_from_dval [OF digits_from_show, of n] by simp

text \<open>A decimal text: digits, digits after the point, an exponent.\<close>

definition dec_text :: "string \<Rightarrow> string \<Rightarrow> int option \<Rightarrow> string" where
  "dec_text ip fs ex =
     ip @ (if fs = [] then [] else CHR ''.'' # fs) @
     (case ex of None \<Rightarrow> [] | Some x \<Rightarrow> (if x < 0 then ''e-'' else ''e+'') @ show_nat (nat \<bar>x\<bar>))"

definition dec_ok :: "string \<Rightarrow> string \<Rightarrow> int option \<Rightarrow> bool" where
  "dec_ok ip fs ex \<longleftrightarrow> ip \<noteq> [] \<and> digits ip \<and> digits fs \<and> (\<forall>x. ex = Some x \<longrightarrow> \<bar>x\<bar> < 10000)"

definition ex_val :: "int option \<Rightarrow> int" where
  "ex_val ex = (case ex of None \<Rightarrow> 0 | Some x \<Rightarrow> x)"

lemma exponent_text:
  assumes "\<bar>x\<bar> < 10000"
  shows "exponent ((if x < 0 then ''-'' else ''+'') @ show_nat (nat \<bar>x\<bar>)) = Some (x, [])"
proof -
  obtain d ds where d: "show_nat (nat \<bar>x\<bar>) = d # ds" by (cases "show_nat (nat \<bar>x\<bar>)") auto
  have "digits (d # ds)" using digits_show [of "nat \<bar>x\<bar>"] d by simp
  moreover have "dval 0 (d # ds) = \<bar>x\<bar>" using dval_show [of "nat \<bar>x\<bar>"] d by simp
  ultimately have "scan_exp 0 (d # ds) = (\<bar>x\<bar>, [])" using scan_exp_digits [of "d # ds" 0] assms by simp
  moreover have "float_digit False d \<noteq> None" using \<open>digits (d # ds)\<close> float_digit_digit by simp
  ultimately show ?thesis by (auto simp: exponent_def sign_split_def d simp del: scan_exp.simps)
qed

lemma dec_text_chars:
  assumes "dec_ok ip fs ex"
  shows "CHR ''_'' \<notin> set (dec_text ip fs ex)" "sign_split (dec_text ip fs ex) = (False, dec_text ip fs ex)"
    "base_prefix (dec_text ip fs ex) = None" "special_float (dec_text ip fs ex) = None"
proof -
  obtain c cs where ip: "ip = c # cs" "is_digit c" "digits cs" "digits fs"
    using assms by (cases ip) (auto simp: dec_ok_def)
  have digit: "CHR ''_'' \<notin> set ds" if "digits ds" for ds
    using that by (auto simp: digits_def is_digit_range)
  show "CHR ''_'' \<notin> set (dec_text ip fs ex)"
    using digit [of ip] digit [of fs] digit [OF digits_show] ip
    by (auto simp: dec_text_def split: option.split)
  have c: "c \<noteq> CHR ''-''" "c \<noteq> CHR ''+''" "ascii_lower c = c" "c \<noteq> CHR ''i''" "c \<noteq> CHR ''n''"
    using ip(2) by (auto simp: is_digit_range ascii_lower_def Let_def)
  obtain r where r: "dec_text ip fs ex = c # r" by (simp add: dec_text_def ip(1))
  show sgn: "sign_split (dec_text ip fs ex) = (False, dec_text ip fs ex)"
    using c by (simp add: r sign_split_def)
  show "special_float (dec_text ip fs ex) = None"
    using c by (simp add: special_float_def sgn Let_def) (simp add: r)
  have "ascii_lower d = d" if "is_digit d" for d
    using that by (auto simp: is_digit_range ascii_lower_def Let_def)
  moreover have "d \<notin> {CHR ''b'', CHR ''o'', CHR ''x''}" if "is_digit d" for d
    using that by (auto simp: is_digit_range)
  ultimately have other: "ascii_lower d \<notin> {CHR ''b'', CHR ''o'', CHR ''x''}" if "is_digit d" for d
    using that by simp
  show "base_prefix (dec_text ip fs ex) = None"
  proof (cases cs)
    case Nil
    then show ?thesis
      by (auto simp: base_prefix_def dec_text_def ip(1) ascii_lower_def Let_def split: option.split)
  next
    case (Cons d ds)
    then show ?thesis using other [of d] ip by (simp add: base_prefix_def dec_text_def)
  qed
qed

lemma readFloat_text:
  assumes "dec_ok ip fs ex"
  obtains p q where "readFloat (dec_text ip fs ex) = Some (False, p, q)"
    "readFloat (CHR ''-'' # dec_text ip fs ex) = Some (True, p, q)" "0 \<le> p" "0 < q"
    "real_of_int p / real_of_int q =
       real_of_int (dval 0 (ip @ fs)) * 10 powi (ex_val ex - int (length fs))"
proof -
  let ?t = "dec_text ip fs ex" and ?m = "dval 0 (ip @ fs)"
  note ok = assms [unfolded dec_ok_def]
  define tail where "tail = (case ex of None \<Rightarrow> [] | Some x \<Rightarrow>
    CHR ''e'' # (if x < 0 then ''-'' else ''+'') @ show_nat (nat \<bar>x\<bar>))"
  have t: "?t = ip @ (if fs = [] then [] else CHR ''.'' # fs) @ tail"
    by (simp add: dec_text_def tail_def split: option.split)
  have stop: "scan_mant False dot st tail = (st, tail)" for dot st
    by (cases ex) (auto simp: tail_def float_digit_def Let_def)
  have scan: "scan_mant False False (False, 0, 0) ?t = ((True, ?m, length fs), tail)"
    using ok scan_mant_digits [of ip False False 0 0] scan_mant_digits [of fs True True "dval 0 ip" 0 tail]
    by (auto simp: t stop dval_append)
  have e: "(case tail of [] \<Rightarrow> Some (0, []) | c # cs \<Rightarrow>
      if ascii_lower c = CHR ''e'' then exponent cs else Some (0, tail)) = Some (ex_val ex, [])"
    using ok exponent_text by (auto simp: tail_def ex_val_def ascii_lower_def Let_def split: option.split)
  define p where "p = (if 0 \<le> ex_val ex then ?m * 10 ^ nat (ex_val ex) else ?m)"
  define q where "q = (if 0 \<le> ex_val ex then 10 ^ length fs
    else 10 ^ length fs * 10 ^ nat (- ex_val ex) :: int)"
  have "readFloat ?t = Some (False, p, q)"
    using dec_text_chars [OF assms] scan e
    by (simp add: readFloat_def p_def q_def Let_def split: if_split)
  moreover have "readFloat (CHR ''-'' # ?t) = Some (True, p, q)"
    using dec_text_chars [OF assms] scan e
    by (simp add: readFloat_def sign_split_def [of "_ # _"] p_def q_def Let_def split: if_split)
  moreover have "0 \<le> ?m" using ok by (intro dval_mono) auto
  then have "0 \<le> p" by (simp add: p_def)
  moreover have "0 < q" by (simp add: q_def)
  moreover have "real_of_int p / real_of_int q = real_of_int ?m * 10 powi (ex_val ex - int (length fs))"
    by (simp add: p_def q_def power_int_diff powi_nat powi_neg)
  ultimately show thesis by (rule that)
qed

lemma round_real_sign: "round_real False x = FFin False m e \<Longrightarrow> round_real True x = FFin True m e"
  by (auto simp: round_real_def Let_def split: if_splits)

text \<open>So a decimal text is parsed as its value, correctly rounded.\<close>

lemma ParseFloat_text:
  assumes "dec_ok ip fs ex"
    and "round_real False (real_of_int (dval 0 (ip @ fs)) * 10 powi (ex_val ex - int (length fs))) = FFin False m e"
  shows "ParseFloat (dec_text ip fs ex) = (FFin False m e, True)"
    "ParseFloat (CHR ''-'' # dec_text ip fs ex) = (FFin True m e, True)"
proof -
  obtain p q where pq: "readFloat (dec_text ip fs ex) = Some (False, p, q)"
    "readFloat (CHR ''-'' # dec_text ip fs ex) = Some (True, p, q)" "0 \<le> p" "0 < q"
    "real_of_int p / real_of_int q =
       real_of_int (dval 0 (ip @ fs)) * 10 powi (ex_val ex - int (length fs))"
    using readFloat_text [OF assms(1)] by blast
  have r: "round64 False p q = FFin False m e" "round64 True p q = FFin True m e"
    using pq assms(2) by (simp_all add: round64_real round_real_sign)
  show "ParseFloat (dec_text ip fs ex) = (FFin False m e, True)"
    using dec_text_chars [OF assms(1)] pq(1) r by (simp add: ParseFloat_def)
  have "special_float (CHR ''-'' # dec_text ip fs ex) = None"
    using dec_text_chars(2,4) [OF assms(1)]
    by (auto simp: special_float_def sign_split_def [of "_ # _"] ascii_lower_def Let_def split: if_splits)
  then show "ParseFloat (CHR ''-'' # dec_text ip fs ex) = (FFin True m e, True)"
    using pq(2) r by (simp add: ParseFloat_def)
qed

section \<open>The text of a value\<close>

text \<open>The digits that JSON writes, without the zeros at their end.\<close>

lemma dval_zeros: "dval m (replicate n (CHR ''0'')) = m * 10 ^ n"
  by (induction n arbitrary: m) (simp_all add: dig_def)

lemma drop_zeros_split:
  assumes "0 < dval 0 full"
  obtains n where "full = drop_zeros full @ replicate n (CHR ''0'')" "drop_zeros full \<noteq> []"
proof -
  let ?z = "\<lambda>c. c = CHR ''0''"
  let ?t = "rev (dropWhile ?z (rev full))"
  have split: "full = ?t @ rev (takeWhile ?z (rev full))"
    by (metis rev_append rev_rev_ident takeWhile_dropWhile_id)
  have "takeWhile ?z (rev full) = replicate (length (takeWhile ?z (rev full))) (CHR ''0'')"
    by (intro replicate_eqI) (auto dest: set_takeWhileD)
  then obtain n where n: "full = ?t @ replicate n (CHR ''0'')" using split by (metis rev_replicate)
  have "?t \<noteq> []"
  proof
    assume "?t = []"
    with n have "full = replicate n (CHR ''0'')" by simp
    with assms show False by (simp add: dval_zeros [of 0])
  qed
  then have "drop_zeros full = ?t" by (cases ?t) (simp_all add: drop_zeros_def)
  with n \<open>?t \<noteq> []\<close> show thesis by (intro that [of n]) simp_all
qed

text \<open>The layouts are decimal texts.\<close>

definition json_int :: "string \<Rightarrow> bool" where
  "json_int ip \<longleftrightarrow> ip = ''0'' \<or> hd ip \<noteq> CHR ''0''"

lemma format_f_text:
  assumes "ds \<noteq> []" "digits ds" "hd ds \<noteq> CHR ''0''"
  obtains ip fs where "format_f ds dp = dec_text ip fs None" "dec_ok ip fs None" "json_int ip"
    "real_of_int (dval 0 (ip @ fs)) * 10 powi (- int (length fs)) =
       real_of_int (dval 0 ds) * 10 powi (dp - int (length ds))"
proof -
  have zeros: "digits (replicate n (CHR ''0''))" for n
    by (simp add: digits_def is_digit_range)
  consider "dp \<le> 0" | "0 < dp" "int (length ds) \<le> dp" | "0 < dp" "dp < int (length ds)" by linarith
  then show thesis
  proof cases
    case 1
    show thesis
    proof (rule that)
      let ?fs = "replicate (nat (- dp)) (CHR ''0'') @ ds"
      show "format_f ds dp = dec_text ''0'' ?fs None" "dec_ok ''0'' ?fs None"
        using 1 assms zeros by (simp_all add: format_f_def dec_text_def dec_ok_def is_digit_range)
      show "json_int ''0''" by (simp add: json_int_def)
      show "real_of_int (dval 0 (''0'' @ ?fs)) * 10 powi (- int (length ?fs)) =
          real_of_int (dval 0 ds) * 10 powi (dp - int (length ds))"
        using 1 by (simp add: dval_append dval_zeros dig_def)
    qed
  next
    case 2
    show thesis
    proof (rule that)
      let ?ip = "ds @ replicate (nat dp - length ds) (CHR ''0'')"
      show "format_f ds dp = dec_text ?ip [] None" "dec_ok ?ip [] None"
        using 2 assms zeros by (simp_all add: format_f_def dec_text_def dec_ok_def)
      show "json_int ?ip" using assms by (simp add: json_int_def)
      show "real_of_int (dval 0 (?ip @ [])) * 10 powi (- int (length ([] :: string))) =
          real_of_int (dval 0 ds) * 10 powi (dp - int (length ds))"
        using 2 by (simp add: dval_append dval_zeros powi_nat nat_diff_distrib)
    qed
  next
    case 3
    show thesis
    proof (rule that)
      let ?ip = "take (nat dp) ds" and ?fs = "drop (nat dp) ds"
      show "format_f ds dp = dec_text ?ip ?fs None"
        using 3 by (simp add: format_f_def dec_text_def)
      show "dec_ok ?ip ?fs None"
        using 3 assms by (auto simp: dec_ok_def digits_def dest: in_set_takeD in_set_dropD)
      show "json_int ?ip" using assms 3 by (cases ds) (auto simp: json_int_def take_Cons')
      show "real_of_int (dval 0 (?ip @ ?fs)) * 10 powi (- int (length ?fs)) =
          real_of_int (dval 0 ds) * 10 powi (dp - int (length ds))"
        using 3 by (simp add: of_nat_diff)
    qed
  qed
qed

lemma format_e_text:
  assumes "ds \<noteq> []" "digits ds" "hd ds \<noteq> CHR ''0''" "\<bar>dp - 1\<bar> < 10000"
  obtains ip fs where "format_e ds dp = dec_text ip fs (Some (dp - 1))" "dec_ok ip fs (Some (dp - 1))"
    "json_int ip"
    "real_of_int (dval 0 (ip @ fs)) * 10 powi (dp - 1 - int (length fs)) =
       real_of_int (dval 0 ds) * 10 powi (dp - int (length ds))"
proof (rule that)
  let ?ip = "take 1 ds" and ?fs = "drop 1 ds"
  show "format_e ds dp = dec_text ?ip ?fs (Some (dp - 1))"
    using assms(1) by (cases ds) (auto simp: format_e_def dec_text_def)
  show "dec_ok ?ip ?fs (Some (dp - 1))"
    using assms by (cases ds) (auto simp: dec_ok_def)
  show "json_int ?ip" using assms by (cases ds) (auto simp: json_int_def)
  show "real_of_int (dval 0 (?ip @ ?fs)) * 10 powi (dp - 1 - int (length ?fs)) =
      real_of_int (dval 0 ds) * 10 powi (dp - int (length ds))"
    using assms(1) by (cases ds) (simp_all add: algebra_simps)
qed

section \<open>A JSON number\<close>

definition no_digit :: "string \<Rightarrow> bool" where
  "no_digit r \<longleftrightarrow> (case r of [] \<Rightarrow> True | c # _ \<Rightarrow> \<not> is_digit c)"

lemma digits_prefix_digits: "digits ds \<Longrightarrow> no_digit r \<Longrightarrow> digits_prefix (ds @ r) = (ds, r)"
  by (induction ds) (auto simp: digits_prefix_def no_digit_def split: list.splits)

lemma read_number_text:
  assumes "dec_ok ip fs ex" "json_int ip"
  shows "read_number (dec_text ip fs ex) = Some (dec_text ip fs ex, [])"
    "read_number (CHR ''-'' # dec_text ip fs ex) = Some (CHR ''-'' # dec_text ip fs ex, [])"
proof -
  note ok = assms(1) [unfolded dec_ok_def]
  define et where "et = (case ex of None \<Rightarrow> [] | Some x \<Rightarrow>
    CHR ''e'' # (if x < 0 then ''-'' else ''+'') @ show_nat (nat \<bar>x\<bar>))"
  define ft where "ft = (if fs = [] then [] else CHR ''.'' # fs)"
  have t: "dec_text ip fs ex = ip @ ft @ et"
    by (simp add: dec_text_def et_def ft_def split: option.split)
  obtain c cs where ip: "ip = c # cs" "is_digit c" using ok by (cases ip) auto
  have et: "no_digit et" by (auto simp: et_def no_digit_def is_digit_range split: option.split)
  then have r: "no_digit (ft @ et)" by (simp add: ft_def) (simp add: no_digit_def is_digit_range)
  have "number_int (ip @ ft @ et) = Some (ip, ft @ et)"
  proof (cases "c = CHR ''0''")
    case True
    then have "cs = []" using assms(2) ip by (simp add: json_int_def)
    with True show ?thesis by (simp add: number_int_def ip(1))
  next
    case False
    with ip digits_prefix_digits [OF _ r, of ip] ok show ?thesis by (simp add: number_int_def)
  qed
  moreover have "number_frac (ft @ et) = Some (ft, et)"
  proof (cases "fs = []")
    case True
    then show ?thesis
      by (cases ex) (simp_all add: ft_def et_def number_frac_def)
  next
    case False
    with digits_prefix_digits [OF _ et, of fs] ok show ?thesis by (simp add: ft_def number_frac_def)
  qed
  moreover have "number_exp et = Some (et, [])"
  proof (cases ex)
    case None
    then show ?thesis by (simp add: et_def number_exp_def)
  next
    case (Some x)
    have "digits_prefix (show_nat (nat \<bar>x\<bar>)) = (show_nat (nat \<bar>x\<bar>), [])"
      using digits_prefix_digits [OF digits_show, of "[]" "nat \<bar>x\<bar>"] by (simp add: no_digit_def)
    then show ?thesis by (simp add: et_def Some number_exp_def)
  qed
  moreover have "c \<noteq> CHR ''-''" using ip(2) by (auto simp: is_digit_range)
  ultimately show "read_number (dec_text ip fs ex) = Some (dec_text ip fs ex, [])"
    "read_number (CHR ''-'' # dec_text ip fs ex) = Some (CHR ''-'' # dec_text ip fs ex, [])"
    unfolding t by (simp_all add: read_number_def ip(1))
qed

section \<open>Finite values\<close>

lemma show_nat_bounds: "0 < n \<Longrightarrow> 10 ^ (length (show_nat n) - 1) \<le> n \<and> n < 10 ^ length (show_nat n)"
proof (induction n rule: show_nat.induct)
  case (1 n)
  show ?case
  proof (cases "n < 10")
    case False
    then have IH: "10 ^ (length (show_nat (n div 10)) - 1) \<le> n div 10"
      "n div 10 < 10 ^ length (show_nat (n div 10))"
      using 1 by auto
    have "length (show_nat n) = Suc (length (show_nat (n div 10)))"
      using False by (subst show_nat.simps) simp
    moreover obtain j where "length (show_nat (n div 10)) = Suc j"
      by (cases "show_nat (n div 10)") auto
    moreover have "10 * (n div 10) \<le> n" "n < 10 * (n div 10 + 1)" by presburger+
    ultimately show ?thesis using IH by simp
  qed (use 1 in \<open>simp add: show_nat.simps\<close>)
qed

lemma round_real_range:
  assumes "round_real False v = FFin False m e" "0 < m" "0 < v"
  shows "2 powi (- 1100) \<le> v" "v < 2 powi 1100"
proof -
  define L where "L = \<lfloor>log 2 v\<rfloor>"
  have L: "2 powi L \<le> v" "v < 2 powi (L + 1)" using powi_log [OF assms(3)] by (simp_all add: L_def)
  have "L < 1099"
  proof (rule ccontr)
    assume "\<not> L < 1099"
    define E where "E = max (- 1074) (L - 52)"
    have "971 < E" using \<open>\<not> L < 1099\<close> by (simp add: E_def)
    then have "round_real False v = FInf False"
      using assms(3) unfolding round_real_def Let_def L_def [symmetric] E_def [symmetric] by simp
    with assms(1) show False by simp
  qed
  then have "2 powi (L + 1) \<le> (2 :: real) powi 1100" by (intro powi_mono) simp
  with L(2) show "v < 2 powi 1100" by linarith
  show "2 powi (- 1100) \<le> v"
  proof (rule ccontr)
    assume "\<not> 2 powi (- 1100) \<le> v"
    then have v: "v < 2 powi (- 1100)" by simp
    then have "2 powi L < (2 :: real) powi (- 1100)" using L(1) by linarith
    then have "L < - 1100" by (simp only: powi_powr) simp
    then have e: "max (- 1074) (L - 52) = - 1074" by simp
    have "v < 2 powi (- 1075)" using v powi_mono [of "- 1100" "- 1075"] by linarith
    also have "(2 :: real) powi (- 1075) = 1 / 2 * 2 powi (- 1074)"
      by (simp only: powi_powr) (simp add: powr_minus powr_numeral [symmetric] flip: powr_add)
    finally have "v / 2 powi (- 1074) < 1 / 2" by (subst pos_divide_less_eq) simp_all
    then have "rnd (v / 2 powi (- 1074)) = 0"
      using assms(3) by (intro rnd_unique) (simp add: abs_less_iff)
    then show False using assms by (simp add: round_real_def e L_def [symmetric])
  qed
qed

lemma ten_two:
  "(2 :: real) powi int n \<le> 10 powi int n" "(10 :: real) powi (- int n) \<le> 2 powi (- int n)"
  by (simp_all add: power_int_minus power_mono le_imp_inverse_le)

lemma digits_json_int:
  assumes "0 < n" "full = show_nat n" "full = ds @ replicate j (CHR ''0'')" "ds \<noteq> []"
  shows "hd ds \<noteq> CHR ''0''"
proof
  assume "hd ds = CHR ''0''"
  moreover have "hd (show_nat n) = hd ds" using assms(3,4) unfolding assms(2) by simp
  ultimately show False using show_nat_zero [of n] assms(1) by simp
qed

text \<open>
  Every finite value has a text; the text is a JSON number, and it is parsed as the value.
\<close>

lemma float_text_finite:
  assumes c: "fcanon m e"
  obtains t where "float_text (FFin neg m e) = Some t" "read_number t = Some (t, [])"
    "ParseFloat t = (FFin neg m e, True)"
proof (cases "m = 0")
  case True
  then have e: "e = - 1074" using c by (simp add: fcanon_def)
  have "dec_ok ''0'' [] None" "json_int ''0''" by (simp_all add: dec_ok_def is_digit_range json_int_def)
  moreover have "round_real False (real_of_int (dval 0 (''0'' @ [])) * 10 powi (ex_val None - int (length ([] :: string))))
      = FFin False 0 (- 1074)"
    by (simp add: dig_def round_real_def)
  ultimately show thesis
    using ParseFloat_text [of "''0''" "[]" None 0 "- 1074"] read_number_text [of "''0''" "[]" None]
    by (intro that [of "(if neg then ''-'' else []) @ ''0''"]) (auto simp: True e dec_text_def)
next
  case False
  with c have m: "0 < m" by (simp add: fcanon_def)
  obtain d k where dk: "shortest m e = Some (d, k)" using shortest_exists [OF c m] by fastforce
  note d = shortest_reads [OF dk m]
  define full where "full = show_nat (nat d)"
  define ds where "ds = drop_zeros full"
  define dp where "dp = int (length full) + k"
  have dfull: "dval 0 full = d" using d(2) by (simp add: full_def dval_show)
  obtain n where n: "full = ds @ replicate n (CHR ''0'')" "ds \<noteq> []"
    using drop_zeros_split [of full] dfull d(2) by (auto simp: ds_def)
  have digs: "digits ds" using digits_show [of "nat d"] n(1) by (simp add: full_def [symmetric])
  have hd: "hd ds \<noteq> CHR ''0''" using digits_json_int [OF _ full_def n] d(2) by simp
  define v where "v = real_of_int d * 10 powi k"
  have v: "real_of_int (dval 0 ds) * 10 powi (dp - int (length ds)) = v"
  proof -
    have "d = dval 0 ds * 10 ^ n" using dfull n(1) by (simp add: dval_append dval_zeros)
    moreover have "dp - int (length ds) = int n + k" by (simp add: dp_def n(1))
    ultimately show ?thesis by (simp add: v_def power_int_add)
  qed
  have r: "round_real False v = FFin False m e" using d by (simp add: reads_as_real v_def)
  have vpos: "0 < v" using d(2) by (simp add: v_def)
  have dp: "\<bar>dp - 1\<bar> < 10000"
  proof -
    note range = round_real_range [OF r m vpos]
    have b: "10 ^ (length full - 1) \<le> nat d" "nat d < 10 ^ length full"
      using show_nat_bounds [of "nat d"] d(2) by (simp_all add: full_def)
    have nat: "real (nat d) = real_of_int d" using d(2) by simp
    have "real (10 ^ (length full - 1)) \<le> real_of_int d" "real_of_int d < real (10 ^ length full)"
      unfolding nat [symmetric] using b by (simp_all only: of_nat_le_iff of_nat_less_iff)
    moreover have "0 < length full" by (simp add: n)
    then have "nat (int (length full) - 1) = length full - 1" "0 \<le> int (length full) - 1" by simp_all
    then have "real (10 ^ (length full - 1)) = 10 powi (int (length full) - 1)"
      "real (10 ^ length full) = 10 powi int (length full)"
      by (simp_all only: powi_nat) simp_all
    ultimately have "10 powi (int (length full) - 1) \<le> real_of_int d"
      "real_of_int d < 10 powi int (length full)"
      by (simp_all only:)
    then have "10 powi (int (length full) - 1) * 10 powi k \<le> v" "v < 10 powi int (length full) * 10 powi k"
      by (simp_all add: v_def)
    then have lo: "10 powi (dp - 1) \<le> v" and hi: "v < 10 powi dp"
      by (simp_all add: dp_def power_int_add power_int_diff)
    have big: "(2 :: real) powi 1100 \<le> 10 powi 1100" "(10 :: real) powi (- 1100) \<le> 2 powi (- 1100)"
      using ten_two [of 1100] by (simp_all only: of_nat_numeral)
    have "dp - 1 < 1100"
    proof (rule ccontr)
      assume "\<not> dp - 1 < 1100"
      then have "(10 :: real) powi 1100 \<le> 10 powi (dp - 1)" by (intro power_int_increasing) simp_all
      with lo big(1) range(2) show False by linarith
    qed
    moreover have "- 1100 < dp"
    proof (rule ccontr)
      assume "\<not> - 1100 < dp"
      then have "(10 :: real) powi dp \<le> 10 powi (- 1100)" by (intro power_int_increasing) simp_all
      with hi big(2) range(1) show False by linarith
    qed
    ultimately show ?thesis by simp
  qed
  note goal = that
  have layout: thesis if t: "t0 = dec_text ip fs ex" "dec_ok ip fs ex" "json_int ip"
      "real_of_int (dval 0 (ip @ fs)) * 10 powi (ex_val ex - int (length fs)) = v"
      "float_text (FFin neg m e) = Some ((if neg then ''-'' else []) @ t0)" for t0 ip fs ex
  proof (rule goal [OF t(5)])
    show "read_number ((if neg then ''-'' else []) @ t0) = Some ((if neg then ''-'' else []) @ t0, [])"
      using read_number_text [OF t(2,3)] t(1) by simp
    show "ParseFloat ((if neg then ''-'' else []) @ t0) = (FFin neg m e, True)"
      using ParseFloat_text [OF t(2), of m e] t(1,4) r by simp
  qed
  define small where "small = (below_exp m e \<or> \<not> mag_less m e 1000000000000000000000 1)"
  have txt_eq: "float_text (FFin neg m e) = Some ((if neg then ''-'' else []) @
      (if small then format_e ds dp else format_f ds dp))"
    using False by (simp add: dk Let_def full_def [symmetric] ds_def [symmetric] dp_def [symmetric]
        small_def [symmetric])
  show thesis
  proof (cases small)
    case True
    obtain ip fs where t: "format_e ds dp = dec_text ip fs (Some (dp - 1))" "dec_ok ip fs (Some (dp - 1))"
      "json_int ip"
      "real_of_int (dval 0 (ip @ fs)) * 10 powi (dp - 1 - int (length fs)) =
         real_of_int (dval 0 ds) * 10 powi (dp - int (length ds))"
      using format_e_text [OF n(2) digs hd dp] by blast
    show thesis by (rule layout [OF t(1-3)]) (use t(4) v txt_eq True in \<open>simp_all add: ex_val_def\<close>)
  next
    case False
    obtain ip fs where t: "format_f ds dp = dec_text ip fs None" "dec_ok ip fs None" "json_int ip"
      "real_of_int (dval 0 (ip @ fs)) * 10 powi (- int (length fs)) =
         real_of_int (dval 0 ds) * 10 powi (dp - int (length ds))"
      using format_f_text [OF n(2) digs hd] by blast
    show thesis by (rule layout [OF t(1-3)]) (use t(4) v txt_eq False in \<open>simp_all add: ex_val_def\<close>)
  qed
qed

end
