(* ===== verification/SysFacts.thy ===== *)
theory SysFacts
  imports SysText
begin

text \<open>
  What the text scrapers read from files printed the way the kernel and the distributions
  print them, and the arithmetic of the memory sizes.
\<close>

section \<open>Memory\<close>

datatype mem_key = MemTotal | MemFree | MemAvailable | MemCached | SwapTotal | SwapFree

fun mem_name :: "mem_key \<Rightarrow> string" where
  "mem_name MemTotal = ''MemTotal''"
| "mem_name MemFree = ''MemFree''"
| "mem_name MemAvailable = ''MemAvailable''"
| "mem_name MemCached = ''Cached''"
| "mem_name SwapTotal = ''SwapTotal''"
| "mem_name SwapFree = ''SwapFree''"










lemma mem_name_inject [simp]: "mem_name k = mem_name k' \<longleftrightarrow> k = k'"
  by (cases k; cases k') simp_all






section \<open>Guarantees: memory\<close>



text \<open>
  The used memory never underflows. Whatever the six sizes are, what the
  program reports as used is at most the total; with a plausible \<open>MemAvailable\<close> it is
  exactly total minus available, and without one it is total minus free and cached when
  these fit into the total.
\<close>

theorem memory_used_bounds:
  "memory_used m \<le> mem_total m \<and>
   (0 < mem_available m \<and> mem_available m \<le> mem_total m \<longrightarrow>
      uint (memory_used m) = uint (mem_total m) - uint (mem_available m)) \<and>
   (mem_available m = 0 \<and> uint (mem_free m) + uint (mem_cached m) \<le> uint (mem_total m) \<longrightarrow>
      uint (memory_used m) = uint (mem_total m) - uint (mem_free m) - uint (mem_cached m))"
proof -
  have sub: "satSub a b \<le> a" "b \<le> a \<Longrightarrow> uint (satSub a b) = uint a - uint b" for a b
    by (auto simp: satSub_def uint_sub_if' word_le_def)
  have sum: "uint (a + b) = uint a + uint b" if "uint a + uint b \<le> uint c" for a b c :: "64 word"
  proof -
    have "uint c < 2 ^ 64" using uint_bounded [of c] by simp
    with that have "uint a + uint b < 2 ^ LENGTH(64)" by simp
    then show ?thesis by (simp add: uint_add_lem [symmetric])
  qed
  show ?thesis
    using sub(1) [of "mem_total m"] sub(2) [of "mem_available m" "mem_total m"]
      sub(2) [of "mem_free m + mem_cached m" "mem_total m"] sum [of "mem_free m" "mem_cached m" "mem_total m"]
    by (auto simp: memory_used_def word_le_def)
qed

lemma memory_used_bounds_witness:
  "uint (memory_used \<lparr>mem_total = 10, mem_free = 1, mem_available = 4, mem_cached = 2, swap_total = 0,
     swap_free = 0\<rparr>) = 6"
  using memory_used_bounds [of "\<lparr>mem_total = 10, mem_free = 1, mem_available = 4, mem_cached = 2,
    swap_total = 0, swap_free = 0\<rparr>"] by simp

section \<open>/etc/os-release\<close>

datatype os_key = OsId | OsPretty | OsVersion | OsCodename | OsBuild

fun os_name :: "os_key \<Rightarrow> string" where
  "os_name OsId = ''ID''"
| "os_name OsPretty = ''PRETTY_NAME''"
| "os_name OsVersion = ''VERSION''"
| "os_name OsCodename = ''VERSION_CODENAME''"
| "os_name OsBuild = ''BUILD_ID''"

fun os_get :: "os_release \<Rightarrow> os_key \<Rightarrow> string" where
  "os_get r OsId = os_id r"
| "os_get r OsPretty = os_pretty r"
| "os_get r OsVersion = os_version r"
| "os_get r OsCodename = os_codename r"
| "os_get r OsBuild = os_buildID r"

definition os_pair :: "string \<Rightarrow> (string \<times> string) option" where
  "os_pair raw_line =
     (let line = TrimSpace raw_line in
      if line = [] \<or> HasPrefix line ''#'' then None
      else map_option (\<lambda>(key, val). (key, Trim val quotes)) (Cut line ''=''))"

definition os_field :: "string \<Rightarrow> (os_key \<times> string) option" where
  "os_field line =
     (case os_pair line of None \<Rightarrow> None
      | Some (key, val) \<Rightarrow>
          map_option (\<lambda>k. (k, val))
            (find (\<lambda>k. os_name k = key) [OsId, OsPretty, OsVersion, OsCodename, OsBuild]))"

lemma os_step_pair:
  "os_step l r = (case os_pair l of None \<Rightarrow> r | Some (key, val) \<Rightarrow> os_assign key val r)"
  by (simp add: os_step_def os_pair_def Let_def split: option.split)

interpretation os: last_wins os_step os_field os_get
proof
  fix l r k
  show "os_get (os_step l r) k = (case os_field l of None \<Rightarrow> os_get r k
      | Some (k', v) \<Rightarrow> if k = k' then v else os_get r k)"
    by (cases k) (auto simp: os_step_pair os_field_def os_assign_def split: option.split)
qed

text \<open>A line \<open>KEY="value"\<close> as the distributions print it.\<close>

definition os_row :: "string \<times> string \<Rightarrow> string" where
  "os_row r = fst r @ ''='' @ [CHR 0x22] @ snd r @ [CHR 0x22]"

definition os_row_ok :: "string \<times> string \<Rightarrow> bool" where
  "os_row_ok r \<longleftrightarrow> visible_word (fst r) \<and> CHR ''='' \<notin> set (fst r) \<and> hd (fst r) \<noteq> CHR ''#'' \<and>
     newline \<notin> set (snd r) \<and>
     (snd r \<noteq> [] \<longrightarrow> hd (snd r) \<notin> set quotes \<and> last (snd r) \<notin> set quotes)"

lemma Trim_quoted:
  assumes "v \<noteq> [] \<Longrightarrow> hd v \<notin> set quotes \<and> last v \<notin> set quotes"
  shows "Trim (CHR 0x22 # v @ [CHR 0x22]) quotes = v"
proof (cases "v = []")
  case True
  then show ?thesis by (simp add: Trim_def quotes_def)
next
  case False
  then have "dropWhile (\<lambda>c. c \<in> set quotes) (v @ [CHR 0x22]) = v @ [CHR 0x22]"
    using assms by (cases v) auto
  moreover have "dropWhile (\<lambda>c. c \<in> set quotes) (rev v) = rev v"
    using False assms by (cases v rule: rev_cases) auto
  ultimately show ?thesis by (simp add: Trim_def quotes_def)
qed

lemma os_pair_row:
  assumes "os_row_ok (key, val)"
  shows "os_pair (os_row (key, val)) = Some (key, val)"
proof -
  have key: "key \<noteq> []" "visible (hd key)" using assms by (auto simp: os_row_ok_def visible_word_def)
  have "visible (CHR 0x22)" by (simp add: visible_def)
  then have "TrimSpace (os_row (key, val)) = os_row (key, val)"
    using key by (intro TrimSpace_framed) (simp_all add: os_row_def)
  moreover have "Cut (os_row (key, val)) ''='' = Some (key, [CHR 0x22] @ val @ [CHR 0x22])"
    using assms Cut_single [of "CHR ''=''" key] by (simp add: os_row_def os_row_ok_def)
  moreover have "\<not> HasPrefix (os_row (key, val)) ''#'' \<and> os_row (key, val) \<noteq> []"
    using assms key by (cases key) (auto simp: HasPrefix_def os_row_def os_row_ok_def)
  ultimately show ?thesis
    using assms by (simp add: os_pair_def Let_def Trim_quoted os_row_ok_def)
qed

lemma os_row_no_newline: "os_row_ok r \<Longrightarrow> newline \<notin> set (os_row r)"
  using visible_no_newline [of "fst r"] by (auto simp: os_row_ok_def os_row_def newline_def)

lemma os_pair_empty: "os_pair [] = None"
  by (simp add: os_pair_def)

lemma os_fields_rows:
  "\<forall>r \<in> set rows. os_row_ok r \<Longrightarrow> k \<in> {OsId, OsPretty, OsVersion, OsCodename, OsBuild} \<Longrightarrow>
   map_of (rev (List.map_filter os_field (map os_row rows @ [[]]))) k = map_of (rev rows) (os_name k)"
proof (induction rows rule: rev_induct)
  case Nil
  show ?case by (simp add: List.map_filter_def os_field_def os_pair_empty)
next
  case (snoc r rows)
  obtain key val where r: "r = (key, val)" by (cases r)
  have "os_pair (os_row r) = Some (key, val)" using snoc.prems r os_pair_row by simp
  then show ?case using snoc
    by (cases k) (auto simp: r os_field_def List.map_filter_def os_pair_empty)
qed

section \<open>Guarantees: os-release\<close>

text \<open>
  The keys of os-release are read as written. In a file of \<open>KEY="value"\<close>
  lines, each of the five plain keys that the program knows has the value of its last
  line, without the quotes, or is empty; unknown keys change nothing.
\<close>

theorem osrelease_roundtrip:
  assumes "\<forall>r \<in> set rows. os_row_ok r"
  shows "os_get (parseOSRelease (file_of (map os_row rows))) k =
    (case map_of (rev rows) (os_name k) of None \<Rightarrow> [] | Some v \<Rightarrow> v)"
proof -
  have "lines_of (file_of (map os_row rows)) = map os_row rows @ [[]]"
    using assms os_row_no_newline by (intro lines_of_file) auto
  moreover have "k \<in> {OsId, OsPretty, OsVersion, OsCodename, OsBuild}" by (cases k) simp_all
  ultimately show ?thesis
    unfolding parseOSRelease_def os.get_fold using os_fields_rows [OF assms, of k]
    by (cases k) (simp_all split: option.split)
qed

lemma osrelease_roundtrip_witness:
  "os_get (parseOSRelease (file_of (map os_row
     [(''ID'', ''debian''), (''PRETTY_NAME'', ''Debian 12''), (''HOME_URL'', []), (''ID'', ''nixos'')])))
     OsId = ''nixos''"
  by (subst osrelease_roundtrip)
    (simp_all add: os_row_ok_def visible_word_def visible_def quotes_def newline_def)

lemma os_variant_rows:
  assumes "\<forall>r \<in> set rows. os_row_ok r" "''VARIANT'' \<notin> fst ` set rows"
  shows "os_variant (fold os_step (map os_row rows @ [[]]) s) =
    firstNonEmpty (os_variant s # map snd (filter (\<lambda>r. fst r = ''VARIANT_ID'') rows))"
  using assms
proof (induction rows arbitrary: s)
  case Nil
  show ?case by (simp add: os_step_pair os_pair_empty)
next
  case (Cons r rows)
  obtain key val where r: "r = (key, val)" by (cases r)
  have "os_pair (os_row r) = Some (key, val)" using Cons.prems(1) r os_pair_row by simp
  then have "os_step (os_row r) s = os_assign key val s" by (simp add: os_step_pair)
  moreover have "os_variant (os_assign key val s) =
      (if key = ''VARIANT_ID'' \<and> os_variant s = [] then val else os_variant s)"
    using Cons.prems(2) r by (auto simp: os_assign_def)
  ultimately show ?case using Cons by (simp add: r)
qed

text \<open>
  \<open>VARIANT\<close> takes precedence over \<open>VARIANT_ID\<close>. After the last \<open>VARIANT\<close> line
  the variant is its value; \<open>VARIANT_ID\<close> lines before it never matter, and one after it
  only if the variant is still empty. Without a \<open>VARIANT\<close> line it is the first non-empty
  \<open>VARIANT_ID\<close>.
\<close>

theorem variant_precedence:
  assumes "\<forall>r \<in> set (pre @ (''VARIANT'', v) # post). os_row_ok r" and "''VARIANT'' \<notin> fst ` set post"
  shows "os_variant (parseOSRelease (file_of (map os_row (pre @ (''VARIANT'', v) # post)))) =
      firstNonEmpty (v # map snd (filter (\<lambda>r. fst r = ''VARIANT_ID'') post)) \<and>
    os_variant (parseOSRelease (file_of (map os_row post))) =
      firstNonEmpty (map snd (filter (\<lambda>r. fst r = ''VARIANT_ID'') post))"
proof
  let ?l = "os_row (''VARIANT'', v)"
  have lines: "lines_of (file_of (map os_row (pre @ (''VARIANT'', v) # post))) =
      map os_row pre @ ?l # map os_row post @ [[]]"
    using assms(1) os_row_no_newline by (subst lines_of_file) auto
  have "os_pair ?l = Some (''VARIANT'', v)" using assms(1) by (intro os_pair_row) simp
  then have "os_variant (os_step ?l s) = v" for s by (simp add: os_step_pair os_assign_def)
  then show "os_variant (parseOSRelease (file_of (map os_row (pre @ (''VARIANT'', v) # post)))) =
      firstNonEmpty (v # map snd (filter (\<lambda>r. fst r = ''VARIANT_ID'') post))"
    using os_variant_rows [of post] assms unfolding parseOSRelease_def lines by simp
  have "lines_of (file_of (map os_row post)) = map os_row post @ [[]]"
    using assms(1) os_row_no_newline by (intro lines_of_file) auto
  then show "os_variant (parseOSRelease (file_of (map os_row post))) =
      firstNonEmpty (map snd (filter (\<lambda>r. fst r = ''VARIANT_ID'') post))"
    using os_variant_rows [of post] assms unfolding parseOSRelease_def by simp
qed

lemma variant_precedence_witness:
  "os_variant (parseOSRelease (file_of (map os_row
     ([(''VARIANT_ID'', ''kde'')] @ (''VARIANT'', ''KDE'') # [(''VARIANT_ID'', ''kde'')])))) = ''KDE''"
  by (subst variant_precedence [THEN conjunct1])
    (simp_all add: os_row_ok_def visible_word_def visible_def quotes_def newline_def)

text \<open>
  The doc comment of \<open>parseOSRelease\<close> says that a line with an empty value is skipped. It
  is not: the empty value replaces an earlier one.
\<close>

lemma os_empty_value_assigned:
  "os_id (parseOSRelease (file_of (map os_row [(''ID'', ''nixos''), (''ID'', [])]))) = []"
proof -
  have rows: "\<forall>r \<in> set [(''ID'', ''nixos''), (''ID'', [])]. os_row_ok r"
    by (simp add: os_row_ok_def visible_word_def visible_def quotes_def newline_def)
  then have lines: "lines_of (file_of (map os_row [(''ID'', ''nixos''), (''ID'', [])])) =
      [os_row (''ID'', ''nixos''), os_row (''ID'', []), []]"
    using os_row_no_newline by (subst lines_of_file) auto
  have "os_pair (os_row (''ID'', [])) = Some (''ID'', [])" using rows by (intro os_pair_row) simp
  then show ?thesis unfolding parseOSRelease_def lines
    by (simp add: os_step_pair os_pair_empty os_assign_def split: option.split)
qed

end
