(* ===== verification/SysInfoFacts.thy ===== *)
theory SysInfoFacts
  imports SysInfo GoFloatText SysFacts GoCodec
begin

text \<open>
  The kernel text behind the system information endpoint: what \<open>parseCPUInfo\<close> makes of its
  file, that every float of a snapshot is a \<open>float64\<close>, and what the JSON of a snapshot is when it
  is read again.
\<close>

section \<open>The parsers of floats\<close>

definition finite_float :: "float64 \<Rightarrow> bool" where
  "finite_float f \<longleftrightarrow> (case f of FFin _ _ _ \<Rightarrow> True | _ \<Rightarrow> False)"

lemma is_float64_zero [simp]: "is_float64 fzero"
  by (simp add: fzero_def is_float64_def fcanon_def)

lemma scan_mant_nonneg: "0 \<le> fst (snd st) \<Longrightarrow> 0 \<le> fst (snd (fst (scan_mant hex dot st t)))"
proof (induction hex dot st t rule: scan_mant.induct)
  case (2 hex dot st c cs)
  have "0 \<le> d" if "float_digit hex c = Some d" for d
    using that by (auto simp: float_digit_def Let_def split: if_splits)
  then show ?case using 2 by (auto split: option.split prod.splits)
qed simp

lemma readFloat_range:
  assumes "readFloat s = Some (neg, p, q)" shows "0 \<le> p \<and> 0 < q"
proof -
  obtain ng t where sg: "sign_split s = (ng, t)" by fastforce
  define hex where "hex = (base_prefix t = Some (CHR ''x'') \<and> 2 < length t)"
  obtain sd m f r where sc:
    "scan_mant hex False (False, 0, 0) (if hex then drop 2 t else t) = ((sd, m, f), r)"
    by (metis prod.exhaust)
  have "0 \<le> m"
    using scan_mant_nonneg [of "(False, 0, 0)" hex False "if hex then drop 2 t else t"] sc by simp
  moreover have "\<exists>e. (p, q) = (let base = (if hex then 2 else 10); q = (if hex then 16 else 10) ^ f in
      if 0 \<le> e then (m * base ^ nat e, q) else (m, q * base ^ nat (- e)))"
    using assms unfolding readFloat_def sg prod.case Let_def hex_def [symmetric] sc
    by (auto split: if_split_asm option.split_asm)
  ultimately show ?thesis by (auto simp: Let_def split: if_splits)
qed

lemma ParseFloat_type: "is_float64 (fst (ParseFloat s))"
proof (cases "special_float s")
  case None
  show ?thesis
  proof (cases "readFloat s")
    case None
    with \<open>special_float s = None\<close> show ?thesis by (simp add: ParseFloat_def)
  next
    case (Some r)
    obtain neg p q where r: "readFloat s = Some (neg, p, q)" using Some by (cases r) simp
    note pq = readFloat_range [OF r]
    have "is_float64 (round64 neg p q)"
      using pq by (simp add: round64_real round_real_canon)
    then show ?thesis using \<open>special_float s = None\<close>
      by (cases "round64 neg p q") (simp_all add: ParseFloat_def r)
  qed
next
  case (Some f)
  then have "is_float64 f" by (auto simp: special_float_def is_float64_def Let_def split: prod.splits if_splits)
  with Some show ?thesis by (simp add: ParseFloat_def)
qed

lemma fdiv_type:
  assumes "is_float64 f" "0 < d" shows "is_float64 (fdiv f d)"
proof (cases f)
  case (FFin neg m e)
  then have "0 \<le> m" using assms(1) by (simp add: is_float64_def fcanon_def)
  with assms(2) show ?thesis by (simp add: FFin round64_real round_real_canon)
qed (use assms in simp_all)

lemma float_text_iff: "is_float64 f \<Longrightarrow> float_text f \<noteq> None \<longleftrightarrow> finite_float f"
proof (cases f)
  case (FFin neg m e)
  assume "is_float64 f"
  with FFin have "fcanon m e" by (simp add: is_float64_def)
  from float_text_finite [OF this, of neg] show ?thesis
    by (auto simp: FFin finite_float_def simp del: float_text.simps)
qed (simp_all add: finite_float_def)

lemma float_text_parses:
  assumes "is_float64 f" "finite_float f"
  obtains t where "float_text f = Some t" "read_number t = Some (t, [])" "ParseFloat t = (f, True)"
proof (cases f)
  case (FFin neg m e)
  with assms have "fcanon m e" by (simp add: is_float64_def)
  from float_text_finite [OF this, of neg] show thesis using that
    by (auto simp: FFin simp del: float_text.simps)
qed (use assms in \<open>simp_all add: finite_float_def\<close>)

definition SysInfo_floats :: "SysInfo \<Rightarrow> float64 list" where
  "SysInfo_floats s =
     [y_UptimeSeconds s, y_CPUFreqMHz s, y_CPUBaseMHz s, y_CPUMaxMHz s, y_Load1 s, y_Load5 s, y_Load15 s]"

lemma parseUptime_type: "is_float64 (parseUptime b)"
  using ParseFloat_type by (auto simp: parseUptime_def split: list.split prod.split) (metis fst_conv)

lemma khzToMHz_type: "is_float64 (khzToMHz b)"
  using ParseFloat_type [of "TrimSpace b"]
  by (auto simp: khzToMHz_def fdiv_type split: prod.split)

lemma parseLoadAvg_type:
  "parseLoadAvg b = (l1, l5, l15) \<Longrightarrow> is_float64 l1 \<and> is_float64 l5 \<and> is_float64 l15"
  using ParseFloat_type by (auto simp: parseLoadAvg_def split: list.splits)

section \<open>/proc/cpuinfo\<close>

text \<open>
  The columns of the file: the values of the lines with a key, in order. The parser keeps of
  each the first one that is not empty, or not zero, and counts the lines of a processor.
\<close>

definition cpu_field :: "string \<Rightarrow> string \<Rightarrow> string option" where
  "cpu_field key l = cpu_value (TrimSpace l) key"

definition cpu_values :: "string \<Rightarrow> string list \<Rightarrow> string list" where
  "cpu_values key ls = List.map_filter (cpu_field key) ls"

definition parsed_float :: "string \<Rightarrow> float64 option" where
  "parsed_float v = (case ParseFloat v of (f, ok) \<Rightarrow> if ok then Some f else None)"

lemma parsed_float_Some: "parsed_float v = Some f \<longleftrightarrow> ParseFloat v = (f, True)"
  by (cases "ParseFloat v") (simp add: parsed_float_def)

interpretation cpu_model: first_wins cpu_step "cpu_field ''model name''" cpu_model "\<lambda>v. v = []"
  by unfold_locales (simp add: cpu_step_def cpu_field_def Let_def split: option.split prod.split)

interpretation cpu_vendor: first_wins cpu_step "cpu_field ''vendor_id''" cpu_vendor "\<lambda>v. v = []"
  by unfold_locales (simp add: cpu_step_def cpu_field_def Let_def split: option.split prod.split)

interpretation cpu_cores: first_wins cpu_step "\<lambda>l. Option.bind (cpu_field ''cpu cores'' l) Atoi"
  cpu_physical "\<lambda>n. n = 0"
  by unfold_locales (simp add: cpu_step_def cpu_field_def Let_def split: option.split prod.split)

interpretation cpu_freq: first_wins cpu_step "\<lambda>l. Option.bind (cpu_field ''cpu MHz'' l) parsed_float"
  cpu_freqMHz fis_zero
  by unfold_locales
    (simp add: cpu_step_def cpu_field_def parsed_float_def Let_def split: option.split prod.split)

lemma cpu_logical_fold:
  "cpu_logical (fold cpu_step ls c) =
     cpu_logical c + int (length (filter (\<lambda>l. HasPrefix (TrimSpace l) ''processor'') ls))"
proof (induction ls arbitrary: c)
  case (Cons l ls)
  have "cpu_logical (cpu_step l c) =
      cpu_logical c + (if HasPrefix (TrimSpace l) ''processor'' then 1 else 0)"
    by (simp add: cpu_step_def Let_def split: option.split prod.split)
  with Cons show ?case by simp
qed simp

lemma map_filter_bind:
  "List.map_filter (\<lambda>l. Option.bind (f l) g) ls = List.map_filter g (List.map_filter f ls)"
  by (induction ls) (auto simp: map_filter_simps split: option.split)

lemma map_filter_set: "set (List.map_filter f xs) = {y. \<exists>x \<in> set xs. f x = Some y}"
  by (induction xs) (auto simp: map_filter_simps split: option.split)

lemma settle_strings: "settle (\<lambda>v. v = []) [] vs = firstNonEmpty vs"
  by (induction vs) (auto simp: settle_set)

lemma cpu_columns:
  "List.map_filter (\<lambda>l. Option.bind (cpu_field key l) g) ls = List.map_filter g (cpu_values key ls)"
  by (simp add: cpu_values_def map_filter_bind)

text \<open>
  Property C31: the one pass over \<open>/proc/cpuinfo\<close> computes five independent columns. Whatever
  the file holds and however its blocks are ordered, the model and the vendor are the first
  value of their key that is not empty, the physical cores the first number of their key that
  is not zero, the frequency the first \<open>cpu MHz\<close> that parses to a value other than zero (and
  a zero if there is none), and the logical cores the number of lines that start with
  "processor".
\<close>

theorem cpuinfo_columns:
  "cpu_model (parseCPUInfo raw) = firstNonEmpty (cpu_values ''model name'' (lines_of raw)) \<and>
   cpu_vendor (parseCPUInfo raw) = firstNonEmpty (cpu_values ''vendor_id'' (lines_of raw)) \<and>
   (case find (\<lambda>n. n \<noteq> 0) (List.map_filter Atoi (cpu_values ''cpu cores'' (lines_of raw))) of
      Some n \<Rightarrow> cpu_physical (parseCPUInfo raw) = n
    | None \<Rightarrow> cpu_physical (parseCPUInfo raw) = 0) \<and>
   (case find (\<lambda>f. \<not> fis_zero f)
           (List.map_filter parsed_float (cpu_values ''cpu MHz'' (lines_of raw))) of
      Some f \<Rightarrow> cpu_freqMHz (parseCPUInfo raw) = f
    | None \<Rightarrow> fis_zero (cpu_freqMHz (parseCPUInfo raw))) \<and>
   cpu_logical (parseCPUInfo raw) =
     int (length (filter (\<lambda>l. HasPrefix (TrimSpace l) ''processor'') (lines_of raw)))"
proof -
  let ?c0 = "\<lparr>cpu_model = [], cpu_vendor = [], cpu_logical = 0, cpu_physical = 0, cpu_freqMHz = fzero\<rparr>"
  have "fis_zero (cpu_freqMHz ?c0)" "cpu_physical ?c0 = 0" by (simp_all add: fzero_def)
  note first = cpu_freq.get_first [OF this(1), unfolded cpu_columns]
    cpu_cores.get_first [OF this(2), unfolded cpu_columns]
  show ?thesis
    unfolding parseCPUInfo_def
    by (simp add: first cpu_model.get_fold cpu_vendor.get_fold settle_strings cpu_logical_fold
        cpu_values_def [symmetric] split: option.split)
qed

text \<open>The frequency is zero or the value of a line.\<close>

lemma parseCPUInfo_freq:
  obtains "cpu_freqMHz (parseCPUInfo raw) = fzero"
  | v where "v \<in> set (cpu_values ''cpu MHz'' (lines_of raw))"
      "ParseFloat v = (cpu_freqMHz (parseCPUInfo raw), True)"
proof -
  let ?c0 = "\<lparr>cpu_model = [], cpu_vendor = [], cpu_logical = 0, cpu_physical = 0, cpu_freqMHz = fzero\<rparr>"
  have "cpu_freqMHz (parseCPUInfo raw) = fzero \<or>
      (\<exists>v \<in> set (cpu_values ''cpu MHz'' (lines_of raw)). parsed_float v = Some (cpu_freqMHz (parseCPUInfo raw)))"
    using cpu_freq.get_among [of "lines_of raw" ?c0]
    by (simp add: parseCPUInfo_def cpu_columns map_filter_set)
  then show thesis using that by (auto simp: parsed_float_Some)
qed

lemma parseCPUInfo_type: "is_float64 (cpu_freqMHz (parseCPUInfo raw))"
  by (rule parseCPUInfo_freq [of raw]) (simp, metis ParseFloat_type fst_conv)

section \<open>The floats of a snapshot\<close>

definition floats_typed :: "SysInfo \<Rightarrow> bool" where
  "floats_typed s \<longleftrightarrow> (\<forall>f \<in> set (SysInfo_floats s). is_float64 f)"

lemma floats_frame:
  "SysInfo_floats (sys_names h s) = SysInfo_floats s"
  "SysInfo_floats (sys_release h s) = SysInfo_floats s"
  "SysInfo_floats (sys_memory h s) = SysInfo_floats s"
  "SysInfo_floats (sys_dmi h s) = SysInfo_floats s"
  "SysInfo_floats (sys_boot h s) = SysInfo_floats s"
  "SysInfo_floats (sys_kernel h s) = SysInfo_floats s"
  "SysInfo_floats (sys_env h s) = SysInfo_floats s"
  "SysInfo_floats (sys_net h s) = SysInfo_floats s"
  "SysInfo_floats (sys_zfs h s) = SysInfo_floats s"
  by (simp_all add: SysInfo_floats_def sys_names_def sys_release_def sys_memory_def sys_dmi_def
      sys_boot_def sys_kernel_def sys_env_def sys_net_def sys_zfs_def file_or_def Let_def
      split: sum.split option.split)

text \<open>
  What holds of zero and of the parsers' results on the files of a host holds of every float
  of its snapshot.
\<close>

definition floats_from :: "(float64 \<Rightarrow> bool) \<Rightarrow> host \<Rightarrow> bool" where
  "floats_from P h \<longleftrightarrow> P fzero \<and>
     file_or True (\<lambda>b. P (parseUptime b)) (read_file h procUptime) \<and>
     file_or True (\<lambda>b. P (cpu_freqMHz (parseCPUInfo b))) (read_file h procCPUInfo) \<and>
     list_all (\<lambda>p. file_or True (\<lambda>b. P (khzToMHz b)) (read_file h p))
       [cpuFreqBase,
        cpuFreqMax,
        cpuFreqCur] \<and>
     file_or True (\<lambda>b. case parseLoadAvg b of (l1, l5, l15) \<Rightarrow> P l1 \<and> P l5 \<and> P l15)
       (read_file h procLoadAvg)"

definition all_floats :: "(float64 \<Rightarrow> bool) \<Rightarrow> SysInfo \<Rightarrow> bool" where
  "all_floats P s \<longleftrightarrow> list_all P (SysInfo_floats s)"

lemma all_floats_blocks:
  assumes "floats_from P h"
  shows "all_floats P (sys_start h)"
    "all_floats P s \<Longrightarrow> all_floats P (sys_uptime h s)"
    "all_floats P s \<Longrightarrow> all_floats P (sys_cpu h s)"
    "all_floats P s \<Longrightarrow> all_floats P (sys_freq h s)"
    "all_floats P s \<Longrightarrow> all_floats P (sys_load h s)"
  using assms
  by (simp_all add: floats_from_def all_floats_def SysInfo_floats_def sys_start_def zero_SysInfo_def
      sys_uptime_def sys_cpu_def sys_freq_def sys_load_def readCPUFreqLimits_def file_or_def Let_def
      split: sum.splits prod.split prod.split_asm)

lemma fetch_floats:
  assumes "floats_from P h" and "fetchSysInfo h = Inr s"
  shows "list_all P (SysInfo_floats s)"
proof -
  have frame: "all_floats P (sys_names h s) = all_floats P s"
    "all_floats P (sys_release h s) = all_floats P s" "all_floats P (sys_memory h s) = all_floats P s"
    "all_floats P (sys_dmi h s) = all_floats P s" "all_floats P (sys_boot h s) = all_floats P s"
    "all_floats P (sys_kernel h s) = all_floats P s" "all_floats P (sys_env h s) = all_floats P s"
    "all_floats P (sys_net h s) = all_floats P s" "all_floats P (sys_zfs h s) = all_floats P s" for s
    by (simp_all add: all_floats_def floats_frame)
  have "all_floats P s"
    using assms(2) by (auto simp: fetchSysInfo_def frame all_floats_blocks [OF assms(1)] split: option.splits)
  then show ?thesis by (simp add: all_floats_def)
qed

lemma fetchSysInfo_floats:
  assumes "fetchSysInfo h = Inr s" shows "floats_typed s"
proof -
  have "floats_from is_float64 h"
    by (auto simp: floats_from_def file_or_def parseUptime_type parseCPUInfo_type khzToMHz_type
        split: sum.split prod.split dest: parseLoadAvg_type)
  from fetch_floats [OF this assms] show ?thesis by (simp add: floats_typed_def list_all_iff)
qed

section \<open>The body\<close>

definition float_members :: "SysInfo \<Rightarrow> (string \<times> float64) list" where
  "float_members s =
     zip [''uptime_seconds'', ''cpu_freq_mhz'', ''cpu_base_mhz'', ''cpu_max_mhz'', ''load1'',
          ''load5'', ''load15''] (SysInfo_floats s)"

lemma json_float_text:
  assumes "is_float64 f"
  shows "has_text (json_float f) \<longleftrightarrow> finite_float f"
proof (cases "finite_float f")
  case True
  obtain t where t: "float_text f = Some t" "read_number t = Some (t, [])"
    using float_text_parses [OF assms True] by blast
  then have "t \<noteq> []" by (auto simp: read_number_def number_int_def)
  with t True show ?thesis by (simp add: json_float_def del: float_text.simps)
next
  case False
  with float_text_iff [OF assms] show ?thesis by (simp add: json_float_def del: float_text.simps)
qed

lemma SysInfo_has_text:
  "has_text (SysInfo_json s) \<longleftrightarrow> (\<forall>f \<in> set (SysInfo_floats s). has_text (json_float f))"
  by (simp add: SysInfo_json_def SysInfo_floats_def json_uint_def json_float_def del: float_text.simps)

lemma SysInfo_marshals:
  "floats_typed s \<Longrightarrow>
     Marshal (SysInfo_json s) =
       (if \<forall>f \<in> set (SysInfo_floats s). finite_float f then Some (encode (SysInfo_json s)) else None)"
  using json_float_text by (simp add: Marshal_def SysInfo_has_text floats_typed_def)

lemma json_float_ok: "is_float64 f \<Longrightarrow> finite_float f \<Longrightarrow> json_ok (json_float f)"
  by (elim float_text_parses, assumption) (simp add: json_float_def)

lemma SysInfo_json_ok:
  assumes "floats_typed s" "\<forall>f \<in> set (SysInfo_floats s). finite_float f"
  shows "json_ok (SysInfo_json s)"
  using assms unfolding SysInfo_json_def floats_typed_def SysInfo_floats_def
  by (simp add: json_float_ok)

lemma SysInfo_deep: "deep 1 (SysInfo_json s)"
proof -
  have "deep (Suc 0) (SysInfo_json s)"
    unfolding SysInfo_json_def by (intro deep_Obj) (simp add: json_float_def deep_def json_uint_def)
  then show ?thesis by simp
qed

text \<open>The members by their Go type, with the values they stand for.\<close>

definition text_members :: "SysInfo \<Rightarrow> (string \<times> string) list" where
  "text_members s =
     [(''hostname'', y_Hostname s), (''fqdn'', y_FQDN s), (''os'', y_OS s),
      (''os_id'', y_OSID s), (''os_version'', y_OSVersion s), (''os_codename'', y_OSCodename s),
      (''os_variant'', y_OSVariant s), (''os_build_id'', y_OSBuildID s),
      (''kernel'', y_Kernel s), (''kernel_release'', y_KernelRelease s),
      (''kernel_version'', y_KernelVersion s), (''machine'', y_Machine s),
      (''host_vendor'', y_HostVendor s), (''host_product'', y_HostProduct s),
      (''host_version'', y_HostVersion s), (''host_family'', y_HostFamily s),
      (''uptime'', y_Uptime s), (''cpu_model'', y_CPUModel s), (''cpu_vendor'', y_CPUVendor s),
      (''shell'', y_Shell s), (''terminal'', y_Terminal s), (''locale'', y_Locale s),
      (''net_iface'', y_NetIface s), (''net_ipv4'', y_NetIPv4 s)]"

definition size_members :: "SysInfo \<Rightarrow> (string \<times> 64 word) list" where
  "size_members s =
     [(''memory_total_bytes'', y_MemoryTotalBytes s),
      (''memory_free_bytes'', y_MemoryFreeBytes s),
      (''memory_available_bytes'', y_MemoryAvailableBytes s),
      (''memory_used_bytes'', y_MemoryUsedBytes s),
      (''memory_cached_bytes'', y_MemoryCachedBytes s),
      (''swap_total_bytes'', y_SwapTotalBytes s), (''swap_free_bytes'', y_SwapFreeBytes s)]"

definition int_members :: "SysInfo \<Rightarrow> (string \<times> int) list" where
  "int_members s =
     [(''boot_time'', y_BootTime s), (''cpu_cores'', y_CPUCores s),
      (''cpu_physical_cores'', y_CPUPhysicalCores s), (''processes'', y_Processes s),
      (''timestamp_ms'', y_Timestamp s)]"

definition bool_members :: "SysInfo \<Rightarrow> (string \<times> bool) list" where
  "bool_members s =
     [(''zfs_available'', y_ZFSAvailable s), (''arc_available'', y_ARCAvailable s)]"

definition member_trees :: "SysInfo \<Rightarrow> (string \<times> jtree) list" where
  "member_trees s =
     map (\<lambda>(k, v). (k, TStr (sanitize v))) (text_members s) @
     map (\<lambda>(k, v). (k, TNum (Itoa (uint v)))) (size_members s) @
     map (\<lambda>(k, v). (k, TNum (Itoa v))) (int_members s) @
     map (\<lambda>(k, v). (k, TBool v)) (bool_members s) @
     map (\<lambda>(k, f). (k, tree_of (json_float f))) (float_members s)"

lemma SysInfo_tree:
  obtains ms where "tree_of (SysInfo_json s) = TObj ms" "distinct (map fst ms)"
    "set ms = set (member_trees s)"
proof -
  let ?ms = "case SysInfo_json s of JObj ms \<Rightarrow> map (\<lambda>(k, v). (k, tree_of v)) ms"
  have "tree_of (SysInfo_json s) = TObj ?ms"
    by (simp add: SysInfo_json_def sanitize_ascii)
  moreover have "distinct (map fst ?ms)" by (simp add: SysInfo_json_def)
  moreover have "set ?ms = set (member_trees s)"
    unfolding member_trees_def SysInfo_json_def text_members_def size_members_def int_members_def
      bool_members_def float_members_def SysInfo_floats_def json_uint_def
    by (simp add: insert_commute)
  ultimately show thesis by (rule that)
qed

end
