(* ===== verification/SysInfoGuarantees.thy ===== *)
theory SysInfoGuarantees
  imports SysInfoFacts
begin

text \<open>
  What the system information endpoint promises: when it answers 200, that the numbers of the
  snapshot are exact in the body, and that the text of the uptime is exact to the second.
\<close>

section \<open>The response\<close>

lemma status_500_not_200 [simp]: "StatusInternalServerError \<noteq> StatusOK"
  by (simp add: status_defs)

lemma produceSysInfo_cases:
  "produceSysInfo h =
     (case fetchSysInfo h of
        Inl _ \<Rightarrow> (errBody sysinfo_failure, StatusInternalServerError)
      | Inr s \<Rightarrow>
          (if \<forall>f \<in> set (SysInfo_floats s). finite_float f then (encode (SysInfo_json s), StatusOK)
           else (errBody sysinfo_encode_failure, StatusInternalServerError)))"
  using SysInfo_marshals [OF fetchSysInfo_floats]
  by (simp add: produceSysInfo_def split: sum.split option.split)

lemma fetchSysInfo_alive: "(\<exists>s. fetchSysInfo h = Inr s) \<longleftrightarrow> ctx_err h = None"
  by (simp add: fetchSysInfo_def split: option.split)

text \<open>
  Property C32: when the endpoint fails. It answers 200 exactly when the request was not
  cancelled and every float of the snapshot is finite; no missing or malformed file makes it
  fail otherwise. A cancelled request gives the body that blames /proc, a float that is
  infinite or no number the one that blames the encoding, both with 500.
\<close>

theorem sysinfo_status:
  "(snd (produceSysInfo h) = StatusOK \<longleftrightarrow>
      (\<exists>s. ctx_err h = None \<and> fetchSysInfo h = Inr s \<and> list_all finite_float (SysInfo_floats s))) \<and>
   (snd (produceSysInfo h) = StatusOK \<or>
    produceSysInfo h =
      (errBody (if ctx_err h = None then sysinfo_encode_failure else sysinfo_failure),
       StatusInternalServerError))"
proof (cases "ctx_err h")
  case None
  then obtain s where "fetchSysInfo h = Inr s" using fetchSysInfo_alive by blast
  with None show ?thesis by (simp add: produceSysInfo_cases list_all_iff)
next
  case (Some e)
  then show ?thesis by (simp add: produceSysInfo_cases fetchSysInfo_def)
qed

text \<open>A load average out of range makes the whole endpoint fail.\<close>

definition overload_host :: host where
  "overload_host = bare_host\<lparr>read_file := (\<lambda>p. if p = ''/proc/loadavg''
     then Inr ''1e400 0.00 0.00 1/100 4242'' else Inl ''no such file or directory'')\<rparr>"

lemma round_real_overflow: "2 powi 1024 \<le> x \<Longrightarrow> round_real neg x = FInf neg"
proof -
  assume x: "2 powi 1024 \<le> x"
  have p: "(0 :: real) < 2 powi 1024" by simp
  with x have "0 < x" by linarith
  have "log 2 (2 powi e) = real_of_int e" for e :: int by (simp add: powi_powr)
  then have "1024 = log 2 (2 powi 1024)" by (simp only: of_int_numeral)
  also have "\<dots> \<le> log 2 x" using x p \<open>0 < x\<close> by (subst log_le_cancel_iff) auto
  finally have "1024 \<le> \<lfloor>log 2 x\<rfloor>" by (simp add: le_floor_iff)
  then obtain e where e: "max (- 1074) (\<lfloor>log 2 x\<rfloor> - 52) = e" "971 < e" by force
  show ?thesis unfolding round_real_def Let_def e(1) using e(2) \<open>0 < x\<close> by simp
qed

lemma overload_value: "ParseFloat ''1e400'' = (FInf False, False)"
proof -
  have "special_float ''1e400'' = None" "readFloat ''1e400'' = Some (False, 10 ^ 400, 1)"
    by code_simp+
  moreover have "round64 False (10 ^ 400) 1 = FInf False"
  proof -
    have "(2 :: real) powi 1024 \<le> real_of_int (10 ^ 400) / real_of_int 1"
      by (subst powi_nat) simp_all
    then show ?thesis by (subst round64_real) (simp_all only: round_real_overflow, simp_all)
  qed
  ultimately show ?thesis unfolding ParseFloat_def by (simp only: option.case prod.case float64.case)
qed

lemma overload_loads: "parseLoadAvg ''1e400 0.00 0.00 1/100 4242'' = (FInf False, fzero, fzero)"
proof -
  have "Fields ''1e400 0.00 0.00 1/100 4242'' = [''1e400'', ''0.00'', ''0.00'', ''1/100'', ''4242'']"
    "ParseFloat ''0.00'' = (fzero, True)"
    by code_simp+
  then show ?thesis by (simp add: parseLoadAvg_def overload_value)
qed

lemma sysinfo_overload:
  "produceSysInfo overload_host = (errBody sysinfo_encode_failure, StatusInternalServerError)"
proof -
  obtain s where s: "fetchSysInfo overload_host = Inr s"
    using fetchSysInfo_alive [of overload_host] by (auto simp: overload_host_def bare_host_def)
  then have "y_Load1 s = FInf False"
    by (auto simp: fetchSysInfo_def overload_host_def bare_host_def sys_zfs_def sys_net_def sys_env_def
        sys_kernel_def sys_boot_def sys_load_def overload_loads arcstatsPath_def sysinfo_paths)
  then have "\<not> (\<forall>f \<in> set (SysInfo_floats s). finite_float f)"
    by (simp add: SysInfo_floats_def finite_float_def)
  with s show ?thesis by (simp only: produceSysInfo_cases sum.case if_False)
qed

lemma member_treesI:
  "(k, i) \<in> set (int_members s) \<Longrightarrow> (k, TNum (Itoa i)) \<in> set (member_trees s)"
  "(k, t) \<in> set (text_members s) \<Longrightarrow> (k, TStr (sanitize t)) \<in> set (member_trees s)"
  "(k, v) \<in> set (bool_members s) \<Longrightarrow> (k, TBool v) \<in> set (member_trees s)"
  "(k, w) \<in> set (size_members s) \<Longrightarrow> (k, TNum (Itoa (uint w))) \<in> set (member_trees s)"
  "(k, f) \<in> set (float_members s) \<Longrightarrow> (k, tree_of (json_float f)) \<in> set (member_trees s)"
  unfolding member_trees_def by force+

text \<open>
  Property C29: a 200 of the endpoint carries the snapshot exactly. Its body is a JSON object
  with each of the 45 members once; every float member, read by \<open>ParseFloat\<close>, is the very
  \<open>float64\<close> of the snapshot, every size is read back as the same \<open>uint64\<close>, every other number
  is the decimal of its integer, and every string is the one of the snapshot with malformed
  UTF-8 replaced.
\<close>

theorem sysinfo_body_exact:
  assumes "produceSysInfo h = (b, StatusOK)"
  shows "\<exists>s ms. fetchSysInfo h = Inr s \<and> json_read b = Some (TObj ms) \<and> distinct (map fst ms) \<and>
    length ms = 45 \<and>
    (\<forall>(k, f) \<in> set (float_members s). \<exists>l. map_of ms k = Some (TNum l) \<and> ParseFloat l = (f, True)) \<and>
    (\<forall>(k, w) \<in> set (size_members s). \<exists>l. map_of ms k = Some (TNum l) \<and> ParseUint l = Some w) \<and>
    (\<forall>(k, i) \<in> set (int_members s). map_of ms k = Some (TNum (Itoa i))) \<and>
    (\<forall>(k, t) \<in> set (text_members s). map_of ms k = Some (TStr (sanitize t))) \<and>
    (\<forall>(k, v) \<in> set (bool_members s). map_of ms k = Some (TBool v))"
proof -
  obtain s where s: "fetchSysInfo h = Inr s" and fin: "\<forall>f \<in> set (SysInfo_floats s). finite_float f"
    and b: "b = encode (SysInfo_json s)"
    using assms by (auto simp: produceSysInfo_cases split: sum.splits if_splits)
  note typed = fetchSysInfo_floats [OF s]
  obtain ms where ms: "tree_of (SysInfo_json s) = TObj ms" "distinct (map fst ms)"
    "set ms = set (member_trees s)" by (rule SysInfo_tree)
  have read: "json_read b = Some (TObj ms)"
    using json_read_encode [OF _ SysInfo_json_ok [OF typed fin]] SysInfo_deep [of s]
    by (simp add: b ms(1) deep_def)
  have at: "(k, t) \<in> set (member_trees s) \<Longrightarrow> map_of ms k = Some t" for k t
    using ms by simp
  have len: "length ms = 45"
    using ms(1) by (auto simp: SysInfo_json_def)
  have floats: "\<exists>l. map_of ms k = Some (TNum l) \<and> ParseFloat l = (f, True)"
    if "(k, f) \<in> set (float_members s)" for k f
  proof -
    from that have "f \<in> set (SysInfo_floats s)" unfolding float_members_def by (rule set_zip_rightD)
    then obtain t where t: "float_text f = Some t" "ParseFloat t = (f, True)"
      using typed fin float_text_parses unfolding floats_typed_def by metis
    have "map_of ms k = Some (tree_of (json_float f))"
      using that by (intro at member_treesI)
    with t show ?thesis by (simp add: json_float_def del: float_text.simps)
  qed
  have sizes: "\<exists>l. map_of ms k = Some (TNum l) \<and> ParseUint l = Some w"
    if "(k, w) \<in> set (size_members s)" for k w
  proof -
    have "map_of ms k = Some (TNum (Itoa (uint w)))"
      using that by (intro at member_treesI)
    then show ?thesis using ParseUint_show_word [of w] by (simp add: Itoa_uint)
  qed
  have rest: "\<forall>(k, i) \<in> set (int_members s). map_of ms k = Some (TNum (Itoa i))"
    "\<forall>(k, t) \<in> set (text_members s). map_of ms k = Some (TStr (sanitize t))"
    "\<forall>(k, v) \<in> set (bool_members s). map_of ms k = Some (TBool v)"
    by (auto intro!: at member_treesI)
  from s read ms(2) len floats sizes rest show ?thesis by blast
qed

lemma zero_finite: "finite_float fzero"
  by (simp add: finite_float_def fzero_def)

text \<open>A host without a readable file, as one without /proc, still answers.\<close>

lemma unreadable_floats:
  assumes "\<And>p. \<exists>e. read_file h p = Inl e"
  shows "SysInfo_floats (sys_uptime h s) = SysInfo_floats s"
    "SysInfo_floats (sys_cpu h s) = SysInfo_floats s"
    "SysInfo_floats (sys_load h s) = SysInfo_floats s"
    "SysInfo_floats s = replicate 7 fzero \<Longrightarrow> SysInfo_floats (sys_freq h s) = replicate 7 fzero"
proof -
  have unread: "file_or d f (read_file h p) = d" for d f p
    using assms [of p] by auto
  show "SysInfo_floats (sys_uptime h s) = SysInfo_floats s"
    "SysInfo_floats (sys_cpu h s) = SysInfo_floats s"
    "SysInfo_floats (sys_load h s) = SysInfo_floats s"
    "SysInfo_floats s = replicate 7 fzero \<Longrightarrow> SysInfo_floats (sys_freq h s) = replicate 7 fzero"
    unfolding sys_uptime_def sys_cpu_def sys_load_def sys_freq_def readCPUFreqLimits_def unread
    by (simp_all add: SysInfo_floats_def Let_def fzero_def numeral_eq_Suc)
qed

lemma unreadable_fetch:
  assumes "\<And>p. \<exists>e. read_file h p = Inl e" and "fetchSysInfo h = Inr s"
  shows "SysInfo_floats s = replicate 7 fzero"
proof -
  have "SysInfo_floats (sys_start h) = replicate 7 fzero"
    by (simp add: sys_start_def zero_SysInfo_def SysInfo_floats_def numeral_eq_Suc)
  then show ?thesis using assms(2)
    by (auto simp: fetchSysInfo_def floats_frame unreadable_floats [OF assms(1)] split: option.splits)
qed

lemma bare_fetch: "\<exists>s. fetchSysInfo bare_host = Inr s \<and> SysInfo_floats s = replicate 7 fzero"
  using fetchSysInfo_alive [of bare_host] unreadable_fetch [of bare_host]
  by (auto simp: bare_host_def)

lemma sysinfo_body_exact_witness:
  "\<exists>b s ms. produceSysInfo bare_host = (b, StatusOK) \<and> json_read b = Some (TObj ms) \<and>
     fetchSysInfo bare_host = Inr s \<and> length ms = 45"
proof -
  obtain s where "fetchSysInfo bare_host = Inr s" "SysInfo_floats s = replicate 7 fzero"
    using bare_fetch by blast
  then have "produceSysInfo bare_host = (encode (SysInfo_json s), StatusOK)"
    by (simp add: produceSysInfo_cases zero_finite numeral_eq_Suc)
  with sysinfo_body_exact [OF this] show ?thesis by metis
qed

section \<open>The uptime\<close>

text \<open>The text as words, the leading units that are zero left out, and what a reader makes of it.\<close>

definition uptime_words :: "nat \<Rightarrow> nat \<Rightarrow> nat \<Rightarrow> nat \<Rightarrow> string list" where
  "uptime_words d h m s =
     map (\<lambda>(n, c). show_nat n @ [c])
       (dropWhile (\<lambda>(n, c). n = 0) [(d, CHR ''d''), (h, CHR ''h''), (m, CHR ''m'')] @ [(s, CHR ''s'')])"

definition unit_seconds :: "char \<Rightarrow> nat" where
  "unit_seconds c =
     (if c = CHR ''d'' then 86400 else if c = CHR ''h'' then 3600 else if c = CHR ''m'' then 60 else 1)"

definition read_uptime :: "string \<Rightarrow> nat" where
  "read_uptime t =
     sum_list (map (\<lambda>w. (case parse_nat (butlast w) of Some n \<Rightarrow> n | None \<Rightarrow> 0) * unit_seconds (last w))
       (Fields t))"

lemma uptime_words_visible: "\<forall>w \<in> set (uptime_words d h m s). visible_word w"
proof -
  have "visible_word (show_nat n @ [c])" if "c \<in> {CHR ''d'', CHR ''h'', CHR ''m'', CHR ''s''}" for n c
    using show_nat_visible [of n] that by (auto simp: visible_word_def visible_def)
  then show ?thesis by (simp add: uptime_words_def)
qed

lemma read_uptime_words:
  "read_uptime (Join (uptime_words d h m s) '' '') = 86400 * d + 3600 * h + 60 * m + s"
proof -
  have "uptime_words d h m s \<noteq> []" by (simp add: uptime_words_def)
  from Fields_words [OF this uptime_words_visible]
  show ?thesis by (simp add: read_uptime_def uptime_words_def unit_seconds_def parse_nat_show)
qed

lemma formatUptime_words:
  assumes "\<not> fless f 1"
  shows "formatUptime other f =
    (let n = unat (to_uint64 other f)
     in Join (uptime_words (n div 86400) (n mod 86400 div 3600) (n mod 3600 div 60) (n mod 60)) '' '')"
  using assms
  by (simp add: formatUptime_def uptime_words_def Let_def unat_div unat_mod word_less_nat_alt)

lemma seconds_split:
  "(n :: nat) = 86400 * (n div 86400) + 3600 * (n mod 86400 div 3600) + 60 * (n mod 3600 div 60) + n mod 60"
proof -
  have "n mod 86400 mod 3600 = n mod 3600" "n mod 3600 mod 60 = n mod 60"
    by (simp_all add: mod_mod_cancel)
  then show ?thesis
    using mult_div_mod_eq [of 86400 n] mult_div_mod_eq [of 3600 "n mod 86400"]
      mult_div_mod_eq [of 60 "n mod 3600"]
    by linarith
qed

lemma trunc_mag_floor: "trunc_mag m e = \<lfloor>real_of_int m * 2 powi e\<rfloor>"
proof (cases "0 \<le> e")
  case False
  then have "real_of_int m * 2 powi e = real_of_int m / real_of_int (2 ^ nat (- e))"
    by (simp add: powi_neg)
  with False show ?thesis unfolding trunc_mag_def by (simp only: floor_divide_of_int_eq if_False)
next
  case True
  then have "real_of_int m * 2 powi e = real_of_int (m * 2 ^ nat e)" by (simp add: powi_nat)
  with True show ?thesis by (simp only: trunc_mag_def if_True floor_of_int)
qed

lemma mag_less_real: "mag_less m e n 1 \<longleftrightarrow> real_of_int m * 2 powi e < real_of_int n"
proof (cases "0 \<le> e")
  case True
  then have "real_of_int m * 2 powi e = real_of_int (m * 2 ^ nat e)" by (simp add: powi_nat)
  with True show ?thesis by (simp only: mag_less_def if_True of_int_less_iff mult_1_right)
next
  case False
  have "real_of_int m < real_of_int n * 2 ^ nat (- e) \<longleftrightarrow> m < n * 2 ^ nat (- e)"
    by (metis of_int_less_iff of_int_mult of_int_numeral of_int_power)
  with False show ?thesis by (simp add: mag_less_def powi_neg divide_less_eq)
qed

lemma to_uint64_floor:
  assumes "0 \<le> real_of_int m * 2 powi e" "real_of_int m * 2 powi e < 2 ^ 64"
  shows "unat (to_uint64 other (FFin False m e)) = nat \<lfloor>real_of_int m * 2 powi e\<rfloor>"
proof -
  let ?t = "trunc_mag m e"
  have t: "0 \<le> ?t" "?t < 2 ^ 64"
    using assms unfolding trunc_mag_floor by (simp_all add: floor_less_iff)
  then have "to_uint64 other (FFin False m e) = of_int ?t" by (simp add: to_uint64_def)
  with t show ?thesis unfolding trunc_mag_floor [symmetric]
    by (simp add: unat_eq_nat_uint uint_word_of_int flip: of_int_of_nat_eq)
qed

text \<open>
  Property C30: the text of an uptime is exact to the second. For every value from one second
  to what a \<open>uint64\<close> holds, fractions dropped, the text is the days, hours, minutes and seconds
  of that many whole seconds, each below the next unit and without leading units that are
  zero, and adding up its words gives the number of seconds back.
\<close>

theorem formatUptime_exact:
  assumes "1 \<le> real_of_int m * 2 powi e" "real_of_int m * 2 powi e < 2 ^ 64"
  shows "\<exists>d h mn s. formatUptime other (FFin False m e) = Join (uptime_words d h mn s) '' '' \<and>
      h < 24 \<and> mn < 60 \<and> s < 60 \<and>
      nat \<lfloor>real_of_int m * 2 powi e\<rfloor> = 86400 * d + 3600 * h + 60 * mn + s \<and>
      read_uptime (formatUptime other (FFin False m e)) = nat \<lfloor>real_of_int m * 2 powi e\<rfloor>"
proof -
  let ?n = "nat \<lfloor>real_of_int m * 2 powi e\<rfloor>"
  have "\<not> fless (FFin False m e) 1" using assms(1) by (simp add: mag_less_real)
  from formatUptime_words [OF this, of other]
  have shown: "formatUptime other (FFin False m e) =
      Join (uptime_words (?n div 86400) (?n mod 86400 div 3600) (?n mod 3600 div 60) (?n mod 60)) '' ''"
    using assms by (simp add: to_uint64_floor Let_def)
  have bounds: "?n mod 86400 div 3600 < 24" "?n mod 3600 div 60 < 60" "?n mod 60 < 60"
    by (rule less_mult_imp_div_less, simp)+ simp
  show ?thesis
    unfolding shown read_uptime_words seconds_split [of ?n, symmetric]
    using bounds seconds_split [of ?n] by (intro exI conjI) (rule refl | assumption)+
qed

lemma formatUptime_exact_witness:
  "\<exists>d h mn s. formatUptime (\<lambda>_. 0) (FFin False 90061 0) = Join (uptime_words d h mn s) '' '' \<and>
     read_uptime (formatUptime (\<lambda>_. 0) (FFin False 90061 0)) = 90061 \<and> mn < 60"
  using formatUptime_exact [of 90061 0 "\<lambda>_. 0"] by auto

section \<open>A Linux host\<close>

text \<open>
  A number as the kernel prints it: at most as many digits as a 64-bit number has, and
  perhaps a point with digits after it.
\<close>

definition kernel_number :: "string \<Rightarrow> bool" where
  "kernel_number t \<longleftrightarrow>
     (let ip = takeWhile is_digit t in
      ip \<noteq> [] \<and> length ip \<le> 20 \<and>
      (case dropWhile is_digit t of [] \<Rightarrow> True
       | c # fs \<Rightarrow> c = CHR ''.'' \<and> fs \<noteq> [] \<and> digits fs))"

lemma round_real_finite:
  assumes "0 \<le> x" "x < 2 powi 1023"
  shows "\<exists>m e. round_real neg x = FFin neg m e"
proof (cases "x = 0")
  case False
  have "log 2 x < real_of_int e" if "x < 2 powi e" for e :: int
    using that assms(1) False by (simp add: powi_powr log_less_iff)
  from this [OF assms(2)] have "log 2 x < 1023" by simp
  then have "\<lfloor>log 2 x\<rfloor> \<le> 1022" by linarith
  then obtain e where e: "max (- 1074) (\<lfloor>log 2 x\<rfloor> - 52) = e" "e \<le> 970" by force
  then show ?thesis unfolding round_real_def Let_def e(1) using e(2) False by simp
qed (simp add: round_real_def)

lemma dval_bound: "digits ds \<Longrightarrow> 0 \<le> m \<Longrightarrow> 0 \<le> dval m ds \<and> dval m ds < (m + 1) * 10 ^ length ds"
proof (induction ds arbitrary: m)
  case (Cons c ds)
  have "is_digit c" using Cons.prems(1) by simp
  then have c: "0 \<le> dig c" "dig c \<le> 9" by (simp_all add: dig_def is_digit_range of_char_int)
  have "0 \<le> dval (10 * m + dig c) ds"
    "dval (10 * m + dig c) ds < (10 * m + dig c + 1) * 10 ^ length ds"
    using Cons.IH [of "10 * m + dig c"] Cons.prems c by simp_all
  moreover have "(10 * m + dig c + 1) * 10 ^ length ds \<le> (10 * (m + 1)) * 10 ^ length ds"
    using c by (intro mult_right_mono) auto
  moreover have "(10 * (m + 1)) * 10 ^ length ds = (m + 1) * 10 ^ length (c # ds)" by simp
  ultimately show ?case unfolding dval_simps by linarith
qed simp

lemma kernel_number_finite:
  assumes "kernel_number t" shows "snd (ParseFloat t) \<and> finite_float (fst (ParseFloat t))"
proof -
  obtain ip fs where ip: "ip \<noteq> []" "length ip \<le> 20" "digits ip" "digits fs"
    and shown: "t = dec_text ip fs None"
  proof (cases "dropWhile is_digit t")
    case Nil
    then have "takeWhile is_digit t = t" "digits t"
      by (simp_all add: dropWhile_eq_Nil_conv takeWhile_eq_all_conv digits_def)
    with assms Nil show thesis
      by (intro that [of t "[]"]) (simp_all add: kernel_number_def dec_text_def Let_def)
  next
    case (Cons c fs)
    then have "takeWhile is_digit t @ c # fs = t" by (metis takeWhile_dropWhile_id)
    moreover have "digits (takeWhile is_digit t)" by (auto simp: digits_def dest: set_takeWhileD)
    ultimately show thesis using assms Cons
      by (intro that [of "takeWhile is_digit t" fs]) (simp_all add: kernel_number_def dec_text_def Let_def)
  qed
  let ?v = "dval 0 (ip @ fs)"
  let ?x = "real_of_int ?v * 10 powi (ex_val None - int (length fs))"
  have v: "0 \<le> ?v" "?v < 10 ^ length (ip @ fs)"
    using dval_bound [of "ip @ fs" 0] ip by simp_all
  have "?x = real_of_int ?v / 10 ^ length fs"
    by (simp add: ex_val_def power_int_minus divide_inverse)
  also have "\<dots> < 10 ^ length ip"
  proof -
    have "real_of_int ?v < 10 ^ length ip * 10 ^ length fs"
      using v(2) by (metis length_append of_int_less_iff of_int_numeral of_int_power power_add)
    then show ?thesis by (simp add: divide_less_eq)
  qed
  also have "(10 :: real) ^ length ip \<le> 10 ^ 20" using ip(2) by (rule power_increasing) simp
  also have "(10 :: real) ^ 20 \<le> 2 powi 70" by (simp add: powi_nat)
  also have "(2 :: real) powi 70 \<le> 2 powi 1023" by (rule powi_mono) simp
  finally have "?x < 2 powi 1023" .
  moreover have "0 \<le> ?x" using v(1) by simp
  ultimately obtain m e where "round_real False ?x = FFin False m e" using round_real_finite by blast
  moreover have "dec_ok ip fs None" using ip by (simp add: dec_ok_def)
  ultimately have "ParseFloat t = (FFin False m e, True)" unfolding shown by (intro ParseFloat_text)
  then show ?thesis by (simp add: finite_float_def)
qed

lemma fdiv_finite:
  assumes "is_float64 f" "finite_float f" "2 \<le> d" shows "finite_float (fdiv f d)"
proof (cases f)
  case (FFin neg m e)
  have m: "0 \<le> m" "m < 2 ^ 53" "e \<le> 971" using assms(1) by (simp_all add: FFin is_float64_def fcanon_def)
  let ?x = "real_of_int m * 2 powi e / real_of_int d"
  have x: "fdiv f d = round_real neg ?x"
    using m(1) assms(3) by (simp add: FFin round64_real powi_nat powi_neg mult.commute)
  have "real_of_int m < real_of_int (2 ^ 53)" using m(2) by (simp only: of_int_less_iff)
  then have "real_of_int m * 2 powi e < 2 ^ 53 * 2 powi e" by (intro mult_strict_right_mono) simp_all
  also have "(2 :: real) ^ 53 * 2 powi e = 2 * 2 powi (52 + e)" by (simp add: power_int_add)
  finally have half: "real_of_int m * 2 powi e / 2 < 2 powi (52 + e)" by simp
  have "?x \<le> real_of_int m * 2 powi e / 2"
    using m(1) assms(3) by (intro divide_left_mono) simp_all
  also note half
  also have "(2 :: real) powi (52 + e) \<le> 2 powi 1023" using m(3) by (intro powi_mono) simp
  finally have "?x < 2 powi 1023" .
  moreover have "0 \<le> ?x" using m(1) assms(3) by simp
  ultimately show ?thesis using round_real_finite [of ?x neg] by (auto simp: x finite_float_def)
qed (use assms in \<open>simp_all add: finite_float_def\<close>)

text \<open>The files of floats in the format of the kernel, where they can be read at all.\<close>

definition kernel_format :: "host \<Rightarrow> bool" where
  "kernel_format h \<longleftrightarrow>
     file_or True (\<lambda>b. list_all kernel_number (take 1 (Fields b))) (read_file h procUptime) \<and>
     file_or True (\<lambda>b. list_all kernel_number (take 3 (Fields b))) (read_file h procLoadAvg) \<and>
     file_or True (\<lambda>b. list_all kernel_number (cpu_values ''cpu MHz'' (lines_of b)))
       (read_file h procCPUInfo) \<and>
     list_all (\<lambda>p. file_or True (\<lambda>b. kernel_number (TrimSpace b)) (read_file h p))
       [cpuFreqBase,
        cpuFreqMax,
        cpuFreqCur]"

lemma parseUptime_finite: "list_all kernel_number (take 1 (Fields b)) \<Longrightarrow> finite_float (parseUptime b)"
  using kernel_number_finite
  by (auto simp: parseUptime_def zero_finite split: list.split prod.split) (metis fst_conv)

lemma parseLoadAvg_finite:
  "list_all kernel_number (take 3 (Fields b)) \<Longrightarrow> parseLoadAvg b = (l1, l5, l15) \<Longrightarrow>
     finite_float l1 \<and> finite_float l5 \<and> finite_float l15"
  using kernel_number_finite
  by (auto simp: parseLoadAvg_def zero_finite numeral_eq_Suc split: list.splits)

lemma khzToMHz_finite: "kernel_number (TrimSpace b) \<Longrightarrow> finite_float (khzToMHz b)"
  using kernel_number_finite [of "TrimSpace b"] ParseFloat_type [of "TrimSpace b"]
  by (auto simp: khzToMHz_def fdiv_finite split: prod.split)

lemma parseCPUInfo_finite:
  assumes "list_all kernel_number (cpu_values ''cpu MHz'' (lines_of b))"
  shows "finite_float (cpu_freqMHz (parseCPUInfo b))"
proof (cases rule: parseCPUInfo_freq [of b])
  case (2 v)
  with assms have "kernel_number v" by (simp add: list_all_iff)
  from kernel_number_finite [OF this] 2(2) show ?thesis by simp
qed (simp add: zero_finite)

lemma kernel_format_floats: "kernel_format h \<Longrightarrow> floats_from finite_float h"
  by (auto simp: kernel_format_def floats_from_def zero_finite file_or_def parseUptime_finite
      parseCPUInfo_finite khzToMHz_finite split: sum.splits prod.split dest: parseLoadAvg_finite)

text \<open>
  Property C33: on Linux the endpoint does not fail. If what can be read of the uptime, the
  load averages, the processor frequencies and the cpufreq limits is in the format of the
  kernel, plain decimals of at most 20 digits before the point, then a request that is not
  cancelled is answered with 200, whatever the other files hold.
\<close>

theorem sysinfo_answers_on_linux:
  assumes "kernel_format h" and "ctx_err h = None"
  shows "snd (produceSysInfo h) = StatusOK"
proof -
  obtain s where s: "fetchSysInfo h = Inr s" using assms(2) fetchSysInfo_alive by blast
  from fetch_floats [OF kernel_format_floats [OF assms(1)] this]
  show ?thesis by (simp add: produceSysInfo_cases s list_all_iff)
qed

definition linux_host :: host where
  "linux_host = bare_host\<lparr>read_file := (\<lambda>p.
     if p = ''/proc/uptime'' then Inr ''187634.20 456789.12''
     else if p = ''/proc/loadavg'' then Inr ''0.42 0.55 0.61 2/1234 5678''
     else if p = ''/proc/cpuinfo'' then Inr ''cpu MHz : 1992.000''
     else Inl ''no such file or directory'')\<rparr>"

lemma sysinfo_answers_on_linux_witness: "snd (produceSysInfo linux_host) = 200"
proof -
  have "Fields ''187634.20 456789.12'' = [''187634.20'', ''456789.12'']"
    "Fields ''0.42 0.55 0.61 2/1234 5678'' = [''0.42'', ''0.55'', ''0.61'', ''2/1234'', ''5678'']"
    "cpu_values ''cpu MHz'' (lines_of ''cpu MHz : 1992.000'') = [''1992.000'']"
    "list_all kernel_number [''187634.20'', ''0.42'', ''0.55'', ''0.61'', ''1992.000'']"
    by code_simp+
  then have "kernel_format linux_host"
    by (simp add: kernel_format_def linux_host_def bare_host_def sysinfo_paths)
  moreover have "ctx_err linux_host = None" by (simp add: linux_host_def bare_host_def)
  ultimately show ?thesis using sysinfo_answers_on_linux [of linux_host] by (simp add: StatusOK_def)
qed

end
