(* ===== verification/Program.thy ===== *)
theory Program
  imports Session Endpoint ArcStats ZpoolGuarantees SmartGuarantees SysInfoGuarantees
begin

text \<open>
  The producers on the refresher, the refresher in the process: \<open>defaultProducers\<close> registers
  the four endpoints, and what they write is what a browser receives. The host may change
  between any two reads.
\<close>

section \<open>The registered producers\<close>

text \<open>
  The host at every instant, and for the parallel probes of SMART the host that each one sees
  and the order in which they end. \<open>get\<close> runs a producer under \<open>context.WithoutCancel\<close>, so no
  timeout of the request reaches it.
\<close>

record surroundings =
  host_at :: "instant \<Rightarrow> host"
  probe_host :: "instant \<Rightarrow> nat \<Rightarrow> host"
  probe_order :: "instant \<Rightarrow> nat \<Rightarrow> nat list"

definition defaultProducers :: "surroundings \<Rightarrow> key \<rightharpoonup> producer" where
  "defaultProducers w = map_of
     [(''zpool'', \<lambda>t. produceZpool [] (host_at w t)),
      (''arc'', \<lambda>t. produceARC (host_at w t)),
      (''sysinfo'', \<lambda>t. produceSysInfo (host_at w t)),
      (''smart'', \<lambda>t. produceSmart [] (host_at w t) (probe_host w t) (probe_order w t))]"

lemma defaultProducers_routes: "dom (defaultProducers w) = set (map snd api_routes)"
  by (auto simp: defaultProducers_def api_routes_def dom_def split: if_splits)

section \<open>The text of a response\<close>

text \<open>One JSON value and nothing after it, whatever its depth.\<close>

definition json_text :: "string \<Rightarrow> bool" where
  "json_text b \<longleftrightarrow> (case read_value (json_fuel b) b of Some (_, r) \<Rightarrow> r = [] | None \<Rightarrow> False)"

lemma json_text_encode: "json_ok j \<Longrightarrow> json_text (encode j)"
proof -
  let ?n = "max (value_fuel j) (json_fuel (encode j))"
  assume "json_ok j"
  then have "read_value ?n (encode j @ []) = Some (tree_of j, [])"
    by (intro read_value_encode) (simp_all add: value_end_def)
  then have "read_value (json_fuel (encode j)) (encode j) = Some (tree_of j, [])"
    using read_fuel_enough [of "encode j" ?n] by simp
  then show ?thesis by (simp add: json_text_def)
qed

lemma errBody_json: "json_text (errBody m)"
  unfolding errBody_def by (rule json_text_encode) simp

definition sound_response :: "body \<times> status \<Rightarrow> bool" where
  "sound_response a \<longleftrightarrow> json_text (fst a) \<and> snd a \<in> {StatusOK, StatusInternalServerError}"

lemma produceZpool_sound: "sound_response (produceZpool ctx h)"
  by (simp add: sound_response_def produceZpool_def errBody_json json_text_encode zpool.enc_ok split: sum.split)

lemma produceARC_sound: "sound_response (produceARC h)"
proof -
  have "json_ok (ARCMetrics_json m)" for m by (simp add: ARCMetrics_json_def)
  then show ?thesis
    by (simp add: sound_response_def produceARC_def errBody_json json_text_encode split: sum.split)
qed

lemma produceSysInfo_sound: "sound_response (produceSysInfo h)"
  using SysInfo_json_ok [OF fetchSysInfo_floats]
  by (simp add: sound_response_def produceSysInfo_cases errBody_json json_text_encode split: sum.split)

lemma produceSmart_sound: "sound_response (produceSmart ctx h hs sched)"
  by (simp add: sound_response_def produceSmart_def SmartReport_ok json_text_encode)

lemma defaultProducers_sound: "defaultProducers w k = Some p \<Longrightarrow> sound_response (p t)"
  by (auto simp: defaultProducers_def produceZpool_sound produceARC_sound produceSysInfo_sound
      produceSmart_sound split: if_splits)

section \<open>The cache inside the process\<close>

text \<open>Whatever the gate does, its process makes only the refresher's own moves.\<close>

lemma process_cache_reach:
  "process_reach ps procs gc t ex s \<Longrightarrow> refresh_reach (rsys_start ps t) (cache (world s))"
proof (induction rule: gate_reach.induct)
  case reach_start
  have "cache (world (gate_boot sessions_sleepFn procs gc t (process_start ps t procs gc) ex)) =
      session_sleep (rsys_start ps t)"
    by (simp add: run_defs process_defs process_start_def)
  moreover have "refresh_reach (rsys_start ps t) (session_sleep (rsys_start ps t))"
    by (rule refresh_step [OF refresh_start, of GoToSleep]) simp
  ultimately show ?case by simp
next
  case (reach_step s a u)
  let ?from = "refresh_reach (rsys_start ps t)"
  have hooks: "?from (cache p) \<Longrightarrow> ?from (cache (sessions_wakeFn procs gc p))"
    "?from (cache p) \<Longrightarrow> ?from (cache (sessions_sleepFn p))" for p
    by (auto simp: process_defs intro: refresh_step [where m = WakeUp] refresh_step [where m = GoToSleep])
  have bg: "?from (cache p')" if "cache_background e p = Some p'" "?from (cache p)" for e p p'
    using that by (auto elim!: cache_backgroundE intro: refresh_step [where m = "Work a" for a])
  have req: "?from (cache p')" if "cache_request e p = Some p'" "?from (cache p)" for e p p'
    using that
    by (auto elim!: cache_requestE intro: refresh_step [where m = "Enter k" for k] simp: request_get_def)
  from reach_step.hyps(3) reach_step.IH show ?case
    by (cases rule: gate_exec_cases) (auto simp: gate_simps hooks split: if_splits intro: bg req)
qed

section \<open>What a browser receives\<close>

text \<open>
  Property C3: every response of the API is sound, in every interleaving of connections,
  timers, sessions, requests and fetches, and however the host changes meanwhile. The body
  that a caller gets for one of the API keys is one JSON text, its status is 200, 500 or 503
  and never 404, and a body with 200 or 500 was made by the producer of that key from the
  host as it was at an instant that is not in the future.
\<close>

theorem api_answers_sound:
  assumes "process_reach (defaultProducers w) procs gc t ex s"
    and "answers (cache (world s)) n = Some (k, b, st)" and "k \<in> set (map snd api_routes)"
  shows "json_text b \<and> st \<in> {StatusOK, StatusInternalServerError, StatusServiceUnavailable} \<and>
    (st \<noteq> StatusServiceUnavailable \<longrightarrow>
      (\<exists>p u. defaultProducers w k = Some p \<and> u \<le> rclock (cache (world s)) \<and> p u = (b, st)))"
proof -
  have r: "refresh_reach (rsys_start (defaultProducers w) t) (cache (world s))"
    by (rule process_cache_reach [OF assms(1)])
  have known: "defaultProducers w k \<noteq> None"
    using assms(3) unfolding defaultProducers_routes [of w, symmetric] by (simp add: dom_def)
  note prods = process_producers [OF assms(1)]
  from answers_are_made [OF r assms(2)] show ?thesis
  proof
    assume "\<exists>p u. defaultProducers w k = Some p \<and> u \<le> rclock (cache (world s)) \<and> p u = (b, st)"
    moreover from this have "sound_response (b, st)" using defaultProducers_sound by metis
    ultimately show ?thesis by (auto simp: sound_response_def)
  next
    assume "refusal (cache (world s)) k b st"
    with known prods show ?thesis by (auto simp: refusal_def errBody_json)
  qed
qed

text \<open>A visit in which the ARC endpoint is asked for and answers.\<close>

definition arc_visit :: "cache_event gact list" where
  "arc_visit = [Accept 1, AcceptLock, AcceptLock, Request 1 (Get ''arc''),
     Background (Goroutine (RProduce 0)), Background (Goroutine (RStore 0)),
     Background (Goroutine (RRemove 0)), Background (Goroutine (RClose 0)),
     Background (Goroutine (RDone 0))]"

lemma arc_visit_reach:
  "\<exists>s. process_reach (defaultProducers w) 4 100 0 False s \<and>
     answers (cache (world s)) 0 = Some (''arc'', produceARC (host_at w 0))"
proof -
  let ?run = "gate_run (sessions_wakeFn 4 100) sessions_sleepFn cache_background cache_request"
  let ?s0 = "gate_boot sessions_sleepFn 4 100 0 (process_start (defaultProducers w) 0 4 100) False"
  have "\<exists>s. ?run arc_visit ?s0 = Some s \<and>
      answers (cache (world s)) 0 = Some (''arc'', produceARC (host_at w 0))"
    by (simp add: arc_visit_def run_defs process_defs process_start_def rsys_start_def newRefresher_def
        refresher.extend_def rsys.fields_def session_sleep_def session_wake_def setActive_def
        request_get_def call_get_def get_locked_def stop_is_closed_def on_fetch_def set_pc_def
        fetch_store_def fetch_publish_def fetch_remove_def fetch_close_def answer_def
        defaultProducers_def)
  then show ?thesis using gate_run_reach [OF _ reach_start] by blast
qed

definition bare_surroundings :: surroundings where
  "bare_surroundings =
     \<lparr>host_at = (\<lambda>_. bare_host), probe_host = (\<lambda>_ _. bare_host), probe_order = (\<lambda>_ n. [0..<n])\<rparr>"

lemma api_answers_sound_witness:
  "\<exists>s b st. process_reach (defaultProducers bare_surroundings) 4 100 0 False s \<and>
     answers (cache (world s)) 0 = Some (''arc'', b, st) \<and> json_text b"
proof -
  let ?w = bare_surroundings
  obtain s where s: "process_reach (defaultProducers ?w) 4 100 0 False s"
    "answers (cache (world s)) 0 = Some (''arc'', fst (produceARC (host_at ?w 0)), snd (produceARC (host_at ?w 0)))"
    using arc_visit_reach [of ?w] by auto
  have "''arc'' \<in> set (map snd api_routes)" by (simp add: api_routes_def)
  from api_answers_sound [OF s this] s show ?thesis by blast
qed

end
