(* ===== verification/NetFacts.thy ===== *)
theory NetFacts
  imports SysText
begin

text \<open>
  The network scrapers and the host name of \<open>sysinfo.go\<close>: the interface of the default
  route, the address found in the FIB trie, and the fully-qualified name.
\<close>

section \<open>Tables\<close>

definition tab :: char where
  "tab = CHR 0x09"

definition tab_row :: "string list \<Rightarrow> string" where
  "tab_row ws = concat (map (\<lambda>w. w @ [tab]) ws)"

lemma Fields_tab_row: "\<forall>w \<in> set ws. visible_word w \<Longrightarrow> Fields (tab_row ws) = ws"
proof (induction ws)
  case Nil
  show ?case by (simp add: tab_row_def)
next
  case (Cons w ws)
  have "ascii_space tab" by (simp add: tab_def ascii_space_def)
  with Cons show ?case
    by (simp add: Fields_def tab_row_def fields_from_word fields_from_space visible_word_def)
qed

lemma tab_row_no_newline: "\<forall>w \<in> set ws. visible_word w \<Longrightarrow> newline \<notin> set (tab_row ws)"
  using visible_no_newline by (auto simp: tab_row_def tab_def newline_def)

lemma ascii_lower_zero: "ascii_lower c = CHR ''0'' \<longleftrightarrow> c = CHR ''0''"
proof
  assume low: "ascii_lower c = CHR ''0''"
  let ?n = "of_char c :: nat"
  show "c = CHR ''0''"
  proof (cases "65 \<le> ?n \<and> ?n \<le> 90")
    case True
    then have "char_of (?n + 32) = CHR ''0''" using low by (simp add: ascii_lower_def Let_def)
    then have "(of_char (char_of (?n + 32) :: char) :: nat) = 48" by simp
    with True show ?thesis by (simp add: of_char_of)
  next
    case False
    with low show ?thesis by (auto simp: ascii_lower_def Let_def split: if_splits)
  qed
qed (simp add: ascii_lower_def)

lemma lower_zeros: "map ascii_lower w = replicate n (CHR ''0'') \<longleftrightarrow> w = replicate n (CHR ''0'')"
proof (induction n arbitrary: w)
  case (Suc n)
  then show ?case by (cases w) (simp_all add: ascii_lower_zero)
qed simp

lemma EqualFold_zeros: "EqualFold w ''00000000'' \<longleftrightarrow> w = ''00000000''"
proof -
  have eight: "''00000000'' = replicate 8 (CHR ''0'')" by (simp add: numeral_eq_Suc)
  have low: "map ascii_lower (replicate 8 (CHR ''0'')) = replicate 8 (CHR ''0'')"
    by (simp only: lower_zeros)
  show ?thesis unfolding eight EqualFold_def low by (rule lower_zeros)
qed

section \<open>The default route\<close>

definition default_row :: "string list \<Rightarrow> bool" where
  "default_row ws \<longleftrightarrow> 4 \<le> length ws \<and> ws ! 1 = ''00000000''"

lemma route_lines_rows:
  "\<forall>ws \<in> set rows. \<forall>w \<in> set ws. visible_word w \<Longrightarrow>
   route_lines (map tab_row rows @ [[]]) =
     (case find default_row rows of None \<Rightarrow> [] | Some ws \<Rightarrow> ws ! 0)"
proof (induction rows)
  case Nil
  show ?case by (simp add: Let_def)
next
  case (Cons ws rows)
  then show ?case by (auto simp: Fields_tab_row default_row_def EqualFold_zeros Let_def not_less)
qed

text \<open>
  The interface of the default route. In a routing table printed as the
  kernel prints it, a header and one tab-separated row per route, the result is the
  interface of the first row with at least four columns whose destination is 00000000,
  and empty when there is none.
\<close>

theorem default_route_found:
  assumes "newline \<notin> set hdr" and "\<forall>ws \<in> set rows. \<forall>w \<in> set ws. visible_word w"
  shows "parseDefaultRoute (file_of (hdr # map tab_row rows)) =
    (case find (\<lambda>ws. 4 \<le> length ws \<and> ws ! 1 = ''00000000'') rows of None \<Rightarrow> [] | Some ws \<Rightarrow> ws ! 0)"
proof -
  have "lines_of (file_of (hdr # map tab_row rows)) = hdr # map tab_row rows @ [[]]"
    using assms tab_row_no_newline by (subst lines_of_file) auto
  moreover have "find default_row rows =
      find (\<lambda>ws. 4 \<le> length ws \<and> ws ! 1 = ''00000000'') rows"
    by (simp add: default_row_def [abs_def])
  ultimately show ?thesis
    using route_lines_rows [OF assms(2)] by (simp add: parseDefaultRoute_def Let_def)
qed

lemma default_route_found_witness:
  "parseDefaultRoute (file_of (''Iface Destination'' # map tab_row
     [[''lo'', ''0000007F'', ''00000000'', ''0001''], [''eth0'', ''00000000'', ''0100A8C0'', ''0003'']])) =
   ''eth0''"
  by (subst default_route_found)
    (simp_all add: newline_def visible_word_def visible_def)

section \<open>The address\<close>

text \<open>A block of the trie: the line of an address, and the lines up to the next one.\<close>

definition fib_block :: "nat \<times> string \<times> string list \<Rightarrow> string list" where
  "fib_block b = (case b of (pad, ip, marks) \<Rightarrow>
     (replicate pad (CHR '' '') @ ''|-- '' @ ip) # marks)"

definition fib_block_ok :: "nat \<times> string \<times> string list \<Rightarrow> bool" where
  "fib_block_ok b = (case b of (pad, ip, marks) \<Rightarrow> visible_word ip \<and>
     (\<forall>m \<in> set marks. newline \<notin> set m \<and> Cut m ''|--'' = None))"

definition usable_block :: "nat \<times> string \<times> string list \<Rightarrow> bool" where
  "usable_block b = (case b of (pad, ip, marks) \<Rightarrow>
     (\<exists>m \<in> set marks. Contains m ''host LOCAL'') \<and>
     ip \<noteq> ''0.0.0.0'' \<and> \<not> prefix ''127.'' ip)"

lemma Cut_padded:
  "Cut (replicate n (CHR '' '') @ ''|--'' @ s) ''|--'' = Some (replicate n (CHR '' ''), s)"
  by (induction n) simp_all

lemma fib_lines_skip:
  assumes "\<forall>m \<in> set marks. Cut m ''|--'' = None"
    and "ip = [] \<or> ip = ''0.0.0.0'' \<or> prefix ''127.'' ip \<or> (\<forall>m \<in> set marks. \<not> Contains m ''host LOCAL'')"
  shows "fib_lines ip (marks @ ls) = fib_lines ip ls"
  using assms by (induction marks) (auto simp: HasPrefix_def)

lemma fib_lines_hit:
  assumes "\<forall>m \<in> set marks. Cut m ''|--'' = None" and "ip \<noteq> []" "ip \<noteq> ''0.0.0.0''" "\<not> prefix ''127.'' ip"
    and "\<exists>m \<in> set marks. Contains m ''host LOCAL''"
  shows "fib_lines ip (marks @ ls) = ip"
  using assms by (induction marks) (auto simp: HasPrefix_def)

lemma fib_lines_block:
  assumes "fib_block_ok b"
  shows "fib_lines cur (fib_block b @ ls) =
    (if usable_block b then fst (snd b) else fib_lines (fst (snd b)) ls)"
proof -
  obtain pad ip marks where b: "b = (pad, ip, marks)" by (cases b)
  have ip: "ip \<noteq> []" "TrimSpace (CHR '' '' # ip) = ip"
    using assms by (auto simp: b fib_block_ok_def visible_word_def TrimSpace_blank_word)
  have marks: "\<forall>m \<in> set marks. Cut m ''|--'' = None" using assms by (simp add: b fib_block_ok_def)
  have "fib_lines cur (fib_block b @ ls) = fib_lines ip (marks @ ls)"
    using Cut_padded [of pad "CHR '' '' # ip"] ip(2) by (simp add: b fib_block_def)
  then show ?thesis
    using fib_lines_hit [OF marks ip(1), of ls] fib_lines_skip [OF marks, of ip ls]
    by (auto simp: b usable_block_def)
qed

lemma fib_lines_blocks:
  "\<forall>b \<in> set bs. fib_block_ok b \<Longrightarrow>
   fib_lines cur (concat (map fib_block bs) @ [[]]) =
     (case find usable_block bs of None \<Rightarrow> [] | Some b \<Rightarrow> fst (snd b))"
proof (induction bs arbitrary: cur)
  case Nil
  show ?case by (simp add: Contains_def)
next
  case (Cons b bs)
  then show ?case by (simp add: fib_lines_block)
qed

text \<open>
  The address that is shown. In a FIB trie printed as the kernel prints it,
  the result is the first address that some line before the next address marks as
  host LOCAL, among those that are neither 0.0.0.0 nor in 127/8; never a loopback address,
  and empty when no address qualifies.
\<close>

theorem local_address_found:
  assumes "\<forall>b \<in> set bs. fib_block_ok b"
    and "\<forall>m \<in> set hdr. newline \<notin> set m \<and> Cut m ''|--'' = None"
  shows "parseIPv4ForIface (file_of (hdr @ concat (map fib_block bs))) iface =
    (case find usable_block bs of None \<Rightarrow> [] | Some b \<Rightarrow> fst (snd b))"
proof -
  have "newline \<notin> set l" if "b \<in> set bs" "l \<in> set (fib_block b)" for b l
    using that assms(1) visible_no_newline by (fastforce simp: fib_block_def fib_block_ok_def newline_def)
  then have "lines_of (file_of (hdr @ concat (map fib_block bs))) =
      hdr @ concat (map fib_block bs) @ [[]]"
    using assms(2) by (subst lines_of_file) auto
  moreover have "fib_lines [] (hdr @ concat (map fib_block bs) @ [[]]) =
      fib_lines [] (concat (map fib_block bs) @ [[]])"
    using assms(2) by (intro fib_lines_skip) auto
  ultimately show ?thesis using fib_lines_blocks [OF assms(1)] by (simp add: parseIPv4ForIface_def)
qed

lemma local_address_found_witness:
  "parseIPv4ForIface (file_of ([''Main:''] @ concat (map fib_block
     [(5, ''127.0.0.1'', [''/32 host LOCAL'']), (5, ''10.0.0.0'', [''/24 link UNICAST'']),
      (5, ''10.0.0.9'', [''/32 host LOCAL''])]))) ''eth0'' = ''10.0.0.9''"
  by (subst local_address_found)
    (auto simp: fib_block_ok_def usable_block_def visible_word_def visible_def newline_def Contains_def)

section \<open>The host name\<close>

definition plain_name :: "string \<Rightarrow> bool" where
  "plain_name n \<longleftrightarrow> visible_word n \<and> last n \<noteq> CHR ''.''"

lemma TrimSuffix_plain: "plain_name n \<Longrightarrow> TrimSuffix n ''.'' = n"
  by (cases n rule: rev_cases) (auto simp: TrimSuffix_def HasSuffix_iff plain_name_def)

text \<open>
  The fully-qualified name. For a host and a domain name without a final
  dot, the result is the host name itself or the host name, a dot and the domain; it is
  the domain or ends in a dot and the domain; and qualifying it once more changes nothing.
\<close>

theorem fqdn_qualified:
  assumes "plain_name h" and "plain_name d" and "d \<noteq> ''none''" and "d \<noteq> ''(none)''"
  shows "fqdn h d \<in> {h, h @ ''.'' @ d} \<and> (fqdn h d = d \<or> (\<exists>p. fqdn h d = p @ ''.'' @ d)) \<and>
    fqdn (fqdn h d) d = fqdn h d"
proof -
  have trims: "TrimSuffix (TrimSpace n) ''.'' = n" if "plain_name n" for n
    using that TrimSuffix_plain by (simp add: plain_name_def TrimSpace_word)
  have ne: "h \<noteq> []" "d \<noteq> []" using assms by (auto simp: plain_name_def visible_word_def)
  have eq: "fqdn n d = (if n = d \<or> HasSuffix n (''.'' @ d) then n else n @ ''.'' @ d)"
    if "plain_name n" for n
    using trims [OF that] trims [OF assms(2)] assms(3,4) ne(2) that
    by (auto simp: fqdn_def Let_def plain_name_def visible_word_def)
  have "plain_name (h @ ''.'' @ d)"
    using assms(1,2) by (auto simp: plain_name_def visible_word_def visible_def)
  moreover have "HasSuffix (h @ ''.'' @ d) (''.'' @ d)" by (auto simp: HasSuffix_iff)
  ultimately show ?thesis using eq [OF assms(1)] eq [of "h @ ''.'' @ d"] by (auto simp: HasSuffix_iff)
qed

lemma fqdn_qualified_witness:
  "fqdn ''nas'' ''example.com'' \<in> {''nas'', ''nas'' @ ''.'' @ ''example.com''} \<and>
   fqdn (fqdn ''nas'' ''example.com'') ''example.com'' = fqdn ''nas'' ''example.com''"
  using fqdn_qualified [of "''nas''" "''example.com''"]
  by (auto simp: plain_name_def visible_word_def visible_def)

end
