(* ===== verification/Fixtures.thy ===== *)
theory Fixtures
  imports SysInfoGuarantees NetFacts
begin

text \<open>
  The sample files of \<open>testdata\<close> and the results that the tests of \<open>sysinfo_test.go\<close> expect
  of some of them, evaluated in the model.
\<close>

section \<open>The files\<close>

definition os_release_file :: string where
  "os_release_file = file_of
     [''NAME=NixOS'',
      ''ID=nixos'',
      ''VERSION='' @ [quote] @ ''23.11 (Tapir)'' @ [quote],
      ''VERSION_CODENAME=tapir'',
      ''PRETTY_NAME='' @ [quote] @ ''NixOS 23.11.1234 (Tapir)'' @ [quote],
      ''HOME_URL='' @ [quote] @ ''https://nixos.org/'' @ [quote],
      ''DOCUMENTATION_URL='' @ [quote] @ ''https://nixos.org/learn.html'' @ [quote],
      ''SUPPORT_URL='' @ [quote] @ ''https://nixos.org/community.html'' @ [quote],
      ''BUG_REPORT_URL='' @ [quote] @ ''https://github.com/NixOS/nixpkgs/issues'' @ [quote]]"

definition route_file :: string where
  "route_file = file_of
     [''Iface   Destination Gateway     Flags   RefCnt  Use     Metric  Mask    MTU     Window  IRTT'',
      ''enp2s0f0 00000000 02020A0A     0003    0       0       100     00000000 0       0       0'',
      ''enp2s0f0 00020A0A 00000000     0001    0       0       100     00FFFFFF 0       0       0'',
      ''lo      0000007F 00000000     0001    0       0       0       0000007F 0       0       0'']"

definition fib_trie_file :: string where
  "fib_trie_file = file_of
     [''Main:'',
      ''  +-- 0.0.0.0/0 3 0 0'',
      ''     |-- 0.0.0.0'',
      ''        /0 0 0 0'',
      ''     |-- 127.0.0.1'',
      ''        /32 host LOCAL'',
      ''     |-- 10.20.0.99'',
      ''        /32 host LOCAL'',
      ''     |-- 10.20.0.255'',
      ''        /32 host LOCAL'',
      ''     |-- 10.20.0.0'',
      ''        /23 2 0 2'']"

section \<open>What the tests expect\<close>

lemma os_release_sample:
  "parseOSRelease os_release_file =
     \<lparr>os_id = ''nixos'', os_pretty = ''NixOS 23.11.1234 (Tapir)'', os_version = ''23.11 (Tapir)'',
      os_codename = ''tapir'', os_variant = [], os_buildID = []\<rparr>"
  by code_simp

lemma route_sample: "parseDefaultRoute route_file = ''enp2s0f0''"
  by code_simp

lemma fib_trie_sample: "parseIPv4ForIface fib_trie_file ''enp2s0f0'' = ''10.20.0.99''"
  by code_simp

lemma uptime_sample:
  "formatUptime (\<lambda>_. 0) (parseUptime ''187634.20 456789.12'') = ''2d 4h 7m 14s''"
  by code_simp

lemma uptime_samples:
  "map (\<lambda>t. formatUptime (\<lambda>_. 0) (fst (ParseFloat t))) [''0'', ''0.4'', ''45'', ''120'', ''3661'', ''90061'', ''190800''] =
     [em_dash, em_dash, ''45s'', ''2m 0s'', ''1h 1m 1s'', ''1d 1h 1m 1s'', ''2d 5h 0m 0s'']"
  by code_simp

end
