(* ===== verification/Spec2Isabelle.thy ===== *)
theory Spec2Isabelle
  imports GateRuns Listener Program NetFacts Fixtures
begin

text \<open>
  A model of zdash, the read-only dashboard server for ZFS hosts, from the sockets it is
  given to the bytes of its JSON bodies. The program is an HTTP server that parks itself when
  nobody looks: a gate counts connections and puts the process into deep sleep
  (\<open>idle.go\<close>); a refresher caches the responses of four producers while a session lasts
  (\<open>refresher.go\<close>); the producers read the host (\<open>arc.go\<close>, \<open>sysinfo.go\<close>), run \<open>zpool\<close>
  (\<open>api.go\<close>) or run \<open>smartctl\<close> (\<open>smart.go\<close>); \<open>main\<close> binds or adopts the socket
  (\<open>listener.go\<close>, \<open>listener_linux.go\<close>) and serves. The parts meet in three places: the
  gate calls the refresher and the Go runtime when it falls asleep and wakes (\<open>init\<close> of
  \<open>idle.go\<close>), the handlers ask the refresher, and the refresher runs the producers.

  The gate. \<open>IdleGate\<close> has the state of \<open>idleGate\<close> as the record \<open>gate\<close>, its timers and
  connection set included, and every method as a function on it; what the callbacks act on
  is the field \<open>world\<close>. \<open>GateRuns\<close> runs it one call at a time, \<open>GateSteps\<close> as a step
  relation in which the server's calls, the accepts and the timers interleave at every
  lock boundary; \<open>GateSafety\<close> and \<open>GateHooks\<close> prove the invariants of the reachable states,
  the latter inside locales that abstract from what the callbacks do. Two of the theorems
  (\<open>session_cap_lost\<close>, \<open>session_end_misses_accept\<close>) are runs in which the four-minute cap is
  lost.

  The refresher. \<open>Refresher\<close> has the cache, the calls in flight and every critical section
  of \<open>get\<close>, \<open>wait\<close>, \<open>setActive\<close> and \<open>refreshAll\<close>; \<open>RefresherSteps\<close> interleaves any number of
  callers, fetch goroutines and loops; \<open>RefresherSafety\<close> holds the invariant,
  \<open>RefresherGuarantees\<close> what follows from it (single flight, freshness by session, no waiter
  left behind), \<open>RefresherAlone\<close> the refinement of an abstract throttle by a caller that is
  alone. Generations are 64-bit words: statements that compare them across sessions assume
  fewer than \<open>2^64\<close> ended sessions. \<open>Session\<close> composes gate, refresher and runtime profile
  into one process, as \<open>init\<close> does, and this theory adds \<open>main\<close>. \<open>Listener\<close> and \<open>Endpoint\<close>
  model the socket rules and the HTTP side.

  The producers. \<open>Host\<close> is the host as a record: files, environment, clock, and the programs
  it runs, with what they print; a producer is a function of it. \<open>ArcStats\<close>, \<open>SysText\<close>,
  \<open>SysFacts\<close> and \<open>NetFacts\<close> model the text parsers and prove that they read back what the
  kernel prints; \<open>LineScan\<close> is the scanner they share, as a locale. \<open>SysInfo\<close> has the parsers
  of numbers with a fraction, the record of a host snapshot, \<open>fetchSysInfo\<close> block by block and
  its producer; \<open>SysInfoFacts\<close> and \<open>SysInfoGuarantees\<close> prove that the body carries the snapshot
  exactly, when the endpoint fails, and that the text of the uptime is exact; \<open>Fixtures\<close> runs
  sample files of the tests. \<open>Zpool\<close> and \<open>Smart\<close>
  (with \<open>SmartRaw\<close>) model the two endpoints that pass on the JSON of a subprocess, from its
  bytes to the bytes of the body; \<open>ZpoolCodec\<close>, \<open>ZpoolGuarantees\<close> and \<open>SmartGuarantees\<close>
  prove what survives on the way. The goroutines that probe the disks are taken in every
  order in which they can end.

  The standard library. \<open>GoText\<close> and \<open>GoConv\<close> model what is used of \<open>strings\<close> and
  \<open>strconv\<close>; \<open>GoJson\<close> is the encoder of \<open>encoding/json\<close>, \<open>GoJsonRead\<close> its reader,
  \<open>GoJsonRound\<close> the proof that the reader inverts the encoder, \<open>GoJsonDecode\<close> the decoding
  into Go types and \<open>GoCodec\<close> the contract between a decoder and its encoder, a locale that
  is interpreted for every type of the zpool report and for the NVMe log. \<open>GoFloat\<close> is
  \<open>float64\<close> as far as zdash uses it, with \<open>ParseFloat\<close> and the shortest decimal of JSON;
  \<open>GoFloatReal\<close> proves that its rounding is the nearest value of the exact real number, and
  \<open>GoFloatText\<close> that the decimal of every finite value is a JSON number that is read back as
  the same value.

  The whole. \<open>Program\<close> registers the four producers (\<open>defaultProducers\<close>), shows that the
  process makes only moves of the refresher's own step relation, and proves that every
  response of the API is sound however the host changes.

  Bounds. The JSON reader recurses with fuel \<open>json_fuel\<close>, two units for each byte and two
  more, which is enough for every text (\<open>read_fuel_enough\<close>); like \<open>encoding/json\<close> it
  rejects more than 10000 levels. The decoder of nested vdevs takes the depth of its tree as
  fuel, which is enough (\<open>dec_vdev_fuel\<close>). The shortest decimal of a float is searched up to 17
  digits, which are always enough (\<open>shortest_exists\<close>). Every other recursion is on its data.

  Not modelled: the page \<open>embed/index.html\<close> itself, log output (with \<open>listenerAddr\<close>, which
  only feeds it), the timeouts inside \<open>net/http\<close>, the texts of JSON errors and what the
  subprocesses print (parameters), the conversion of a float out of the range of \<open>uint64\<close>
  (a parameter, as Go leaves it to the platform), a producer that panics, tests and packaging.
\<close>

section \<open>The start of the program\<close>

text \<open>
  \<open>main\<close> up to \<open>srv.Serve\<close>: the listener, \<open>ExitOnIdle\<close> when the environment asks for it,
  and \<open>BootSleep\<close>. The \<open>init\<close> of \<open>idle.go\<close> has read \<open>GOGC\<close> and the number of threads
  before. A failing \<open>Listen\<close> ends the process through \<open>log.Fatalf\<close>.
\<close>

definition bind_addr :: "'l net_env \<Rightarrow> string" where
  "bind_addr e = (if lenv e ''BIND_ADDR'' = [] then ''127.0.0.1:8080'' else lenv e ''BIND_ADDR'')"

definition main_start ::
  "platform \<Rightarrow> 'l net_env \<Rightarrow> (key \<rightharpoonup> producer) \<Rightarrow> int \<Rightarrow> instant \<Rightarrow> fd_state \<Rightarrow>
   listen_error + 'l \<times> process gsys" where
  "main_start os e ps procs t s =
     (case fst (Listen os e (bind_addr e) s) of
        Inl err \<Rightarrow> Inl err
      | Inr skt \<Rightarrow>
          Inr (skt, gate_boot sessions_sleepFn procs (envGOGC (lenv e ''GOGC'')) t
                     (process_start ps t procs (envGOGC (lenv e ''GOGC'')))
                     (lenv e ''EXIT_ON_IDLE'' = ''1'')))"

section \<open>Guarantees across the components\<close>

text \<open>
  Property C2: a request on a served connection is never turned away for the session. In
  every reachable state of the whole process, a handler on a connection that is being
  served can ask the cache for a key that has a producer, and it then holds the body of a
  cache entry or waits for a fetch of that key that is under way; the response "session
  ended" is not given at that point. So the gate wakes the refresher before it lets a
  connection be served and never parks it under one.
\<close>

theorem served_request_not_refused:
  assumes "process_reach ps procs gc t ex s" and "c \<in> served s" and "ps k \<noteq> None"
  shows "\<exists>u. gate_exec (sessions_wakeFn procs gc) sessions_sleepFn cache_background cache_request
      (Request c (Get k)) s = Some u \<and>
    ((\<exists>e. entries (cache (world s)) k = Some e \<and>
        answers (cache (world u)) (next_caller (cache (world s))) =
          Some (k, entry_body e, entry_status e)) \<or>
     (\<exists>w f. waiters (cache (world u)) (next_caller (cache (world s))) = Some w \<and> waiter_key w = k \<and>
        fetches (cache (world u)) (waiter_call w) = Some f \<and> fetch_key f = k \<and>
        fetch_pc f \<noteq> Removed))"
proof -
  let ?r = "cache (world s)"
  have on: "awake_profile procs gc (world s)"
    using proc.served_on [OF assms(1) fresh_process_start assms(2)] .
  have inv: "refresh_inv ?r" and act: "active ?r" using on by (simp_all add: awake_profile_def)
  have known: "producers ?r k \<noteq> None" using process_producers [OF assms(1)] assms(3) by simp
  have open_stop: "\<not> stop_is_closed ?r"
    using inv act by (auto simp: refresh_inv_def chan_inv_def stop_is_closed_def split: option.splits)
  let ?u = "s\<lparr>world := (world s)\<lparr>cache := call_get False k ?r\<rparr>\<rparr>"
  have step: "gate_exec (sessions_wakeFn procs gc) sessions_sleepFn cache_background cache_request
      (Request c (Get k)) s = Some ?u" using assms(2) by (simp add: request_get_def)
  from call_get_admitted [OF inv known open_stop, of False]
  show ?thesis by (intro exI [of _ ?u] conjI [OF step]) simp
qed

lemma served_request_not_refused_witness:
  "\<exists>s u. process_reach sample_producers 4 100 0 False s \<and>
     gate_exec (sessions_wakeFn 4 100) sessions_sleepFn cache_background cache_request
       (Request 1 (Get ''arc'')) s = Some u \<and> served s = {1}"
proof -
  obtain s where s: "process_reach sample_producers 4 100 0 False s" "served s = {1}"
    using process_visit(1) by blast
  have "sample_producers ''arc'' \<noteq> None" by (simp add: sample_producers_def)
  with served_request_not_refused [OF s(1), of 1 "''arc''"] s show ?thesis by auto
qed

text \<open>
  Property C38: the program starts parked. Whenever \<open>main\<close> reaches its accept loop, the
  socket is the one the listener rules give, the gate sleeps, no session has been opened
  and nothing has been fetched; under \<open>EXIT_ON_IDLE\<close> the process has not exited either,
  so the connection that activated it is served.
\<close>

theorem main_starts_parked:
  assumes "main_start os e ps procs t s = Inr (skt, g)"
  shows "fst (Listen os e (bind_addr e) s) = Inr skt \<and> sleeping g \<and> \<not> exited g \<and>
    \<not> active (cache (world g)) \<and> fetches (cache (world g)) = Map.empty \<and>
    entries (cache (world g)) = Map.empty \<and> gomaxprocs (world g) = 1 \<and> gcPercent (world g) = - 1 \<and>
    exitOnIdle g = (lenv e ''EXIT_ON_IDLE'' = ''1'')"
proof -
  let ?gc = "envGOGC (lenv e ''GOGC'')"
  let ?g = "gate_boot sessions_sleepFn procs ?gc t (process_start ps t procs ?gc)
    (lenv e ''EXIT_ON_IDLE'' = ''1'')"
  have g: "fst (Listen os e (bind_addr e) s) = Inr skt" "g = ?g"
    using assms by (auto simp: main_start_def split: sum.splits)
  have boot: "sleeping ?g" "seen ?g = {}" "\<not> exited ?g" "exitOnIdle ?g = (lenv e ''EXIT_ON_IDLE'' = ''1'')"
    "world ?g = sessions_sleepFn (process_start ps t procs ?gc)" by (auto simp: run_defs)
  have "entries (cache (world ?g)) = Map.empty"
    unfolding boot(5) by (simp add: process_defs session_sleep_fields)
  moreover have "fetches (cache (world ?g)) = Map.empty \<and> \<not> active (cache (world ?g))"
    "gomaxprocs (world ?g) = 1" "gcPercent (world ?g) = - 1"
    unfolding boot(5) using session_sleep_fields untouched_start
    by (simp_all add: process_defs process_start_def untouched_def)
  ultimately show ?thesis using boot(1-4) g by simp
qed

lemma main_starts_parked_witness:
  "\<exists>skt g. main_start Linux \<lparr>lenv = (\<lambda>v. if v = ''EXIT_ON_IDLE'' then ''1'' else []), getpid = 7,
       file_listener = (\<lambda>_. Inl ''none''), tcp_listener = (\<lambda>a. Inr a)\<rparr> sample_producers 4 0
       \<lparr>passedFiles = [], fds_closed = {}\<rparr> = Inr (skt, g) \<and>
     skt = ''127.0.0.1:8080'' \<and> sleeping g \<and> \<not> exited g \<and> exitOnIdle g"
proof -
  let ?e = "\<lparr>lenv = (\<lambda>v. if v = ''EXIT_ON_IDLE'' then ''1'' else []), getpid = 7,
       file_listener = (\<lambda>_. Inl ''none''), tcp_listener = (\<lambda>a. Inr a)\<rparr> :: string net_env"
  obtain skt g where g: "main_start Linux ?e sample_producers 4 0
      \<lparr>passedFiles = [], fds_closed = {}\<rparr> = Inr (skt, g)" "skt = ''127.0.0.1:8080''"
    by (auto simp: main_start_def Listen_def systemdListener_def socketActivationEnv_def bind_addr_def)
  from main_starts_parked [OF g(1)] g show ?thesis by auto
qed

end
